theory Spec2Isabelle
  imports Complex_Main
begin

section \<open>JavaScript values\<close>

text \<open>
  The values the provider handles come out of \<^verbatim>\<open>response.json()\<close> or are built from
  such values: \<^verbatim>\<open>undefined\<close>, \<^verbatim>\<open>null\<close>, booleans, numbers, strings, arrays and plain
  objects. A number is a finite value or one of \<^verbatim>\<open>NaN\<close>, \<^verbatim>\<open>Infinity\<close>, \<^verbatim>\<open>-Infinity\<close>;
  the rounding of finite values to doubles is not modelled. A string is a list of
  code units; \<open>char\<close> covers the code units below 256. An object is the list of its
  own properties in insertion order.
\<close>

datatype jsnum = Fin rat | NaN | PosInf | NegInf

datatype jsval =
    JUndefined
  | JNull
  | JBool bool
  | JNum jsnum
  | JStr string
  | JArr "jsval list"
  | JObj "(string \<times> jsval) list"

datatype error = TypeError | SyntaxError | NetworkError

text \<open>\<^verbatim>\<open>typeof v\<close>.\<close>

fun typeof :: "jsval \<Rightarrow> string" where
  "typeof JUndefined = ''undefined''"
| "typeof JNull = ''object''"
| "typeof (JBool b) = ''boolean''"
| "typeof (JNum n) = ''number''"
| "typeof (JStr s) = ''string''"
| "typeof (JArr xs) = ''object''"
| "typeof (JObj ps) = ''object''"

text \<open>ToBoolean: what \<^verbatim>\<open>!v\<close>, \<^verbatim>\<open>v && w\<close>, \<^verbatim>\<open>v || w\<close> and \<^verbatim>\<open>if (v)\<close> test.\<close>

fun truthy :: "jsval \<Rightarrow> bool" where
  "truthy JUndefined = False"
| "truthy JNull = False"
| "truthy (JBool b) = b"
| "truthy (JNum (Fin r)) = (r \<noteq> 0)"
| "truthy (JNum NaN) = False"
| "truthy (JNum PosInf) = True"
| "truthy (JNum NegInf) = True"
| "truthy (JStr s) = (s \<noteq> [])"
| "truthy (JArr xs) = True"
| "truthy (JObj ps) = True"

text \<open>\<^verbatim>\<open>v == null\<close>: true of \<^verbatim>\<open>null\<close> and \<^verbatim>\<open>undefined\<close> only.\<close>

fun nullish :: "jsval \<Rightarrow> bool" where
  "nullish JUndefined = True"
| "nullish JNull = True"
| "nullish v = False"

text \<open>\<^verbatim>\<open>a || b\<close>.\<close>

definition js_or :: "jsval \<Rightarrow> jsval \<Rightarrow> jsval" where
  "js_or a b = (if truthy a then a else b)"

text \<open>
  \<^verbatim>\<open>v.k\<close> for a property name \<open>k\<close> that is not an array index: reading from
  \<^verbatim>\<open>undefined\<close> or \<^verbatim>\<open>null\<close> throws a TypeError; a primitive has no such property except
  the \<^verbatim>\<open>length\<close> of a string; an array has its \<^verbatim>\<open>length\<close>; an object has its own
  properties.
\<close>

fun get_prop :: "jsval \<Rightarrow> string \<Rightarrow> error + jsval" where
  "get_prop JUndefined k = Inl TypeError"
| "get_prop JNull k = Inl TypeError"
| "get_prop (JBool b) k = Inr JUndefined"
| "get_prop (JNum n) k = Inr JUndefined"
| "get_prop (JStr s) k =
     Inr (if k = ''length'' then JNum (Fin (of_nat (length s))) else JUndefined)"
| "get_prop (JArr xs) k =
     Inr (if k = ''length'' then JNum (Fin (of_nat (length xs))) else JUndefined)"
| "get_prop (JObj ps) k = Inr (case map_of ps k of None \<Rightarrow> JUndefined | Some v \<Rightarrow> v)"

text \<open>\<^verbatim>\<open>v?.k\<close>: \<^verbatim>\<open>undefined\<close> when \<open>v\<close> is \<^verbatim>\<open>undefined\<close> or \<^verbatim>\<open>null\<close>; it never throws.\<close>

definition opt_prop :: "jsval \<Rightarrow> string \<Rightarrow> jsval" where
  "opt_prop v k = (case get_prop v k of Inl e \<Rightarrow> JUndefined | Inr w \<Rightarrow> w)"

section \<open>Strings and regular expressions\<close>

text \<open>
  The white space of \<^verbatim>\<open>\s\<close> and of \<^verbatim>\<open>trim\<close> (tab, line feed, vertical tab, form feed,
  carriage return, space, no-break space), the word characters of \<^verbatim>\<open>\w\<close>, and the
  characters \<^verbatim>\<open>.\<close> matches (all but the line terminators).
\<close>

definition is_space :: "char \<Rightarrow> bool" where
  "is_space c =
     (c \<in> set [CHR 0x09, CHR 0x0A, CHR 0x0B, CHR 0x0C, CHR 0x0D, CHR '' '', CHR 0xA0])"

definition is_word :: "char \<Rightarrow> bool" where
  "is_word c =
     (c \<in> set ''ABCDEFGHIJKLMNOPQRSTUVWXYZabcdefghijklmnopqrstuvwxyz0123456789_'')"

definition is_dot :: "char \<Rightarrow> bool" where
  "is_dot c = (c \<noteq> CHR 0x0A \<and> c \<noteq> CHR 0x0D)"

text \<open>
  Under the \<^verbatim>\<open>i\<close> flag two characters match when their canonical forms agree. The
  canonical form of an ASCII letter is its upper case; a character outside ASCII never
  has an ASCII canonical form, so against the ASCII literals of the patterns below it
  can stand for itself.
\<close>

definition canonicalize :: "char \<Rightarrow> char" where
  "canonicalize c =
     (case map_of (zip ''abcdefghijklmnopqrstuvwxyz'' ''ABCDEFGHIJKLMNOPQRSTUVWXYZ'') c of
        None \<Rightarrow> c
      | Some u \<Rightarrow> u)"

definition lit_eq :: "bool \<Rightarrow> string \<Rightarrow> string \<Rightarrow> bool" where
  "lit_eq ci l u = (if ci then map canonicalize l = map canonicalize u else l = u)"

definition trim :: "string \<Rightarrow> string" where
  "trim s = rev (dropWhile is_space (rev (dropWhile is_space s)))"

text \<open>
  The fragment of regular expressions the sources use: a literal, a character class,
  a greedy \<^verbatim>\<open>*\<close> or \<^verbatim>\<open>+\<close> over a character class, sequence, alternation, a greedy
  optional part, a capture group and the end-of-input assertion \<^verbatim>\<open>$\<close> (no \<^verbatim>\<open>m\<close> flag).
\<close>

datatype rx =
    Lit string
  | Cls "char \<Rightarrow> bool"
  | Star "char \<Rightarrow> bool"
  | Plus "char \<Rightarrow> bool"
  | Seq rx rx
  | Alt rx rx
  | Opt rx
  | Grp nat rx
  | Eos

type_synonym captures = "nat \<rightharpoonup> string"
type_synonym mstate = "captures \<times> string"

text \<open>
  The backtracking matcher returns, in the order in which backtracking tries them,
  the states (captures, rest of the input) in which a pattern can end. A greedy
  quantifier tries the longest run first and then gives characters back one by one.
\<close>

fun star_rests :: "(char \<Rightarrow> bool) \<Rightarrow> string \<Rightarrow> string list" where
  "star_rests p [] = [[]]"
| "star_rests p (x # xs) = (if p x then star_rests p xs else []) @ [x # xs]"

fun rx_run :: "bool \<Rightarrow> rx \<Rightarrow> mstate \<Rightarrow> mstate list" where
  "rx_run ci (Lit l) (c, s) =
     (if length l \<le> length s \<and> lit_eq ci l (take (length l) s)
      then [(c, drop (length l) s)] else [])"
| "rx_run ci (Cls p) (c, s) =
     (case s of [] \<Rightarrow> [] | x # xs \<Rightarrow> if p x then [(c, xs)] else [])"
| "rx_run ci (Star p) (c, s) = map (Pair c) (star_rests p s)"
| "rx_run ci (Plus p) (c, s) =
     (case s of [] \<Rightarrow> [] | x # xs \<Rightarrow> if p x then map (Pair c) (star_rests p xs) else [])"
| "rx_run ci (Seq a b) st = concat (map (rx_run ci b) (rx_run ci a st))"
| "rx_run ci (Alt a b) st = rx_run ci a st @ rx_run ci b st"
| "rx_run ci (Opt a) st = rx_run ci a st @ [st]"
| "rx_run ci (Grp n a) (c, s) =
     map (\<lambda>(c', s'). (c'(n \<mapsto> take (length s - length s') s), s')) (rx_run ci a (c, s))"
| "rx_run ci Eos (c, s) = (if s = [] then [(c, s)] else [])"

text \<open>
  \<^verbatim>\<open>str.match(re)\<close> for a pattern that starts with \<^verbatim>\<open>^\<close> (no \<^verbatim>\<open>g\<close>, no \<^verbatim>\<open>m\<close> flag): the
  pattern can match at index 0 only. The result is \<^verbatim>\<open>null\<close> or the match array: the
  whole match at index 0 and the capture groups, \<^verbatim>\<open>undefined\<close> for a group that took
  no part.
\<close>

definition match_anchored :: "bool \<Rightarrow> rx \<Rightarrow> string \<Rightarrow> captures option" where
  "match_anchored ci r s =
     (case rx_run ci r (Map.empty, s) of
        [] \<Rightarrow> None
      | (c, rest) # _ \<Rightarrow> Some (c(0 \<mapsto> take (length s - length rest) s)))"

definition match_group :: "captures \<Rightarrow> nat \<Rightarrow> jsval" where
  "match_group m k = (case m k of None \<Rightarrow> JUndefined | Some s \<Rightarrow> JStr s)"

text \<open>
  The leftmost match of a pattern without \<^verbatim>\<open>^\<close>: the start index and the length of
  the match. \<^verbatim>\<open>str.replace(re, '')\<close> (no \<^verbatim>\<open>g\<close> flag) removes that match.
\<close>

fun rx_search :: "bool \<Rightarrow> rx \<Rightarrow> nat \<Rightarrow> string \<Rightarrow> (nat \<times> nat) option" where
  "rx_search ci r i [] =
     (case rx_run ci r (Map.empty, []) of [] \<Rightarrow> None | (c, rest) # _ \<Rightarrow> Some (i, 0))"
| "rx_search ci r i (x # xs) =
     (case rx_run ci r (Map.empty, x # xs) of
        [] \<Rightarrow> rx_search ci r (Suc i) xs
      | (c, rest) # _ \<Rightarrow> Some (i, length (x # xs) - length rest))"

definition replace_rx :: "bool \<Rightarrow> rx \<Rightarrow> string \<Rightarrow> string" where
  "replace_rx ci r s =
     (case rx_search ci r 0 s of None \<Rightarrow> s | Some (i, n) \<Rightarrow> take i s @ drop (i + n) s)"

text \<open>
  \<^verbatim>\<open>str.replace(pat, '')\<close> for a string pattern: the first occurrence of \<open>pat\<close> is
  removed.
\<close>

fun remove_first :: "string \<Rightarrow> string \<Rightarrow> string" where
  "remove_first pat [] = []"
| "remove_first pat (x # xs) =
     (if take (length pat) (x # xs) = pat then drop (length pat) (x # xs)
      else x # remove_first pat xs)"

section \<open>ContactNameParser: parseSalutation\<close>

record salutation =
  gender :: string
  lastName :: jsval

text \<open>
  \<^verbatim>\<open>/^(Mr\.|Herr)\s(\w+)(?:\s(\w+))?$/i\<close> and
  \<^verbatim>\<open>/^(Ms\.|Mrs\.|Frau)\s(\w+)(?:\s(\w+))?$/i\<close>. Group 1 is the salutation, group 2 the
  first name token, group 3 the second one.
\<close>

definition malePattern :: rx where
  "malePattern =
     Seq (Grp 1 (Alt (Lit ''Mr.'') (Lit ''Herr'')))
    (Seq (Cls is_space)
    (Seq (Grp 2 (Plus is_word))
    (Seq (Opt (Seq (Cls is_space) (Grp 3 (Plus is_word))))
         Eos)))"

definition femalePattern :: rx where
  "femalePattern =
     Seq (Grp 1 (Alt (Lit ''Ms.'') (Alt (Lit ''Mrs.'') (Lit ''Frau''))))
    (Seq (Cls is_space)
    (Seq (Grp 2 (Plus is_word))
    (Seq (Opt (Seq (Cls is_space) (Grp 3 (Plus is_word))))
         Eos)))"

text \<open>
  \<^verbatim>\<open>parseSalutation\<close> of lib/provider/immoscout.js. The last name is computed from
  groups 1 and 2 in both branches.
\<close>

definition parseSalutation :: "jsval \<Rightarrow> salutation option" where
  "parseSalutation name =
     (if \<not> truthy name \<or> typeof name \<noteq> ''string'' then None
      else case name of
        JStr s \<Rightarrow>
          (let trimmedName = trim s in
           case match_anchored True malePattern trimmedName of
             Some maleMatch \<Rightarrow>
               Some \<lparr>gender = ''male'',
                     lastName = (if truthy (match_group maleMatch 1) \<and> truthy (match_group maleMatch 2)
                                 then match_group maleMatch 2 else match_group maleMatch 1)\<rparr>
           | None \<Rightarrow>
              (case match_anchored True femalePattern trimmedName of
                 Some femaleMatch \<Rightarrow>
                   Some \<lparr>gender = ''female'',
                         lastName =
                           (if truthy (match_group femaleMatch 1) \<and> truthy (match_group femaleMatch 2)
                            then match_group femaleMatch 2 else match_group femaleMatch 1)\<rparr>
               | None \<Rightarrow> None))
      | _ \<Rightarrow> None)"

text \<open>
  The second \<^verbatim>\<open>parseSalutation\<close>, of the script that follows the geocoding service.
  It builds the male pattern from the list \<^verbatim>\<open>['Mr.', 'Herr']\<close> (each dot escaped, joined
  by \<^verbatim>\<open>|\<close>), which gives the pattern above, and reads groups 2 and 3 in the male
  branch; the female branch is the one of the provider.
\<close>

definition parseSalutation_script :: "jsval \<Rightarrow> salutation option" where
  "parseSalutation_script name =
     (if \<not> truthy name \<or> typeof name \<noteq> ''string'' then None
      else case name of
        JStr s \<Rightarrow>
          (let trimmedName = trim s in
           case match_anchored True malePattern trimmedName of
             Some maleMatch \<Rightarrow>
               Some \<lparr>gender = ''male'',
                     lastName = (if truthy (match_group maleMatch 2) \<and> truthy (match_group maleMatch 3)
                                 then match_group maleMatch 3 else match_group maleMatch 2)\<rparr>
           | None \<Rightarrow>
              (case match_anchored True femalePattern trimmedName of
                 Some femaleMatch \<Rightarrow>
                   Some \<lparr>gender = ''female'',
                         lastName =
                           (if truthy (match_group femaleMatch 1) \<and> truthy (match_group femaleMatch 2)
                            then match_group femaleMatch 2 else match_group femaleMatch 1)\<rparr>
               | None \<Rightarrow> None))
      | _ \<Rightarrow> None)"

text \<open>
  The shape the spec gives a classifiable name, for comparison with the patterns: after
  trimming, an accepted honorific (compared without regard to case), then one or two
  name tokens, the parts separated by single white-space characters.
\<close>

definition male_honorifics :: "string list" where
  "male_honorifics = [''Mr.'', ''Herr'']"

definition female_honorifics :: "string list" where
  "female_honorifics = [''Ms.'', ''Mrs.'', ''Frau'']"

definition is_honorific :: "string list \<Rightarrow> string \<Rightarrow> bool" where
  "is_honorific hs h = list_ex (\<lambda>l. lit_eq True l h) hs"

definition name_token :: "string \<Rightarrow> bool" where
  "name_token n = (n \<noteq> [] \<and> list_all is_word n)"

fun split_space :: "string \<Rightarrow> string list" where
  "split_space [] = [[]]"
| "split_space (x # xs) =
     (if is_space x then [] # split_space xs
      else case split_space xs of [] \<Rightarrow> [[x]] | t # ts \<Rightarrow> (x # t) # ts)"

definition salutation_form :: "string \<Rightarrow> bool" where
  "salutation_form t =
     (case split_space t of
        [h, n] \<Rightarrow> is_honorific (male_honorifics @ female_honorifics) h \<and> name_token n
      | [h, n1, n2] \<Rightarrow>
          is_honorific (male_honorifics @ female_honorifics) h \<and> name_token n1 \<and> name_token n2
      | _ \<Rightarrow> False)"

text \<open>
  The strings a pattern can consume, used to reason about the matcher, and the
  common part of the two salutation patterns after the honorific.
\<close>

fun lang :: "bool \<Rightarrow> rx \<Rightarrow> string set" where
  "lang ci (Lit l) = {u. lit_eq ci l u}"
| "lang ci (Cls p) = {[x] | x. p x}"
| "lang ci (Star p) = {u. list_all p u}"
| "lang ci (Plus p) = {u. u \<noteq> [] \<and> list_all p u}"
| "lang ci (Seq a b) = {u @ v | u v. u \<in> lang ci a \<and> v \<in> lang ci b}"
| "lang ci (Alt a b) = lang ci a \<union> lang ci b"
| "lang ci (Opt a) = insert [] (lang ci a)"
| "lang ci (Grp n a) = lang ci a"
| "lang ci Eos = {[]}"

fun ends_eos :: "rx \<Rightarrow> bool" where
  "ends_eos (Seq a b) = ends_eos b"
| "ends_eos Eos = True"
| "ends_eos r = False"

definition name_tail :: rx where
  "name_tail =
    (Seq (Cls is_space)
    (Seq (Grp 2 (Plus is_word))
    (Seq (Opt (Seq (Cls is_space) (Grp 3 (Plus is_word))))
         Eos)))"

definition one_token :: "string \<Rightarrow> string \<Rightarrow> bool" where
  "one_token h t = (\<exists>w n1. is_space w \<and> name_token n1 \<and> t = h @ w # n1)"

definition two_tokens :: "string \<Rightarrow> string \<Rightarrow> bool" where
  "two_tokens h t =
     (\<exists>w n1 w2 n2. is_space w \<and> name_token n1 \<and> is_space w2 \<and> name_token n2 \<and>
        t = h @ w # n1 @ w2 # n2)"

section \<open>Provider: normalize\<close>

text \<open>
  \<^verbatim>\<open>normalize\<close> assigns to the object it is given, so objects live in a store and
  are passed by reference.
\<close>

type_synonym object = "(string \<times> jsval) list"
type_synonym ref = nat
type_synonym heap = "ref \<rightharpoonup> object"

definition obj_prop :: "object \<Rightarrow> string \<Rightarrow> jsval" where
  "obj_prop ps k = (case map_of ps k of None \<Rightarrow> JUndefined | Some v \<Rightarrow> v)"

text \<open>
  Assignment to a property: an existing property keeps its place, a new one is added
  at the end.
\<close>

fun set_prop :: "string \<Rightarrow> jsval \<Rightarrow> object \<Rightarrow> object" where
  "set_prop k v [] = [(k, v)]"
| "set_prop k v ((k', v') # ps) =
     (if k' = k then (k, v) # ps else (k', v') # set_prop k v ps)"

text \<open>\<^verbatim>\<open>val == null || val.length === 0\<close>\<close>

definition nullOrEmpty :: "jsval \<Rightarrow> bool" where
  "nullOrEmpty val = (nullish val \<or> get_prop val ''length'' = Inr (JNum (Fin 0)))"

text \<open>\<^verbatim>\<open>/\(.*\),.*$/\<close>\<close>

definition address_rx :: rx where
  "address_rx =
     Seq (Lit ''('') (Seq (Star is_dot) (Seq (Lit ''),'') (Seq (Star is_dot) Eos)))"

text \<open>
  \<^verbatim>\<open>normalize(o)\<close>, named \<open>normalize_item\<close> here since HOL has a constant \<open>normalize\<close>,
  with the hash function of lib/utils.js as a parameter. Calling
  \<^verbatim>\<open>replace\<close> on a value that is not a string throws a TypeError (no other value
  that can come out of JSON has a callable \<^verbatim>\<open>replace\<close>). A reference outside the store
  stands for an argument that is no object. \<^verbatim>\<open>Object.assign\<close> writes \<^verbatim>\<open>id\<close>, \<^verbatim>\<open>title\<close>
  and \<^verbatim>\<open>address\<close> to the object and returns the object itself.
\<close>

definition normalize_item ::
  "(jsval \<Rightarrow> jsval \<Rightarrow> jsval) \<Rightarrow> ref \<Rightarrow> heap \<Rightarrow> error + ref \<times> heap" where
  "normalize_item buildHash r h =
     (case h r of
        None \<Rightarrow> Inl TypeError
      | Some obj \<Rightarrow>
         (case (if nullOrEmpty (obj_prop obj ''title'') then Inr ''NO TITLE FOUND''
                else case obj_prop obj ''title'' of
                       JStr s \<Rightarrow> Inr (remove_first ''NEU'' s)
                     | _ \<Rightarrow> Inl TypeError) of
            Inl e \<Rightarrow> Inl e
          | Inr title \<Rightarrow>
             (case (if nullOrEmpty (obj_prop obj ''address'') then Inr ''NO ADDRESS FOUND''
                    else case js_or (obj_prop obj ''address'') (JStr []) of
                           JStr s \<Rightarrow> Inr (trim (replace_rx False address_rx s))
                         | _ \<Rightarrow> Inl TypeError) of
                Inl e \<Rightarrow> Inl e
              | Inr address \<Rightarrow>
                 (let id = buildHash (obj_prop obj ''id'') (obj_prop obj ''price'')
                  in Inr (r, h(r \<mapsto> set_prop ''address'' (JStr address)
                                      (set_prop ''title'' (JStr title)
                                      (set_prop ''id'' id obj))))))))"

text \<open>The \<^verbatim>\<open>id\<close> a listing carries after \<^verbatim>\<open>normalize\<close>, if the call returns.\<close>

definition assigned_id ::
  "(jsval \<Rightarrow> jsval \<Rightarrow> jsval) \<Rightarrow> ref \<Rightarrow> heap \<Rightarrow> jsval option" where
  "assigned_id buildHash r h =
     (case normalize_item buildHash r h of
        Inl e \<Rightarrow> None
      | Inr (r', h') \<Rightarrow> (case h' r' of None \<Rightarrow> None | Some obj \<Rightarrow> Some (obj_prop obj ''id'')))"

text \<open>
  Modelled from the spec: \<^verbatim>\<open>buildHash\<close> of lib/utils.js, which \<^verbatim>\<open>normalize\<close> imports, is
  not among the sources. The spec describes the listing id as a stable hash derived
  from the source-native id and the price: the same for the same pair, a new one when
  the price changes. The digest is modelled as a value that determines the pair it
  was computed from, a hash without collisions.
\<close>

definition buildHash :: "jsval \<Rightarrow> jsval \<Rightarrow> jsval" where
  "buildHash i p = JArr [JStr ''hash'', i, p]"

text \<open>A raw item field that is a string or is missing.\<close>

definition text_or_absent :: "jsval \<Rightarrow> bool" where
  "text_or_absent v = (nullish v \<or> typeof v = ''string'')"

section \<open>NotificationRegistry: send\<close>

text \<open>
  The adapters are the modules found in the adapter directory when the registry is
  loaded; they are not among the sources and are a parameter. An adapter has
  \<^verbatim>\<open>config.id\<close> and \<^verbatim>\<open>send\<close>, which returns a promise.
\<close>

record ('p, 'r) adapter =
  config_id :: string
  adapter_send :: "'p \<Rightarrow> 'r"

record channel =
  channel_id :: string

record ('n, 'l, 'c, 'j) payload =
  serviceName :: 'n
  newListings :: 'l
  notificationConfig :: "'c list"
  jobKey :: 'j

definition findAdapter ::
  "('p, 'r) adapter list \<Rightarrow> 'a channel_scheme \<Rightarrow> ('p, 'r) adapter option" where
  "findAdapter adapters notificationAdapter =
     find (\<lambda>a. config_id a = channel_id notificationAdapter) adapters"

text \<open>\<^verbatim>\<open>xs.map(f)\<close> for a callback that can throw: the first exception ends the loop.\<close>

fun map_throwing :: "('a \<Rightarrow> error + 'b) \<Rightarrow> 'a list \<Rightarrow> error + 'b list" where
  "map_throwing f [] = Inr []"
| "map_throwing f (x # xs) =
     (case f x of
        Inl e \<Rightarrow> Inl e
      | Inr y \<Rightarrow> (case map_throwing f xs of Inl e \<Rightarrow> Inl e | Inr ys \<Rightarrow> Inr (y # ys)))"

text \<open>
  \<^verbatim>\<open>send\<close>: the last \<^verbatim>\<open>map\<close> calls \<^verbatim>\<open>a.send\<close>, which throws a TypeError when \<open>a\<close> is
  \<^verbatim>\<open>undefined\<close>.
\<close>

definition send ::
  "(('n, 'l, 'a channel_scheme, 'j) payload, 'r) adapter list \<Rightarrow> 'n \<Rightarrow> 'l \<Rightarrow>
     'a channel_scheme list \<Rightarrow> 'j \<Rightarrow> error + 'r list" where
  "send adapters sn nl nc jk =
     map_throwing
       (\<lambda>a. case a of
               None \<Rightarrow> Inl TypeError
             | Some ad \<Rightarrow>
                 Inr (adapter_send ad
                   \<lparr>serviceName = sn, newListings = nl, notificationConfig = nc, jobKey = jk\<rparr>))
       (map (\<lambda>notificationAdapter. findAdapter adapters notificationAdapter)
         (filter (\<lambda>notificationAdapter. findAdapter adapters notificationAdapter \<noteq> None) nc))"

section \<open>Conversions\<close>

text \<open>
  ToString, as a template literal and \<^verbatim>\<open>parseInt\<close> apply it. How the runtime prints a
  finite number is a parameter, \<open>nts\<close>. An object is printed by the \<^verbatim>\<open>toString\<close> it
  inherits, as \<^verbatim>\<open>[object Object]\<close>; an object with a property \<^verbatim>\<open>toString\<close> of its own,
  which in a value read from JSON is never a function, cannot be converted, and the
  conversion throws a TypeError. An array is printed by \<^verbatim>\<open>join\<close>: its elements, with
  \<^verbatim>\<open>undefined\<close> and \<^verbatim>\<open>null\<close> printed as the empty string, separated by commas; the
  first element that cannot be converted makes the conversion throw.
\<close>

fun join_comma :: "string list \<Rightarrow> string" where
  "join_comma [] = []"
| "join_comma [x] = x"
| "join_comma (x # y # zs) = x @ '','' @ join_comma (y # zs)"

fun number_text :: "(rat \<Rightarrow> string) \<Rightarrow> jsnum \<Rightarrow> string" where
  "number_text nts (Fin r) = nts r"
| "number_text nts NaN = ''NaN''"
| "number_text nts PosInf = ''Infinity''"
| "number_text nts NegInf = ''-Infinity''"

text \<open>The results of a sequence of evaluations, up to the first that throws.\<close>

fun all_results :: "(error + 'a) list \<Rightarrow> error + 'a list" where
  "all_results [] = Inr []"
| "all_results (r # rs) =
     (case r of
        Inl e \<Rightarrow> Inl e
      | Inr y \<Rightarrow> (case all_results rs of Inl e \<Rightarrow> Inl e | Inr ys \<Rightarrow> Inr (y # ys)))"

fun ToString :: "(rat \<Rightarrow> string) \<Rightarrow> jsval \<Rightarrow> error + string" where
  "ToString nts JUndefined = Inr ''undefined''"
| "ToString nts JNull = Inr ''null''"
| "ToString nts (JBool b) = Inr (if b then ''true'' else ''false'')"
| "ToString nts (JNum n) = Inr (number_text nts n)"
| "ToString nts (JStr s) = Inr s"
| "ToString nts (JArr xs) =
     (case all_results (map (\<lambda>x. if nullish x then Inr [] else ToString nts x) xs) of
        Inl e \<Rightarrow> Inl e
      | Inr ss \<Rightarrow> Inr (join_comma ss))"
| "ToString nts (JObj ps) =
     (if map_of ps ''toString'' = None then Inr ''[object Object]'' else Inl TypeError)"

text \<open>The values ToString converts: no object with a \<^verbatim>\<open>toString\<close> of its own in them.\<close>

fun printable :: "jsval \<Rightarrow> bool" where
  "printable (JArr xs) = list_all printable xs"
| "printable (JObj ps) = (map_of ps ''toString'' = None)"
| "printable v = True"

text \<open>
  \<^verbatim>\<open>parseInt(v, 10)\<close>: the string of \<open>v\<close> without leading white space, an optional
  sign, then the longest run of decimal digits; \<^verbatim>\<open>NaN\<close> when there is no digit. It
  throws when \<open>v\<close> cannot be converted to a string.
\<close>

definition is_digit :: "char \<Rightarrow> bool" where
  "is_digit c = (c \<in> set ''0123456789'')"

definition digit_value :: "char \<Rightarrow> nat" where
  "digit_value c =
     (case map_of (zip ''0123456789'' [0, 1, 2, 3, 4, 5, 6, 7, 8, 9]) c of
        None \<Rightarrow> 0
      | Some d \<Rightarrow> d)"

definition digits_value :: "string \<Rightarrow> nat" where
  "digits_value ds = foldl (\<lambda>n c. 10 * n + digit_value c) 0 ds"

definition parseInt10 :: "string \<Rightarrow> jsnum" where
  "parseInt10 inputString =
     (let S = dropWhile is_space inputString;
          sign = (case S of [] \<Rightarrow> 1 | c # cs \<Rightarrow> if c = CHR ''-'' then - 1 else (1::int));
          S' = (case S of [] \<Rightarrow> S
                | c # cs \<Rightarrow> if c = CHR ''-'' \<or> c = CHR ''+'' then cs else S);
          Z = takeWhile is_digit S'
      in if Z = [] then NaN else Fin (of_int (sign * int (digits_value Z))))"

definition parseInt :: "(rat \<Rightarrow> string) \<Rightarrow> jsval \<Rightarrow> error + jsnum" where
  "parseInt nts v = (case ToString nts v of Inl e \<Rightarrow> Inl e | Inr s \<Rightarrow> Inr (parseInt10 s))"

section \<open>The network and the console\<close>

text \<open>
  A call of \<^verbatim>\<open>fetch\<close> is rejected (a network failure) or resolves to a response; the
  response carries \<^verbatim>\<open>ok\<close>, \<^verbatim>\<open>status\<close>, \<^verbatim>\<open>statusText\<close> and, when its body is JSON, the
  value \<^verbatim>\<open>response.json()\<close> resolves to (otherwise \<^verbatim>\<open>json()\<close> rejects with a
  SyntaxError). The world records the requests made and the lines written to the
  console.
\<close>

record request =
  req_url :: string
  req_method :: string
  req_headers :: "(string \<times> string) list"
  req_body :: "string option"

record response =
  resp_ok :: bool
  resp_status :: nat
  resp_statusText :: string
  resp_json :: "jsval option"

datatype fetch_result = Rejected | Resolved response

type_synonym network = "request \<Rightarrow> fetch_result"

datatype logarg = Val jsval | ErrorMessage error

datatype log_entry = ConsoleError "logarg list" | ConsoleLog "logarg list"

record world =
  requests :: "request list"
  console :: "log_entry list"

definition fetch :: "network \<Rightarrow> request \<Rightarrow> world \<Rightarrow> fetch_result \<times> world" where
  "fetch net req w = (net req, w\<lparr>requests := requests w @ [req]\<rparr>)"

definition log_line :: "log_entry \<Rightarrow> world \<Rightarrow> world" where
  "log_line e w = w\<lparr>console := console w @ [e]\<rparr>"

section \<open>GeocodingClient\<close>

definition NOMINATIM_BASE_URL :: string where
  "NOMINATIM_BASE_URL = ''https://nominatim.openstreetmap.org''"

text \<open>
  \<^verbatim>\<open>throttledFetch\<close>: the throttle of p-throttle (1 call per 1000 ms) delays the call
  of \<^verbatim>\<open>fetch\<close>; time is not part of the model.
\<close>

definition throttledFetch :: "network \<Rightarrow> string \<Rightarrow> world \<Rightarrow> fetch_result \<times> world" where
  "throttledFetch net u w =
     fetch net \<lparr>req_url = u, req_method = ''GET'',
                req_headers = [(''User-Agent'', ''Fredy-Real-Estate-Bot/1.0'')],
                req_body = None\<rparr> w"

definition extractAddressComponents :: "jsval \<Rightarrow> world \<Rightarrow> jsval \<times> world" where
  "extractAddressComponents geocodeResponse w =
     (if \<not> truthy (opt_prop geocodeResponse ''address'')
      then (JNull, log_line (ConsoleError [Val (JStr ''Geocoding service: Address missing.'')]) w)
      else
        (let w1 = log_line (ConsoleLog [Val geocodeResponse]) w;
             address = opt_prop geocodeResponse ''address''
         in (JObj
              [(''houseNumber'', js_or (opt_prop address ''house_number'') JNull),
               (''street'', js_or (opt_prop address ''road'') JNull),
               (''neighbourhood'', js_or (opt_prop address ''neighbourhood'') JNull),
               (''suburb'', js_or (opt_prop address ''suburb'') JNull),
               (''borough'', js_or (opt_prop address ''borough'') JNull),
               (''city'', js_or (js_or (js_or (opt_prop address ''city'')
                                              (opt_prop address ''town''))
                                       (opt_prop address ''village'')) JNull),
               (''postcode'', js_or (opt_prop address ''postcode'') JNull),
               (''country'', js_or (opt_prop address ''country'') JNull),
               (''countryCode'', js_or (opt_prop address ''country_code'') JNull),
               (''displayName'', js_or (opt_prop geocodeResponse ''display_name'') JNull)],
             w1)))"

text \<open>
  \<^verbatim>\<open>reverseGeocode(lat, lon)\<close>. The URL is built after the two guards and before
  \<^verbatim>\<open>try\<close>, so an exception of the two conversions would leave the function; the rest
  runs inside \<^verbatim>\<open>try\<close>, and the \<^verbatim>\<open>catch\<close> logs the message of the error and returns
  \<^verbatim>\<open>null\<close>. \<^verbatim>\<open>response.status\<close> is a number.
\<close>

definition reverseGeocode ::
  "(rat \<Rightarrow> string) \<Rightarrow> network \<Rightarrow> jsval \<Rightarrow> jsval \<Rightarrow> world \<Rightarrow> (error + jsval) \<times> world" where
  "reverseGeocode nts net lat lon w =
     (if nullish lat \<or> nullish lon
      then (Inr JNull,
            log_line (ConsoleError
                  [Val (JStr ''Geocoding service: Latitude and longitude are required.'')]) w)
      else if typeof lat \<noteq> ''number'' \<or> typeof lon \<noteq> ''number''
      then (Inr JNull,
            log_line (ConsoleError
                  [Val (JStr ''Geocoding service: Latitude and longitude must be numbers.'')]) w)
      else
        (case ToString nts lat of
           Inl e \<Rightarrow> (Inl e, w)
         | Inr lat_text \<Rightarrow>
        (case ToString nts lon of
           Inl e \<Rightarrow> (Inl e, w)
         | Inr lon_text \<Rightarrow>
        (let u = NOMINATIM_BASE_URL @ ''/reverse?lat='' @ lat_text @ ''&lon='' @
                 lon_text @ ''&format=json''
         in case throttledFetch net u w of
              (Rejected, w1) \<Rightarrow>
                (Inr JNull,
                 log_line (ConsoleError [Val (JStr ''Geocoding service: Request failed:''),
                                           ErrorMessage NetworkError]) w1)
            | (Resolved response, w1) \<Rightarrow>
                if \<not> resp_ok response
                then (Inr JNull,
                      log_line (ConsoleError
                            [Val (JStr (''Geocoding service: HTTP error '' @
                               number_text nts (Fin (of_nat (resp_status response))) @
                               '': '' @ resp_statusText response))]) w1)
                else
                  (case resp_json response of
                     None \<Rightarrow>
                       (Inr JNull,
                        log_line (ConsoleError [Val (JStr ''Geocoding service: Request failed:''),
                                           ErrorMessage SyntaxError]) w1)
                   | Some data \<Rightarrow>
                      (case get_prop data ''error'' of
                         Inl e \<Rightarrow>
                           (Inr JNull,
                            log_line (ConsoleError
                                  [Val (JStr ''Geocoding service: Request failed:''),
                                   ErrorMessage e]) w1)
                       | Inr err \<Rightarrow>
                           if truthy err
                           then (Inr JNull,
                                 log_line (ConsoleError
                                       [Val (JStr ''Geocoding service: API returned error:''),
                                        Val err]) w1)
                           else (case extractAddressComponents data w1 of
                                   (components, w2) \<Rightarrow> (Inr components, w2))))))))"

definition getSuburb ::
  "(rat \<Rightarrow> string) \<Rightarrow> network \<Rightarrow> jsval \<Rightarrow> jsval \<Rightarrow> world \<Rightarrow> (error + jsval) \<times> world" where
  "getSuburb nts net lat lon w =
     (case reverseGeocode nts net lat lon w of
        (Inl e, w1) \<Rightarrow> (Inl e, w1)
      | (Inr geocodeResult, w1) \<Rightarrow> (Inr (js_or (opt_prop geocodeResult ''suburb'') JNull), w1))"

section \<open>Provider: getListings and getListingInfo\<close>

definition defaultHeaders :: "(string \<times> string) list" where
  "defaultHeaders =
     [(''User-Agent'', ''ImmoScout24_1410_30_._''), (''Content-Type'', ''application/json'')]"

text \<open>\<^verbatim>\<open>metaInformation.baseUrl\<close>\<close>

definition baseUrl :: string where
  "baseUrl = ''https://www.immobilienscout24.de/''"

text \<open>
  \<^verbatim>\<open>JSON.stringify({supportedResultListTypes: [], userData: {}})\<close>; the character
  0x22 is the double quote.
\<close>

definition search_body :: string where
  "search_body =
     ''{'' @ [CHR 0x22] @ ''supportedResultListTypes'' @ [CHR 0x22] @ '':[],'' @
     [CHR 0x22] @ ''userData'' @ [CHR 0x22] @ '':{}}''"

text \<open>\<^verbatim>\<open>xs.filter(f)\<close> for a callback that can throw.\<close>

fun filter_throwing :: "('a \<Rightarrow> error + bool) \<Rightarrow> 'a list \<Rightarrow> error + 'a list" where
  "filter_throwing f [] = Inr []"
| "filter_throwing f (x # xs) =
     (case f x of
        Inl e \<Rightarrow> Inl e
      | Inr b \<Rightarrow>
         (case filter_throwing f xs of
            Inl e \<Rightarrow> Inl e
          | Inr ys \<Rightarrow> Inr (if b then x # ys else ys)))"

text \<open>
  \<^verbatim>\<open>const [a, b] = v\<close>: \<open>v\<close> must be iterable, an array or a string (whose elements
  are its characters); a missing element is \<^verbatim>\<open>undefined\<close>.
\<close>

definition element :: "jsval list \<Rightarrow> nat \<Rightarrow> jsval" where
  "element xs i = (if i < length xs then xs ! i else JUndefined)"

definition destructure2 :: "jsval \<Rightarrow> error + jsval \<times> jsval" where
  "destructure2 v =
     (case v of
        JArr xs \<Rightarrow> Inr (element xs 0, element xs 1)
      | JStr s \<Rightarrow> Inr (element (map (\<lambda>c. JStr [c]) s) 0, element (map (\<lambda>c. JStr [c]) s) 1)
      | _ \<Rightarrow> Inl TypeError)"

text \<open>
  The callback of \<^verbatim>\<open>map\<close> in \<^verbatim>\<open>getListings\<close>. Once \<^verbatim>\<open>item.attributes\<close> has been
  read, \<open>item\<close> is neither \<^verbatim>\<open>undefined\<close> nor \<^verbatim>\<open>null\<close> and its other properties are read
  without an exception. The template of the link converts \<^verbatim>\<open>item.id\<close> to a string,
  which can throw.
\<close>

definition raw_item :: "(rat \<Rightarrow> string) \<Rightarrow> jsval \<Rightarrow> error + jsval" where
  "raw_item nts expose =
     (case get_prop expose ''item'' of
        Inl e \<Rightarrow> Inl e
      | Inr item \<Rightarrow>
         (case get_prop item ''attributes'' of
            Inl e \<Rightarrow> Inl e
          | Inr attributes \<Rightarrow>
             (case destructure2 attributes of
                Inl e \<Rightarrow> Inl e
              | Inr (price, size') \<Rightarrow>
                 (case ToString nts (opt_prop item ''id'') of
                    Inl e \<Rightarrow> Inl e
                  | Inr id_text \<Rightarrow>
                     Inr (JObj
                       [(''id'', opt_prop item ''id''),
                        (''price'', opt_prop price ''value''),
                        (''size'', opt_prop size' ''value''),
                        (''title'', opt_prop item ''title''),
                        (''link'', JStr (baseUrl @ ''expose/'' @ id_text)),
                        (''address'', opt_prop (opt_prop item ''address'') ''line'')])))))"

definition getListings ::
  "(rat \<Rightarrow> string) \<Rightarrow> network \<Rightarrow> string \<Rightarrow> world \<Rightarrow> (error + jsval list) \<times> world" where
  "getListings nts net u w =
     (case fetch net \<lparr>req_url = u, req_method = ''POST'', req_headers = defaultHeaders,
                      req_body = Some search_body\<rparr> w of
        (Rejected, w1) \<Rightarrow> (Inl NetworkError, w1)
      | (Resolved response, w1) \<Rightarrow>
          if \<not> resp_ok response
          then (Inr [],
                log_line (ConsoleError
                      [Val (JStr ''Error fetching listings from ImmoScout Mobile API:''),
                       Val (JStr (resp_statusText response))]) w1)
          else
            (case resp_json response of
               None \<Rightarrow> (Inl SyntaxError, w1)
             | Some responseBody \<Rightarrow>
                (case get_prop responseBody ''resultListItems'' of
                   Inl e \<Rightarrow> (Inl e, w1)
                 | Inr (JArr resultListItems) \<Rightarrow>
                    (case filter_throwing
                            (\<lambda>item. case get_prop item ''type'' of
                                       Inl e \<Rightarrow> Inl e
                                     | Inr t \<Rightarrow> Inr (t = JStr ''EXPOSE_RESULT''))
                            resultListItems of
                       Inl e \<Rightarrow> (Inl e, w1)
                     | Inr exposes \<Rightarrow> (map_throwing (raw_item nts) exposes, w1))
                 | Inr _ \<Rightarrow> (Inl TypeError, w1))))"

text \<open>
  The bodies \<^verbatim>\<open>getListings\<close> can read: \<^verbatim>\<open>resultListItems\<close> is an array without
  \<^verbatim>\<open>null\<close> entries, and every entry of type \<^verbatim>\<open>EXPOSE_RESULT\<close> has an \<^verbatim>\<open>item\<close> that is an
  object whose \<^verbatim>\<open>attributes\<close> are an array or a string (which is iterable too) and
  whose \<^verbatim>\<open>id\<close> can be converted to a string.
\<close>

definition expose_ok :: "jsval \<Rightarrow> bool" where
  "expose_ok e =
     (case opt_prop e ''item'' of
        JObj ps \<Rightarrow>
          (case obj_prop ps ''attributes'' of
             JArr xs \<Rightarrow> printable (obj_prop ps ''id'')
           | JStr s \<Rightarrow> printable (obj_prop ps ''id'')
           | _ \<Rightarrow> False)
      | _ \<Rightarrow> False)"

definition is_expose :: "jsval \<Rightarrow> bool" where
  "is_expose e = (opt_prop e ''type'' = JStr ''EXPOSE_RESULT'')"

definition entry_ok :: "jsval \<Rightarrow> bool" where
  "entry_ok e = (\<not> nullish e \<and> (if is_expose e then expose_ok e else True))"

definition well_formed_body :: "jsval \<Rightarrow> bool" where
  "well_formed_body b =
     (case opt_prop b ''resultListItems'' of JArr xs \<Rightarrow> list_all entry_ok xs | _ \<Rightarrow> False)"

definition elements :: "jsval \<Rightarrow> jsval list" where
  "elements v = (case v of JArr xs \<Rightarrow> xs | _ \<Rightarrow> [])"

definition raw_item_keys :: "jsval \<Rightarrow> string list" where
  "raw_item_keys v = (case v of JObj ps \<Rightarrow> map fst ps | _ \<Rightarrow> [])"

definition search_request :: "string \<Rightarrow> request" where
  "search_request u =
     \<lparr>req_url = u, req_method = ''POST'', req_headers = defaultHeaders,
      req_body = Some search_body\<rparr>"

text \<open>
  \<^verbatim>\<open>xs?.find((x) => x.k === v)\<close> for a string \<open>v\<close>: \<^verbatim>\<open>undefined\<close> when \<open>xs\<close> is
  \<^verbatim>\<open>undefined\<close> or \<^verbatim>\<open>null\<close>, a TypeError when \<open>xs\<close> is no array or an element before the
  first hit is \<^verbatim>\<open>undefined\<close> or \<^verbatim>\<open>null\<close>.
\<close>

fun find_by :: "string \<Rightarrow> string \<Rightarrow> jsval list \<Rightarrow> error + jsval" where
  "find_by k v [] = Inr JUndefined"
| "find_by k v (x # xs) =
     (case get_prop x k of
        Inl e \<Rightarrow> Inl e
      | Inr t \<Rightarrow> if t = JStr v then Inr x else find_by k v xs)"

definition opt_find_by :: "string \<Rightarrow> string \<Rightarrow> jsval \<Rightarrow> error + jsval" where
  "opt_find_by k v xs =
     (if nullish xs then Inr JUndefined
      else case xs of JArr ys \<Rightarrow> find_by k v ys | _ \<Rightarrow> Inl TypeError)"

text \<open>The object \<^verbatim>\<open>getListingInfo\<close> returns; \<open>info_id\<close> is its \<^verbatim>\<open>id\<close>.\<close>

record listing_info =
  info_id :: jsval
  roomCount :: jsval
  suburb :: jsval
  salutation :: "salutation option"

definition getListingInfo ::
  "(rat \<Rightarrow> string) \<Rightarrow> network \<Rightarrow> jsval \<Rightarrow> world \<Rightarrow>
     (error + listing_info option) \<times> world" where
  "getListingInfo nts net listingId w =
     (case ToString nts listingId of
        Inl e \<Rightarrow> (Inl e, w)
      | Inr id_text \<Rightarrow>
     (case fetch net
             \<lparr>req_url = ''https://api.mobile.immobilienscout24.de/expose/'' @ id_text,
               req_method = ''GET'', req_headers = defaultHeaders, req_body = None\<rparr> w of
        (Rejected, w1) \<Rightarrow> (Inl NetworkError, w1)
      | (Resolved response, w1) \<Rightarrow>
          if \<not> resp_ok response
          then (Inr None,
                log_line (ConsoleError
                      [Val (JStr ''Error fetching listing from ImmoScout Mobile API:''),
                       Val (JStr (resp_statusText response))]) w1)
          else
            (case resp_json response of
               None \<Rightarrow> (Inl SyntaxError, w1)
             | Some responseBody \<Rightarrow>
                (case get_prop responseBody ''sections'' of
                   Inl e \<Rightarrow> (Inl e, w1)
                 | Inr sections \<Rightarrow>
                    (case opt_find_by ''type'' ''TOP_ATTRIBUTES'' sections of
                       Inl e \<Rightarrow> (Inl e, w1)
                     | Inr topAttributesSection \<Rightarrow>
                        (case (if truthy topAttributesSection
                               then (case opt_find_by ''label'' ''Zimmer''
                                            (opt_prop topAttributesSection ''attributes'') of
                                       Inl e \<Rightarrow> Inl e
                                     | Inr roomsAttribute \<Rightarrow>
                                         if truthy roomsAttribute
                                         then (case parseInt nts
                                                      (opt_prop roomsAttribute ''text'') of
                                                 Inl e \<Rightarrow> Inl e
                                               | Inr n \<Rightarrow> Inr (JNum n))
                                         else Inr JNull)
                               else Inr JNull) of
                           Inl e \<Rightarrow> (Inl e, w1)
                         | Inr roomCount' \<Rightarrow>
                            (case opt_find_by ''type'' ''MAP'' sections of
                               Inl e \<Rightarrow> (Inl e, w1)
                             | Inr mapHit \<Rightarrow>
                                (let mapSection = opt_prop mapHit ''location''
                                 in case (if truthy mapSection
                                          then getSuburb nts net (opt_prop mapSection ''lat'')
                                                 (opt_prop mapSection ''lng'') w1
                                          else (Inr JNull, w1)) of
                                      (Inl e, w2) \<Rightarrow> (Inl e, w2)
                                    | (Inr suburb', w2) \<Rightarrow>
                                       (let name = opt_prop (opt_prop (opt_prop
                                              (opt_prop responseBody ''contact'')
                                              ''contactData'') ''agent'') ''name'';
                                            salutation' =
                                              (if truthy name then parseSalutation name
                                               else None)
                                        in (Inr (Some \<lparr>info_id = listingId,
                                                   roomCount = roomCount',
                                                   suburb = suburb',
                                                   salutation = salutation'\<rparr>),
                                            w2))))))))))"

text \<open>
  The request of \<^verbatim>\<open>getListingInfo\<close> for a listing id printed as \<open>id_text\<close>, and its
  three extractions, each as a function of the part of the response it reads: the room
  count of the sections, the location of the map section, the suburb of that location
  (through the geocoder), the salutation of the contact.
\<close>

definition expose_request :: "string \<Rightarrow> request" where
  "expose_request id_text =
     \<lparr>req_url = ''https://api.mobile.immobilienscout24.de/expose/'' @ id_text,
      req_method = ''GET'', req_headers = defaultHeaders, req_body = None\<rparr>"

definition rooms_of :: "(rat \<Rightarrow> string) \<Rightarrow> jsval \<Rightarrow> error + jsval" where
  "rooms_of nts sections =
     (case opt_find_by ''type'' ''TOP_ATTRIBUTES'' sections of
        Inl e \<Rightarrow> Inl e
      | Inr topAttributesSection \<Rightarrow>
          if truthy topAttributesSection
          then (case opt_find_by ''label'' ''Zimmer''
                       (opt_prop topAttributesSection ''attributes'') of
                  Inl e \<Rightarrow> Inl e
                | Inr roomsAttribute \<Rightarrow>
                    if truthy roomsAttribute
                    then (case parseInt nts (opt_prop roomsAttribute ''text'') of
                            Inl e \<Rightarrow> Inl e
                          | Inr n \<Rightarrow> Inr (JNum n))
                    else Inr JNull)
          else Inr JNull)"

definition location_of :: "jsval \<Rightarrow> error + jsval" where
  "location_of sections =
     (case opt_find_by ''type'' ''MAP'' sections of
        Inl e \<Rightarrow> Inl e
      | Inr mapHit \<Rightarrow> Inr (opt_prop mapHit ''location''))"

definition suburb_of ::
  "(rat \<Rightarrow> string) \<Rightarrow> network \<Rightarrow> jsval \<Rightarrow> world \<Rightarrow> (error + jsval) \<times> world" where
  "suburb_of nts net mapSection w =
     (if truthy mapSection
      then getSuburb nts net (opt_prop mapSection ''lat'') (opt_prop mapSection ''lng'') w
      else (Inr JNull, w))"

definition salutation_of :: "jsval \<Rightarrow> salutation option" where
  "salutation_of contact =
     (let name = opt_prop (opt_prop (opt_prop contact ''contactData'') ''agent'') ''name''
      in if truthy name then parseSalutation name else None)"

text \<open>A result of \<^verbatim>\<open>getListingInfo\<close> with one of its fields blanked, to compare results.\<close>

definition drop_suburb :: "error + listing_info option \<Rightarrow> error + listing_info option" where
  "drop_suburb x =
     (case x of Inr (Some i) \<Rightarrow> Inr (Some (i\<lparr>suburb := JNull\<rparr>)) | _ \<Rightarrow> x)"

definition drop_salutation :: "error + listing_info option \<Rightarrow> error + listing_info option" where
  "drop_salutation x =
     (case x of Inr (Some i) \<Rightarrow> Inr (Some (i\<lparr>salutation := None\<rparr>)) | _ \<Rightarrow> x)"

text \<open>
  A text \<^verbatim>\<open>parseInt\<close> can read as an integer: after leading white space and an
  optional sign it starts with a digit.
\<close>

definition integer_prefix :: "string \<Rightarrow> bool" where
  "integer_prefix s =
     (case dropWhile is_space s of
        [] \<Rightarrow> False
      | c # cs \<Rightarrow>
          if c = CHR ''-'' \<or> c = CHR ''+'' then (case cs of [] \<Rightarrow> False | d # ds \<Rightarrow> is_digit d)
          else is_digit c)"

text \<open>
  The detail responses \<^verbatim>\<open>getListingInfo\<close> can read: the body is not \<^verbatim>\<open>null\<close>; its
  \<^verbatim>\<open>sections\<close> are missing or an array without \<^verbatim>\<open>null\<close> entries, and so are the
  \<^verbatim>\<open>attributes\<close> of every section; the \<^verbatim>\<open>text\<close> of every attribute can be converted to
  a string.
\<close>

definition clean_array :: "jsval \<Rightarrow> bool" where
  "clean_array v =
     (nullish v \<or> (case v of JArr xs \<Rightarrow> list_all (\<lambda>x. \<not> nullish x) xs | _ \<Rightarrow> False))"

definition section_ok :: "jsval \<Rightarrow> bool" where
  "section_ok s =
     (clean_array (opt_prop s ''attributes'') \<and>
      list_all (\<lambda>a. printable (opt_prop a ''text'')) (elements (opt_prop s ''attributes'')))"

definition well_formed_detail :: "jsval \<Rightarrow> bool" where
  "well_formed_detail b =
     (\<not> nullish b \<and> clean_array (opt_prop b ''sections'') \<and>
      list_all section_ok (elements (opt_prop b ''sections'')))"

text \<open>The request of \<^verbatim>\<open>throttledFetch\<close>.\<close>

definition geocode_request :: "string \<Rightarrow> request" where
  "geocode_request u =
     \<lparr>req_url = u, req_method = ''GET'',
      req_headers = [(''User-Agent'', ''Fredy-Real-Estate-Bot/1.0'')], req_body = None\<rparr>"

section \<open>Sample values\<close>

text \<open>Raw items and stores for the examples.\<close>

definition item0 :: object where
  "item0 = [(''id'', JNum (Fin 158382494)), (''price'', JStr ''1.200''), (''size'', JStr ''54''),
            (''link'', JStr ''https://www.immobilienscout24.de/expose/158382494''),
            (''address'', JStr [])]"

definition item1 :: object where
  "item1 = [(''id'', JStr ''158382494''), (''price'', JStr ''1200 EUR''), (''size'', JStr ''54 m2''),
            (''title'', JStr ''NEU Helle Wohnung''),
            (''link'', JStr ''https://www.immobilienscout24.de/expose/158382494''),
            (''address'', JStr ''Musterstr. 1 (Mitte), Berlin'')]"

definition item1_normalized :: object where
  "item1_normalized =
     [(''id'', buildHash (JStr ''158382494'') (JStr ''1200 EUR'')), (''price'', JStr ''1200 EUR''),
      (''size'', JStr ''54 m2''), (''title'', JStr '' Helle Wohnung''),
      (''link'', JStr ''https://www.immobilienscout24.de/expose/158382494''),
      (''address'', JStr ''Musterstr. 1'')]"

definition item2 :: object where
  "item2 = [(''id'', JStr ''158382494''), (''price'', JStr ''1300 EUR''),
            (''title'', JStr ''Helle Wohnung''), (''address'', JNull)]"

definition store1 :: heap where
  "store1 = [1 \<mapsto> item0, 0 \<mapsto> item1]"

definition store1_normalized :: heap where
  "store1_normalized = [1 \<mapsto> item0, 0 \<mapsto> item1_normalized]"

text \<open>Two adapters and a configuration that names a third channel.\<close>

definition sample_adapters ::
  "((string, nat, channel, string) payload, string) adapter list" where
  "sample_adapters =
     [\<lparr>config_id = ''slack'', adapter_send = (\<lambda>p. ''slack:'' @ jobKey p)\<rparr>,
      \<lparr>config_id = ''telegram'', adapter_send = (\<lambda>p. ''telegram:'' @ jobKey p)\<rparr>]"

definition sample_config :: "channel list" where
  "sample_config =
     [\<lparr>channel_id = ''slack''\<rparr>, \<lparr>channel_id = ''sendgrid''\<rparr>, \<lparr>channel_id = ''telegram''\<rparr>]"

text \<open>
  A printer of numbers for the examples: plain decimal notation, which is how the
  runtime prints integers and short decimals of moderate size.
\<close>

definition digit_char :: "nat \<Rightarrow> char" where
  "digit_char d = ''0123456789'' ! (d mod 10)"

function nat_digits :: "nat \<Rightarrow> string" where
  "nat_digits n =
     (if n < 10 then [digit_char n] else nat_digits (n div 10) @ [digit_char (n mod 10)])"
  by pat_completeness auto
termination
  by (relation "measure id") auto

fun frac_digits :: "nat \<Rightarrow> rat \<Rightarrow> string" where
  "frac_digits 0 r = []"
| "frac_digits (Suc f) r =
     (if r = 0 then []
      else digit_char (nat \<lfloor>r * 10\<rfloor>) # frac_digits f (r * 10 - of_int \<lfloor>r * 10\<rfloor>))"

definition number_to_string :: "rat \<Rightarrow> string" where
  "number_to_string r =
     (let a = \<bar>r\<bar>; i = nat \<lfloor>a\<rfloor>
      in (if r < 0 then ''-'' else []) @ nat_digits i @
         (if a = of_nat i then [] else ''.'' @ frac_digits 17 (a - of_nat i)))"

definition empty_world :: world where
  "empty_world = \<lparr>requests = [], console = []\<rparr>"

definition respond :: "bool \<Rightarrow> nat \<Rightarrow> string \<Rightarrow> jsval option \<Rightarrow> network" where
  "respond k st txt b =
     (\<lambda>req. Resolved \<lparr>resp_ok = k, resp_status = st, resp_statusText = txt, resp_json = b\<rparr>)"

text \<open>A search URL and a response body with one listing and one advertisement.\<close>

definition sample_url :: string where
  "sample_url = ''https://api.mobile.immobilienscout24.de/search/list?searchType=region''"

definition sample_body :: jsval where
  "sample_body =
     JObj [(''resultListItems'',
            JArr [JObj [(''type'', JStr ''EXPOSE_RESULT''),
                        (''item'', JObj [(''id'', JStr ''158382494''),
                                         (''title'', JStr ''Helle Wohnung''),
                                         (''attributes'', JArr [JObj [(''value'', JStr ''1200 EUR'')]])])],
                  JObj [(''type'', JStr ''ADVERTISEMENT'')]])]"

text \<open>
  A response body whose listing has an id that cannot be converted to a string: an
  object with a property \<^verbatim>\<open>toString\<close> of its own.
\<close>

definition unprintable_body :: jsval where
  "unprintable_body =
     JObj [(''resultListItems'',
            JArr [JObj [(''type'', JStr ''EXPOSE_RESULT''),
                        (''item'', JObj [(''id'', JObj [(''toString'', JNum (Fin 1))]),
                                         (''attributes'', JArr [])])]])]"

text \<open>
  Detail responses: one whose room count reads \<^verbatim>\<open>abc\<close>, and one whose sections hold
  \<^verbatim>\<open>null\<close>.
\<close>

definition sample_contact :: jsval where
  "sample_contact =
     JObj [(''contactData'', JObj [(''agent'', JObj [(''name'', JStr ''Herr Mustermann'')])])]"

definition sample_rooms :: "string \<Rightarrow> jsval" where
  "sample_rooms txt =
     JObj [(''type'', JStr ''TOP_ATTRIBUTES''),
           (''attributes'', JArr [JObj [(''label'', JStr ''Zimmer''), (''text'', JStr txt)]])]"

definition sample_detail :: "string \<Rightarrow> jsval" where
  "sample_detail txt = JObj [(''sections'', JArr [sample_rooms txt]), (''contact'', sample_contact)]"

definition broken_detail :: jsval where
  "broken_detail = JObj [(''sections'', JArr [JNull]), (''contact'', sample_contact)]"

section \<open>Properties of the conversions\<close>

lemma all_results_returns:
  "(\<exists>ys. all_results rs = Inr ys) = (\<forall>r \<in> set rs. \<exists>y. r = Inr y)"
proof (induction rs)
  case Nil
  show ?case by simp
next
  case (Cons r rs)
  show ?case
  proof (cases r)
    case (Inl e)
    then show ?thesis by auto
  next
    case (Inr y)
    show ?thesis
    proof (cases "all_results rs")
      case (Inl e)
      with Cons Inr show ?thesis by auto
    next
      case (Inr ys)
      with Cons \<open>r = Inr y\<close> show ?thesis by auto
    qed
  qed
qed

lemma ToString_printable: "(\<exists>s. ToString nts v = Inr s) = printable v"
proof (induction v)
  case (JArr xs)
  have "(\<exists>s. ToString nts (JArr xs) = Inr s) =
        (\<exists>ys. all_results (map (\<lambda>x. if nullish x then Inr [] else ToString nts x) xs) = Inr ys)"
    by (cases "all_results (map (\<lambda>x. if nullish x then Inr [] else ToString nts x) xs)")
      simp_all
  also have "\<dots> = (\<forall>x \<in> set xs. \<exists>y. (if nullish x then Inr [] else ToString nts x) = Inr y)"
    unfolding all_results_returns set_map by blast
  also have "\<dots> = (\<forall>x \<in> set xs. printable x)"
  proof (rule ball_cong[OF refl])
    fix x assume x: "x \<in> set xs"
    show "(\<exists>y. (if nullish x then Inr [] else ToString nts x) = Inr y) = printable x"
    proof (cases "nullish x")
      case True
      then show ?thesis by (cases x) simp_all
    next
      case False
      with JArr[OF x] show ?thesis by simp
    qed
  qed
  finally show ?case by (simp add: list_all_iff)
qed simp_all

lemma ToString_number:
  "typeof v = ''number'' \<Longrightarrow> \<exists>n. v = JNum n \<and> ToString nts v = Inr (number_text nts n)"
  by (cases v) simp_all

lemma printable_text: "printable v \<Longrightarrow> \<exists>s. ToString nts v = Inr s"
  by (simp add: ToString_printable)

lemma all_results_throws: "all_results rs = Inl e \<Longrightarrow> Inl e \<in> set rs"
  by (induction rs) (auto split: sum.splits)

lemma ToString_throws: "ToString nts v = Inl e \<Longrightarrow> e = TypeError"
proof (induction v arbitrary: e)
  case (JArr xs)
  from JArr.prems
  have "all_results (map (\<lambda>x. if nullish x then Inr [] else ToString nts x) xs) = Inl e"
    by (simp split: sum.splits)
  from all_results_throws[OF this] obtain x where
    x: "x \<in> set xs" "(if nullish x then Inr [] else ToString nts x) = Inl e"
    by auto
  from x(2) have "ToString nts x = Inl e" by (simp split: if_splits)
  from JArr.IH[OF x(1) this] show ?case .
next
  case (JObj ps)
  then show ?case by (simp split: if_splits)
qed simp_all

lemma not_printable_throws:
  assumes "\<not> printable v"
  shows "ToString nts v = Inl TypeError"
proof (cases "ToString nts v")
  case (Inl e)
  with ToString_throws[OF Inl] show ?thesis by simp
next
  case (Inr s)
  then have "\<exists>s. ToString nts v = Inr s" by blast
  with assms show ?thesis by (simp add: ToString_printable)
qed

section \<open>Properties of the salutation parser\<close>

lemma star_rests_sound: "s' \<in> set (star_rests p s) \<Longrightarrow> \<exists>u. s = u @ s' \<and> list_all p u"
proof (induction s)
  case Nil
  then show ?case by simp
next
  case (Cons x xs)
  show ?case
  proof (cases "s' = x # xs")
    case True
    then show ?thesis by simp
  next
    case False
    with Cons.prems have px: "p x" and "s' \<in> set (star_rests p xs)"
      by (auto split: if_splits)
    with Cons.IH obtain u where "xs = u @ s'" "list_all p u" by blast
    with px have "x # xs = (x # u) @ s' \<and> list_all p (x # u)" by simp
    then show ?thesis by blast
  qed
qed

lemma rx_run_sound:
  "(c', s') \<in> set (rx_run ci r (c, s)) \<Longrightarrow> \<exists>u. s = u @ s' \<and> u \<in> lang ci r"
proof (induction r arbitrary: c s c' s')
  case (Lit l)
  then have "s' = drop (length l) s" "lit_eq ci l (take (length l) s)"
    by (auto split: if_splits)
  then have "s = take (length l) s @ s' \<and> take (length l) s \<in> lang ci (Lit l)" by simp
  then show ?case by blast
next
  case (Cls p)
  then show ?case by (auto split: list.splits if_splits)
next
  case (Star p)
  then show ?case using star_rests_sound[of s' p s] by auto
next
  case (Plus p)
  then obtain x xs where s: "s = x # xs" "p x" "s' \<in> set (star_rests p xs)"
    by (auto split: list.splits if_splits)
  then obtain u where "xs = u @ s'" "list_all p u" using star_rests_sound by blast
  with s have "s = (x # u) @ s' \<and> (x # u) \<in> lang ci (Plus p)" by simp
  then show ?case by blast
next
  case (Seq a b)
  then obtain c1 s1 where m: "(c1, s1) \<in> set (rx_run ci a (c, s))"
      "(c', s') \<in> set (rx_run ci b (c1, s1))"
    by auto
  from Seq.IH(1)[OF m(1)] obtain u where u: "s = u @ s1" "u \<in> lang ci a" by blast
  from Seq.IH(2)[OF m(2)] obtain v where v: "s1 = v @ s'" "v \<in> lang ci b" by blast
  from u v have "s = (u @ v) @ s' \<and> u @ v \<in> lang ci (Seq a b)" by auto
  then show ?case by blast
next
  case (Alt a b)
  then show ?case by auto blast+
next
  case (Opt a)
  then show ?case by auto blast
next
  case (Grp n a)
  then obtain c1 where "(c1, s') \<in> set (rx_run ci a (c, s))" by auto
  with Grp.IH show ?case by auto
next
  case Eos
  then show ?case by (auto split: if_splits)
qed

lemma rx_run_eos: "ends_eos r \<Longrightarrow> (c', s') \<in> set (rx_run ci r st) \<Longrightarrow> s' = []"
proof (induction r arbitrary: st c' s')
  case (Seq a b)
  then show ?case by auto
next
  case Eos
  then show ?case by (cases st) (auto split: if_splits)
qed simp_all


lemma is_space_cases:
  "is_space c \<Longrightarrow> c = CHR 0x09 \<or> c = CHR 0x0A \<or> c = CHR 0x0B \<or> c = CHR 0x0C \<or>
     c = CHR 0x0D \<or> c = CHR '' '' \<or> c = CHR 0xA0"
  by (simp add: is_space_def)

lemma space_canon:
  assumes "is_space c" shows "canonicalize c = c"
  using is_space_cases[OF assms] by (elim disjE; simp add: canonicalize_def)

lemma lit_eq_length: "lit_eq ci l u \<Longrightarrow> length u = length l"
  by (auto simp: lit_eq_def split: if_splits dest: map_eq_imp_length_eq)

lemma lit_eq_no_space:
  assumes "lit_eq True l u" and "\<forall>c\<in>set l. \<not> is_space (canonicalize c)"
  shows "\<forall>c\<in>set u. \<not> is_space c"
proof
  fix c assume "c \<in> set u"
  then obtain i where i: "i < length u" "u ! i = c" by (auto simp: in_set_conv_nth)
  from assms(1) have eq: "map canonicalize l = map canonicalize u" by (simp add: lit_eq_def)
  then have len: "length l = length u" by (rule map_eq_imp_length_eq)
  from eq have "map canonicalize l ! i = map canonicalize u ! i" by simp
  with i len have "canonicalize (l ! i) = canonicalize c" by simp
  moreover from i len assms(2) have "\<not> is_space (canonicalize (l ! i))" by simp
  ultimately have "\<not> is_space (canonicalize c)" by simp
  then show "\<not> is_space c" using space_canon[of c] by auto
qed

lemma word_not_space: "is_word c \<Longrightarrow> \<not> is_space c"
  by (auto simp: is_word_def is_space_def)

lemma split_space_ne: "split_space s \<noteq> []"
  by (induction s) (auto split: list.splits)

lemma split_space_plain: "\<forall>c\<in>set a. \<not> is_space c \<Longrightarrow> split_space a = [a]"
  by (induction a) auto

lemma split_space_app:
  "\<forall>c\<in>set a. \<not> is_space c \<Longrightarrow> is_space w \<Longrightarrow> split_space (a @ w # b) = a # split_space b"
  by (induction a) auto

lemma lang_SeqE:
  assumes "u \<in> lang ci (Seq a b)"
  obtains x y where "u = x @ y" "x \<in> lang ci a" "y \<in> lang ci b"
  using assms by auto

lemma lang_name_tail:
  assumes "u \<in> lang ci name_tail"
  shows "one_token [] u \<or> two_tokens [] u"
proof -
  from assms obtain a b where ab: "u = a @ b" "a \<in> lang ci (Cls is_space)"
      "b \<in> lang ci (Seq (Grp 2 (Plus is_word))
             (Seq (Opt (Seq (Cls is_space) (Grp 3 (Plus is_word)))) Eos))"
    unfolding name_tail_def by (rule lang_SeqE)
  from ab(2) obtain w where w: "a = [w]" "is_space w" by auto
  from ab(3) obtain n1 v where nv: "b = n1 @ v" "n1 \<in> lang ci (Grp 2 (Plus is_word))"
      "v \<in> lang ci (Seq (Opt (Seq (Cls is_space) (Grp 3 (Plus is_word)))) Eos)"
    by (rule lang_SeqE)
  from nv(2) have n1: "name_token n1" by (simp add: name_token_def)
  from nv(3) have "v \<in> lang ci (Opt (Seq (Cls is_space) (Grp 3 (Plus is_word))))"
    by (rule lang_SeqE) simp
  then have "v = [] \<or> v \<in> lang ci (Seq (Cls is_space) (Grp 3 (Plus is_word)))"
    by simp
  then have v: "v = [] \<or> (\<exists>w2 n2. is_space w2 \<and> name_token n2 \<and> v = w2 # n2)"
    by (auto simp: name_token_def)
  from ab(1) w nv(1) n1 have u: "u = w # n1 @ v" "is_space w" "name_token n1" by simp_all
  from v show ?thesis
  proof
    assume "v = []"
    with u have "one_token [] u" unfolding one_token_def by auto
    then show ?thesis ..
  next
    assume "\<exists>w2 n2. is_space w2 \<and> name_token n2 \<and> v = w2 # n2"
    then obtain w2 n2 where "is_space w2" "name_token n2" "v = w2 # n2" by blast
    with u have "two_tokens [] u" unfolding two_tokens_def by auto
    then show ?thesis ..
  qed
qed

lemma pattern_sound:
  assumes "x \<in> set (rx_run True (Seq (Grp 1 H) name_tail) (c, t))"
  shows "\<exists>h. h \<in> lang True H \<and> (one_token h t \<or> two_tokens h t)"
proof -
  obtain c' s' where x: "x = (c', s')" by (cases x)
  have "ends_eos (Seq (Grp 1 H) name_tail)" by (simp add: name_tail_def)
  with assms x have "s' = []" using rx_run_eos by blast
  with assms x rx_run_sound[of c' s' True "Seq (Grp 1 H) name_tail" c t]
  have "t \<in> lang True (Seq (Grp 1 H) name_tail)" by simp
  then obtain h u where hu: "t = h @ u" "h \<in> lang True H" "u \<in> lang True name_tail"
    by auto
  from lang_name_tail[OF hu(3)] hu(1) have "one_token h t \<or> two_tokens h t"
    unfolding one_token_def two_tokens_def by simp
  with hu(2) show ?thesis by blast
qed

lemma name_token_no_space: "name_token n \<Longrightarrow> \<forall>c\<in>set n. \<not> is_space c"
  by (auto simp: name_token_def list_all_iff word_not_space)

lemma honorific_no_space:
  assumes "is_honorific (male_honorifics @ female_honorifics) h"
  shows "\<forall>c\<in>set h. \<not> is_space c"
proof -
  from assms obtain l where l: "l \<in> set (male_honorifics @ female_honorifics)" "lit_eq True l h"
    by (auto simp: is_honorific_def list_ex_iff)
  from l(1) have "l = ''Mr.'' \<or> l = ''Herr'' \<or> l = ''Ms.'' \<or> l = ''Mrs.'' \<or> l = ''Frau''"
    by (auto simp: male_honorifics_def female_honorifics_def)
  then have "\<forall>c\<in>set l. \<not> is_space (canonicalize c)"
    by (elim disjE; simp add: canonicalize_def is_space_def)
  with l(2) show ?thesis by (rule lit_eq_no_space)
qed

lemma form_one:
  assumes "is_honorific (male_honorifics @ female_honorifics) h" "is_space w" "name_token n1"
  shows "salutation_form (h @ w # n1)"
proof -
  have "split_space (h @ w # n1) = [h, n1]"
    using honorific_no_space[OF assms(1)] name_token_no_space[OF assms(3)] assms(2)
    by (simp add: split_space_app split_space_plain)
  with assms show ?thesis by (simp add: salutation_form_def)
qed

lemma form_two:
  assumes "is_honorific (male_honorifics @ female_honorifics) h" "is_space w" "name_token n1"
    "is_space w2" "name_token n2"
  shows "salutation_form (h @ w # n1 @ w2 # n2)"
proof -
  have "split_space (h @ w # n1 @ w2 # n2) = [h, n1, n2]"
    using honorific_no_space[OF assms(1)] name_token_no_space[OF assms(3)]
      name_token_no_space[OF assms(5)] assms(2,4)
    by (simp add: split_space_app split_space_plain)
  with assms show ?thesis by (simp add: salutation_form_def)
qed

lemma male_match_form:
  assumes "match_anchored True malePattern t = Some m"
  shows "salutation_form t"
proof -
  from assms obtain x where "x \<in> set (rx_run True malePattern (Map.empty, t))"
    by (auto simp: match_anchored_def split: list.splits)
  then have "x \<in> set (rx_run True (Seq (Grp 1 (Alt (Lit ''Mr.'') (Lit ''Herr''))) name_tail) (Map.empty, t))"
    by (simp add: malePattern_def name_tail_def)
  from pattern_sound[OF this] obtain h where
    h: "h \<in> lang True (Alt (Lit ''Mr.'') (Lit ''Herr''))" and
    t: "one_token h t \<or> two_tokens h t"
    by blast
  from h have "is_honorific (male_honorifics @ female_honorifics) h"
    by (auto simp: is_honorific_def male_honorifics_def)
  with t show ?thesis using form_one form_two
    unfolding one_token_def two_tokens_def by blast
qed

lemma female_match_form:
  assumes "match_anchored True femalePattern t = Some m"
  shows "salutation_form t"
proof -
  from assms obtain x where "x \<in> set (rx_run True femalePattern (Map.empty, t))"
    by (auto simp: match_anchored_def split: list.splits)
  then have "x \<in> set (rx_run True
      (Seq (Grp 1 (Alt (Lit ''Ms.'') (Alt (Lit ''Mrs.'') (Lit ''Frau'')))) name_tail) (Map.empty, t))"
    by (simp add: femalePattern_def name_tail_def)
  from pattern_sound[OF this] obtain h where
    h: "h \<in> lang True (Alt (Lit ''Ms.'') (Alt (Lit ''Mrs.'') (Lit ''Frau'')))" and
    t: "one_token h t \<or> two_tokens h t"
    by blast
  from h have "is_honorific (male_honorifics @ female_honorifics) h"
    by (auto simp: is_honorific_def male_honorifics_def female_honorifics_def)
  with t show ?thesis using form_one form_two
    unfolding one_token_def two_tokens_def by blast
qed

lemma parseSalutation_Some_form:
  assumes "parseSalutation (JStr s) = Some x"
  shows "salutation_form (trim s)"
proof (cases "match_anchored True malePattern (trim s)")
  case (Some m)
  then show ?thesis by (rule male_match_form)
next
  case None
  with assms obtain m where "match_anchored True femalePattern (trim s) = Some m"
    by (auto simp: parseSalutation_def Let_def split: if_splits option.splits)
  then show ?thesis by (rule female_match_form)
qed


lemma star_rests_hd: "\<exists>ys. star_rests p s = dropWhile p s # ys"
  by (induction s) auto

lemma plus_run_hd:
  assumes "p x"
  shows "\<exists>zs. rx_run ci (Grp k (Plus p)) (c, x # xs) =
           (c(k \<mapsto> x # takeWhile p xs), dropWhile p xs) # zs"
proof -
  obtain ys where ys: "star_rests p xs = dropWhile p xs # ys"
    using star_rests_hd by blast
  have "length xs - length (dropWhile p xs) = length (takeWhile p xs)"
    by (metis add_diff_cancel_right' length_append takeWhile_dropWhile_id)
  then have "take (Suc (length xs) - length (dropWhile p xs)) (x # xs) = x # takeWhile p xs"
    by (simp add: Suc_diff_le length_dropWhile_le takeWhile_eq_take[symmetric])
  with assms ys show ?thesis by simp
qed

lemma tail_run_one:
  assumes "is_space w" "name_token n"
  shows "\<exists>zs. rx_run ci name_tail (c, w # n) = (c(2 \<mapsto> n), []) # zs"
proof -
  from assms(2) obtain x xs where n: "n = x # xs" "is_word x" "list_all is_word xs"
    by (cases n) (auto simp: name_token_def)
  from n(3) have tw: "takeWhile is_word xs = xs" "dropWhile is_word xs = []"
    by (simp_all add: list_all_iff)
  from plus_run_hd[where p=is_word and x=x and ci=ci and k=2 and c=c and xs=xs, OF n(2)] tw n(1) obtain zs where
    "rx_run ci (Grp 2 (Plus is_word)) (c, n) = (c(2 \<mapsto> n), []) # zs" by auto
  with assms(1) show ?thesis by (simp add: name_tail_def)
qed

lemma tail_run_two:
  assumes "is_space w" "name_token n1" "is_space w2" "name_token n2"
  shows "\<exists>zs. rx_run ci name_tail (c, w # n1 @ w2 # n2) = (c(2 \<mapsto> n1, 3 \<mapsto> n2), []) # zs"
proof -
  from assms(3) have nw: "\<not> is_word w2" using word_not_space by blast
  from assms(2) obtain x xs where n1: "n1 = x # xs" "is_word x" "list_all is_word xs"
    by (cases n1) (auto simp: name_token_def)
  from n1(3) nw have tw1: "takeWhile is_word (xs @ w2 # n2) = xs"
      "dropWhile is_word (xs @ w2 # n2) = w2 # n2"
    by (simp_all add: list_all_iff takeWhile_append2 dropWhile_append2)
  from plus_run_hd[where p=is_word and x=x and ci=ci and k=2 and c=c and xs="xs @ w2 # n2", OF n1(2)] tw1 n1(1) obtain zs where
    r1: "rx_run ci (Grp 2 (Plus is_word)) (c, n1 @ w2 # n2) = (c(2 \<mapsto> n1), w2 # n2) # zs"
    by auto
  from assms(4) obtain y ys where n2: "n2 = y # ys" "is_word y" "list_all is_word ys"
    by (cases n2) (auto simp: name_token_def)
  from n2(3) have tw2: "takeWhile is_word ys = ys" "dropWhile is_word ys = []"
    by (simp_all add: list_all_iff)
  from plus_run_hd[where p=is_word and x=y and ci=ci and k=3 and c="c(2 \<mapsto> n1)" and xs=ys, OF n2(2)] tw2 n2(1) obtain zs2 where
    r2: "rx_run ci (Grp 3 (Plus is_word)) (c(2 \<mapsto> n1), n2) = (c(2 \<mapsto> n1, 3 \<mapsto> n2), []) # zs2"
    by auto
  from assms(1,3) r1 r2 show ?thesis by (simp add: name_tail_def)
qed

lemma canon_lits:
  "map canonicalize ''Mr.'' = ''MR.''" "map canonicalize ''Herr'' = ''HERR''"
  "map canonicalize ''Ms.'' = ''MS.''" "map canonicalize ''Mrs.'' = ''MRS.''"
  "map canonicalize ''Frau'' = ''FRAU''"
  by (simp_all add: canonicalize_def)

lemma lit_Mr: "lit_eq True ''Mr.'' u = (map canonicalize u = ''MR.'')"
  unfolding lit_eq_def canon_lits by auto
lemma lit_Herr: "lit_eq True ''Herr'' u = (map canonicalize u = ''HERR'')"
  unfolding lit_eq_def canon_lits by auto
lemma lit_Ms: "lit_eq True ''Ms.'' u = (map canonicalize u = ''MS.'')"
  unfolding lit_eq_def canon_lits by auto
lemma lit_Mrs: "lit_eq True ''Mrs.'' u = (map canonicalize u = ''MRS.'')"
  unfolding lit_eq_def canon_lits by auto
lemma lit_Frau: "lit_eq True ''Frau'' u = (map canonicalize u = ''FRAU'')"
  unfolding lit_eq_def canon_lits by auto

lemmas lit_simps = lit_Mr lit_Herr lit_Ms lit_Mrs lit_Frau

lemma shape3:
  assumes "map f u = [a, b, d]"
  obtains x y z where "u = [x, y, z]" "f x = a" "f y = b" "f z = d"
  using assms by (auto simp: map_eq_Cons_conv)

lemma shape4:
  assumes "map f u = [a, b, d, e]"
  obtains x y z v where "u = [x, y, z, v]" "f x = a" "f y = b" "f z = d" "f v = e"
  using assms by (auto simp: map_eq_Cons_conv)

lemma male_head:
  assumes "is_honorific male_honorifics h"
  shows "rx_run True (Grp 1 (Alt (Lit ''Mr.'') (Lit ''Herr''))) (c, h @ w # r) =
           [(c(1 \<mapsto> h), w # r)]"
proof -
  from assms have "map canonicalize h = ''MR.'' \<or> map canonicalize h = ''HERR''"
    by (simp add: is_honorific_def male_honorifics_def lit_simps)
  then show ?thesis
  proof
    assume "map canonicalize h = ''MR.''"
    then obtain x y z where "h = [x, y, z]" "canonicalize x = CHR ''M''"
        "canonicalize y = CHR ''R''" "canonicalize z = CHR ''.''"
      by (rule shape3)
    then show ?thesis by (simp add: lit_simps)
  next
    assume "map canonicalize h = ''HERR''"
    then obtain x y z v where "h = [x, y, z, v]" "canonicalize x = CHR ''H''"
        "canonicalize y = CHR ''E''" "canonicalize z = CHR ''R''" "canonicalize v = CHR ''R''"
      by (rule shape4)
    then show ?thesis by (simp add: lit_simps)
  qed
qed

lemma female_head_and_not_male:
  assumes "is_honorific female_honorifics h"
  shows "rx_run True (Grp 1 (Alt (Lit ''Ms.'') (Alt (Lit ''Mrs.'') (Lit ''Frau''))))
           (c, h @ w # r) = [(c(1 \<mapsto> h), w # r)] \<and>
         rx_run True (Grp 1 (Alt (Lit ''Mr.'') (Lit ''Herr''))) (c', h @ w # r) = []"
proof -
  from assms have "map canonicalize h = ''MS.'' \<or> map canonicalize h = ''MRS.'' \<or>
      map canonicalize h = ''FRAU''"
    by (simp add: is_honorific_def female_honorifics_def lit_simps)
  then show ?thesis
  proof (elim disjE)
    assume "map canonicalize h = ''MS.''"
    then obtain x y z where "h = [x, y, z]" "canonicalize x = CHR ''M''"
        "canonicalize y = CHR ''S''" "canonicalize z = CHR ''.''"
      by (rule shape3)
    then show ?thesis by (simp add: lit_simps)
  next
    assume "map canonicalize h = ''MRS.''"
    then obtain x y z v where "h = [x, y, z, v]" "canonicalize x = CHR ''M''"
        "canonicalize y = CHR ''R''" "canonicalize z = CHR ''S''" "canonicalize v = CHR ''.''"
      by (rule shape4)
    then show ?thesis by (simp add: lit_simps)
  next
    assume "map canonicalize h = ''FRAU''"
    then obtain x y z v where "h = [x, y, z, v]" "canonicalize x = CHR ''F''"
        "canonicalize y = CHR ''R''" "canonicalize z = CHR ''A''" "canonicalize v = CHR ''U''"
      by (rule shape4)
    then show ?thesis by (simp add: lit_simps)
  qed
qed

lemma trim_plain:
  assumes "s \<noteq> []" "\<not> is_space (hd s)" "\<not> is_space (last s)"
  shows "trim s = s"
proof -
  from assms(1,2) have "dropWhile is_space s = s" by (cases s) auto
  moreover from assms(1,3) have "dropWhile is_space (rev s) = rev s"
    by (cases "rev s") (auto simp: last_rev[symmetric] simp del: last_rev)
  ultimately show ?thesis by (simp add: trim_def)
qed

lemma honorific_ne:
  assumes "is_honorific (male_honorifics @ female_honorifics) h"
  shows "h \<noteq> []"
  using assms
  by (auto simp: is_honorific_def male_honorifics_def female_honorifics_def lit_simps)

lemma honorific_male: "is_honorific male_honorifics h \<Longrightarrow>
    is_honorific (male_honorifics @ female_honorifics) h"
  by (auto simp: is_honorific_def)

lemma honorific_female: "is_honorific female_honorifics h \<Longrightarrow>
    is_honorific (male_honorifics @ female_honorifics) h"
  by (auto simp: is_honorific_def)

lemma trim_salutation:
  assumes "is_honorific (male_honorifics @ female_honorifics) h" "name_token n"
  shows "trim (h @ u @ n) = h @ u @ n"
proof -
  from assms(1) have h: "h \<noteq> []" "\<not> is_space (hd h)"
    using honorific_ne honorific_no_space by (simp_all add: hd_in_set)
  from assms(2) have n: "n \<noteq> []" "\<not> is_space (last n)"
    using name_token_no_space[OF assms(2)] by (simp_all add: name_token_def)
  from h n show ?thesis by (intro trim_plain) simp_all
qed

lemma match_male_one:
  assumes "is_honorific male_honorifics h" "is_space w" "name_token n"
  shows "match_anchored True malePattern (h @ w # n) =
           Some [1 \<mapsto> h, 2 \<mapsto> n, 0 \<mapsto> h @ w # n]"
proof -
  obtain zs where "rx_run True name_tail ([1 \<mapsto> h], w # n) = ([1 \<mapsto> h, 2 \<mapsto> n], []) # zs"
    using tail_run_one[OF assms(2,3)] by blast
  then have "rx_run True malePattern (Map.empty, h @ w # n) = ([1 \<mapsto> h, 2 \<mapsto> n], []) # zs"
    using male_head[OF assms(1), of Map.empty w n]
    by (simp add: malePattern_def name_tail_def)
  then show ?thesis by (simp add: match_anchored_def)
qed

lemma match_male_two:
  assumes "is_honorific male_honorifics h" "is_space w" "name_token n1" "is_space w2"
    "name_token n2"
  shows "match_anchored True malePattern (h @ w # n1 @ w2 # n2) =
           Some [1 \<mapsto> h, 2 \<mapsto> n1, 3 \<mapsto> n2, 0 \<mapsto> h @ w # n1 @ w2 # n2]"
proof -
  obtain zs where "rx_run True name_tail ([1 \<mapsto> h], w # n1 @ w2 # n2) =
      ([1 \<mapsto> h, 2 \<mapsto> n1, 3 \<mapsto> n2], []) # zs"
    using tail_run_two[OF assms(2-5)] by blast
  then have "rx_run True malePattern (Map.empty, h @ w # n1 @ w2 # n2) =
      ([1 \<mapsto> h, 2 \<mapsto> n1, 3 \<mapsto> n2], []) # zs"
    using male_head[OF assms(1), of Map.empty w "n1 @ w2 # n2"]
    by (simp add: malePattern_def name_tail_def)
  then show ?thesis by (simp add: match_anchored_def)
qed

lemma match_female_not_male:
  assumes "is_honorific female_honorifics h"
  shows "match_anchored True malePattern (h @ w # r) = None"
  using female_head_and_not_male[OF assms, of Map.empty w r Map.empty]
  by (simp add: match_anchored_def malePattern_def)

lemma match_female_one:
  assumes "is_honorific female_honorifics h" "is_space w" "name_token n"
  shows "match_anchored True femalePattern (h @ w # n) =
           Some [1 \<mapsto> h, 2 \<mapsto> n, 0 \<mapsto> h @ w # n]"
proof -
  obtain zs where "rx_run True name_tail ([1 \<mapsto> h], w # n) = ([1 \<mapsto> h, 2 \<mapsto> n], []) # zs"
    using tail_run_one[OF assms(2,3)] by blast
  then have "rx_run True femalePattern (Map.empty, h @ w # n) = ([1 \<mapsto> h, 2 \<mapsto> n], []) # zs"
    using female_head_and_not_male[OF assms(1), of Map.empty w n Map.empty]
    by (simp add: femalePattern_def name_tail_def)
  then show ?thesis by (simp add: match_anchored_def)
qed

lemma match_female_two:
  assumes "is_honorific female_honorifics h" "is_space w" "name_token n1" "is_space w2"
    "name_token n2"
  shows "match_anchored True femalePattern (h @ w # n1 @ w2 # n2) =
           Some [1 \<mapsto> h, 2 \<mapsto> n1, 3 \<mapsto> n2, 0 \<mapsto> h @ w # n1 @ w2 # n2]"
proof -
  obtain zs where "rx_run True name_tail ([1 \<mapsto> h], w # n1 @ w2 # n2) =
      ([1 \<mapsto> h, 2 \<mapsto> n1, 3 \<mapsto> n2], []) # zs"
    using tail_run_two[OF assms(2-5)] by blast
  then have "rx_run True femalePattern (Map.empty, h @ w # n1 @ w2 # n2) =
      ([1 \<mapsto> h, 2 \<mapsto> n1, 3 \<mapsto> n2], []) # zs"
    using female_head_and_not_male[OF assms(1), of Map.empty w "n1 @ w2 # n2" Map.empty]
    by (simp add: femalePattern_def name_tail_def)
  then show ?thesis by (simp add: match_anchored_def)
qed

lemma parse_one_male:
  assumes "is_honorific male_honorifics h" "is_space w" "name_token n"
  shows "parseSalutation (JStr (h @ w # n)) = Some \<lparr>gender = ''male'', lastName = JStr n\<rparr>"
proof -
  have t: "trim (h @ w # n) = h @ w # n"
    using trim_salutation[OF honorific_male[OF assms(1)] assms(3), of "[w]"] by simp
  have ne: "h \<noteq> []" "n \<noteq> []"
    using honorific_ne[OF honorific_male[OF assms(1)]] assms(3) by (simp_all add: name_token_def)
  show ?thesis
    using ne by (simp add: parseSalutation_def t match_male_one[OF assms] match_group_def)
qed

lemma parse_one_female:
  assumes "is_honorific female_honorifics h" "is_space w" "name_token n"
  shows "parseSalutation (JStr (h @ w # n)) = Some \<lparr>gender = ''female'', lastName = JStr n\<rparr>"
proof -
  have t: "trim (h @ w # n) = h @ w # n"
    using trim_salutation[OF honorific_female[OF assms(1)] assms(3), of "[w]"] by simp
  have ne: "h \<noteq> []" "n \<noteq> []"
    using honorific_ne[OF honorific_female[OF assms(1)]] assms(3)
    by (simp_all add: name_token_def)
  show ?thesis
    using ne
    by (simp add: parseSalutation_def t match_female_not_male[OF assms(1)]
        match_female_one[OF assms] match_group_def)
qed

lemma parse_two_male:
  assumes "is_honorific male_honorifics h" "is_space w" "name_token n1" "is_space w2"
    "name_token n2"
  shows "parseSalutation (JStr (h @ w # n1 @ w2 # n2)) =
           Some \<lparr>gender = ''male'', lastName = JStr n1\<rparr>"
    and "parseSalutation_script (JStr (h @ w # n1 @ w2 # n2)) =
           Some \<lparr>gender = ''male'', lastName = JStr n2\<rparr>"
proof -
  have t: "trim (h @ w # n1 @ w2 # n2) = h @ w # n1 @ w2 # n2"
    using trim_salutation[OF honorific_male[OF assms(1)] assms(5), of "w # n1 @ [w2]"] by simp
  have ne: "h \<noteq> []" "n1 \<noteq> []" "n2 \<noteq> []"
    using honorific_ne[OF honorific_male[OF assms(1)]] assms(3,5)
    by (simp_all add: name_token_def)
  show "parseSalutation (JStr (h @ w # n1 @ w2 # n2)) =
           Some \<lparr>gender = ''male'', lastName = JStr n1\<rparr>"
    using ne by (simp add: parseSalutation_def t match_male_two[OF assms] match_group_def)
  show "parseSalutation_script (JStr (h @ w # n1 @ w2 # n2)) =
           Some \<lparr>gender = ''male'', lastName = JStr n2\<rparr>"
    using ne by (simp add: parseSalutation_script_def t match_male_two[OF assms] match_group_def)
qed

lemma parse_two_female:
  assumes "is_honorific female_honorifics h" "is_space w" "name_token n1" "is_space w2"
    "name_token n2"
  shows "parseSalutation (JStr (h @ w # n1 @ w2 # n2)) =
           Some \<lparr>gender = ''female'', lastName = JStr n1\<rparr>"
    and "parseSalutation_script (JStr (h @ w # n1 @ w2 # n2)) =
           Some \<lparr>gender = ''female'', lastName = JStr n1\<rparr>"
proof -
  have t: "trim (h @ w # n1 @ w2 # n2) = h @ w # n1 @ w2 # n2"
    using trim_salutation[OF honorific_female[OF assms(1)] assms(5), of "w # n1 @ [w2]"] by simp
  have ne: "h \<noteq> []" "n1 \<noteq> []" "n2 \<noteq> []"
    using honorific_ne[OF honorific_female[OF assms(1)]] assms(3,5)
    by (simp_all add: name_token_def)
  show "parseSalutation (JStr (h @ w # n1 @ w2 # n2)) =
           Some \<lparr>gender = ''female'', lastName = JStr n1\<rparr>"
    using ne
    by (simp add: parseSalutation_def t match_female_not_male[OF assms(1)]
        match_female_two[OF assms] match_group_def)
  show "parseSalutation_script (JStr (h @ w # n1 @ w2 # n2)) =
           Some \<lparr>gender = ''female'', lastName = JStr n1\<rparr>"
    using ne
    by (simp add: parseSalutation_script_def t match_female_not_male[OF assms(1)]
        match_female_two[OF assms] match_group_def)
qed

lemmas salutation_eval =
  parseSalutation_def parseSalutation_script_def match_anchored_def malePattern_def
  femalePattern_def trim_def is_space_def is_word_def lit_eq_def canonicalize_def match_group_def

text \<open>
  C1. The claim: for an accepted honorific followed by two name tokens the last name
  is the second token, so that \<^verbatim>\<open>parseSalutation("Frau Erika Musterfrau")\<close> has the last
  name \<^verbatim>\<open>Musterfrau\<close>. The code reads groups 1 and 2 where the tokens are groups 2 and
  3: both versions return the first token \<^verbatim>\<open>Erika\<close>; for \<^verbatim>\<open>Herr Max Mustermann\<close> the
  provider returns \<^verbatim>\<open>Max\<close>, and the male branch of the script, which reads groups 2
  and 3, returns \<^verbatim>\<open>Mustermann\<close>.
\<close>

theorem parseSalutation_two_tokens_first:
  "parseSalutation (JStr ''Frau Erika Musterfrau'') =
     Some \<lparr>gender = ''female'', lastName = JStr ''Erika''\<rparr> \<and>
   parseSalutation_script (JStr ''Frau Erika Musterfrau'') =
     Some \<lparr>gender = ''female'', lastName = JStr ''Erika''\<rparr> \<and>
   parseSalutation (JStr ''Herr Max Mustermann'') =
     Some \<lparr>gender = ''male'', lastName = JStr ''Max''\<rparr> \<and>
   parseSalutation_script (JStr ''Herr Max Mustermann'') =
     Some \<lparr>gender = ''male'', lastName = JStr ''Mustermann''\<rparr>"
  by (simp add: salutation_eval)

theorem parseSalutation_two_tokens_first_witness:
  "parseSalutation (JStr ''Frau Erika Musterfrau'') \<noteq>
     Some \<lparr>gender = ''female'', lastName = JStr ''Musterfrau''\<rparr>"
  using parseSalutation_two_tokens_first by simp

text \<open>
  C8. \<^verbatim>\<open>parseSalutation("Herr Mustermann")\<close> is male with the last name \<^verbatim>\<open>Mustermann\<close>;
  an honorific followed by one name token gives that token as the last name; the result
  is \<^verbatim>\<open>null\<close> for every string that, trimmed, is not an honorific followed by one or
  two name tokens, for \<^verbatim>\<open>ImmoScout GmbH\<close>, for the empty string and for every value
  that is not a string.
\<close>

theorem parseSalutation_one_token_or_null:
  "parseSalutation (JStr ''Herr Mustermann'') =
     Some \<lparr>gender = ''male'', lastName = JStr ''Mustermann''\<rparr> \<and>
   (\<forall>h w n. is_honorific male_honorifics h \<and> is_space w \<and> name_token n \<longrightarrow>
      parseSalutation (JStr (h @ w # n)) = Some \<lparr>gender = ''male'', lastName = JStr n\<rparr>) \<and>
   (\<forall>h w n. is_honorific female_honorifics h \<and> is_space w \<and> name_token n \<longrightarrow>
      parseSalutation (JStr (h @ w # n)) = Some \<lparr>gender = ''female'', lastName = JStr n\<rparr>) \<and>
   (\<forall>s. \<not> salutation_form (trim s) \<longrightarrow> parseSalutation (JStr s) = None) \<and>
   parseSalutation (JStr ''ImmoScout GmbH'') = None \<and>
   parseSalutation (JStr []) = None \<and>
   (\<forall>v. typeof v \<noteq> ''string'' \<longrightarrow> parseSalutation v = None)"
proof (intro conjI allI impI)
  show "parseSalutation (JStr ''Herr Mustermann'') =
     Some \<lparr>gender = ''male'', lastName = JStr ''Mustermann''\<rparr>"
    by (simp add: salutation_eval)
next
  fix h w n
  assume "is_honorific male_honorifics h \<and> is_space w \<and> name_token n"
  then show "parseSalutation (JStr (h @ w # n)) = Some \<lparr>gender = ''male'', lastName = JStr n\<rparr>"
    using parse_one_male by blast
next
  fix h w n
  assume "is_honorific female_honorifics h \<and> is_space w \<and> name_token n"
  then show "parseSalutation (JStr (h @ w # n)) =
      Some \<lparr>gender = ''female'', lastName = JStr n\<rparr>"
    using parse_one_female by blast
next
  fix s
  assume "\<not> salutation_form (trim s)"
  then show "parseSalutation (JStr s) = None"
    using parseSalutation_Some_form[of s] by (cases "parseSalutation (JStr s)") auto
next
  show "parseSalutation (JStr ''ImmoScout GmbH'') = None"
    by (simp add: salutation_eval)
next
  show "parseSalutation (JStr []) = None"
    by (simp add: parseSalutation_def)
next
  fix v
  assume "typeof v \<noteq> ''string''"
  then show "parseSalutation v = None"
    by (simp add: parseSalutation_def)
qed

theorem parseSalutation_one_token_or_null_witness:
  "is_honorific male_honorifics ''herr'' \<and> is_space (CHR '' '') \<and> name_token ''Mustermann'' \<and>
   parseSalutation (JStr ''herr Mustermann'') =
     Some \<lparr>gender = ''male'', lastName = JStr ''Mustermann''\<rparr> \<and>
   is_honorific female_honorifics ''Mrs.'' \<and> name_token ''Smith'' \<and>
   parseSalutation (JStr ''Mrs. Smith'') =
     Some \<lparr>gender = ''female'', lastName = JStr ''Smith''\<rparr> \<and>
   \<not> salutation_form (trim ''Hausverwaltung Nord'') \<and>
   parseSalutation (JStr ''Hausverwaltung Nord'') = None \<and>
   typeof (JNum (Fin 42)) \<noteq> ''string'' \<and> parseSalutation (JNum (Fin 42)) = None"
proof -
  have m: "is_honorific male_honorifics ''herr''" "is_space (CHR '' '')"
      "name_token ''Mustermann''"
    by (simp_all add: is_honorific_def male_honorifics_def lit_eq_def canonicalize_def
        is_space_def name_token_def is_word_def)
  have f: "is_honorific female_honorifics ''Mrs.''" "name_token ''Smith''"
    by (simp_all add: is_honorific_def female_honorifics_def lit_eq_def canonicalize_def
        name_token_def is_word_def)
  have n: "\<not> salutation_form (trim ''Hausverwaltung Nord'')"
    by (simp add: salutation_form_def trim_def is_space_def is_honorific_def
        male_honorifics_def female_honorifics_def lit_eq_def canonicalize_def)
  have t: "typeof (JNum (Fin 42)) \<noteq> ''string''" by simp
  note C = parseSalutation_one_token_or_null
  from C m have 1: "parseSalutation (JStr (''herr'' @ CHR '' '' # ''Mustermann'')) =
      Some \<lparr>gender = ''male'', lastName = JStr ''Mustermann''\<rparr>" by blast
  from C f m(2) have 2: "parseSalutation (JStr (''Mrs.'' @ CHR '' '' # ''Smith'')) =
      Some \<lparr>gender = ''female'', lastName = JStr ''Smith''\<rparr>" by blast
  from C n have 3: "parseSalutation (JStr ''Hausverwaltung Nord'') = None" by blast
  from C t have 4: "parseSalutation (JNum (Fin 42)) = None" by blast
  from m f n t 1 2 3 4 show ?thesis by simp
qed

section \<open>Properties of normalize\<close>

lemma map_of_set_prop: "map_of (set_prop k v ps) = (map_of ps)(k \<mapsto> v)"
  by (induction ps) (auto simp: fun_eq_iff)

lemma obj_prop_set_prop:
  "obj_prop (set_prop k v ps) k' = (if k' = k then v else obj_prop ps k')"
  by (simp add: obj_prop_def map_of_set_prop)

lemma normalize_Inr:
  assumes "normalize_item H r h = Inr (r', h')"
  obtains obj t a where "h r = Some obj" "r' = r"
    "h' = h(r \<mapsto> set_prop ''address'' (JStr a) (set_prop ''title'' (JStr t)
            (set_prop ''id'' (H (obj_prop obj ''id'') (obj_prop obj ''price'')) obj)))"
    "nullOrEmpty (obj_prop obj ''title'') \<Longrightarrow> t = ''NO TITLE FOUND''"
    "nullOrEmpty (obj_prop obj ''address'') \<Longrightarrow> a = ''NO ADDRESS FOUND''"
proof -
  from assms obtain obj where obj: "h r = Some obj"
    by (auto simp: normalize_item_def split: option.splits)
  let ?T = "if nullOrEmpty (obj_prop obj ''title'') then Inr ''NO TITLE FOUND''
            else case obj_prop obj ''title'' of
                   JStr s \<Rightarrow> Inr (remove_first ''NEU'' s) | _ \<Rightarrow> Inl TypeError"
  let ?A = "if nullOrEmpty (obj_prop obj ''address'') then Inr ''NO ADDRESS FOUND''
            else case js_or (obj_prop obj ''address'') (JStr []) of
                   JStr s \<Rightarrow> Inr (trim (replace_rx False address_rx s)) | _ \<Rightarrow> Inl TypeError"
  from assms obj obtain t where t: "?T = Inr t"
    by (cases ?T) (simp_all add: normalize_item_def)
  from assms obj t obtain a where a: "?A = Inr a"
    by (cases ?A) (simp_all add: normalize_item_def)
  from assms obj t a have "r' = r"
    "h' = h(r \<mapsto> set_prop ''address'' (JStr a) (set_prop ''title'' (JStr t)
            (set_prop ''id'' (H (obj_prop obj ''id'') (obj_prop obj ''price'')) obj)))"
    by (auto simp: normalize_item_def)
  moreover from t have "nullOrEmpty (obj_prop obj ''title'') \<Longrightarrow> t = ''NO TITLE FOUND''"
    by simp
  moreover from a have "nullOrEmpty (obj_prop obj ''address'') \<Longrightarrow> a = ''NO ADDRESS FOUND''"
    by simp
  ultimately show thesis using obj that by blast
qed

lemma text_or_absent_cases:
  assumes "text_or_absent v"
  obtains "nullish v" | s where "v = JStr s"
  using assms by (cases v) (auto simp: text_or_absent_def)

lemma normalize_returns:
  assumes "h r = Some obj" "text_or_absent (obj_prop obj ''title'')"
    "text_or_absent (obj_prop obj ''address'')"
  shows "\<exists>h'. normalize_item H r h = Inr (r, h')"
proof -
  have t: "\<exists>t. (if nullOrEmpty (obj_prop obj ''title'') then Inr ''NO TITLE FOUND''
            else case obj_prop obj ''title'' of
                   JStr s \<Rightarrow> Inr (remove_first ''NEU'' s) | _ \<Rightarrow> Inl TypeError) = Inr t"
    using assms(2) by (rule text_or_absent_cases) (auto simp: nullOrEmpty_def)
  have a: "\<exists>a. (if nullOrEmpty (obj_prop obj ''address'') then Inr ''NO ADDRESS FOUND''
            else case js_or (obj_prop obj ''address'') (JStr []) of
                   JStr s \<Rightarrow> Inr (trim (replace_rx False address_rx s)) | _ \<Rightarrow> Inl TypeError)
            = Inr a"
    using assms(3) by (rule text_or_absent_cases) (auto simp: nullOrEmpty_def js_or_def)
  from t a assms(1) show ?thesis by (auto simp: normalize_item_def)
qed

lemma normalize_twice:
  assumes "h r = Some obj" "normalize_item H r h = Inr (r', h')"
  shows "\<exists>h'' obj''. normalize_item H r h' = Inr (r, h'') \<and> h'' r = Some obj'' \<and>
           obj_prop obj'' ''id'' =
             H (H (obj_prop obj ''id'') (obj_prop obj ''price'')) (obj_prop obj ''price'')"
proof -
  from assms(2) obtain obj0 t a where n: "h r = Some obj0" "r' = r"
    "h' = h(r \<mapsto> set_prop ''address'' (JStr a) (set_prop ''title'' (JStr t)
            (set_prop ''id'' (H (obj_prop obj0 ''id'') (obj_prop obj0 ''price'')) obj0)))"
    by (rule normalize_Inr) blast
  with assms(1) have [simp]: "obj0 = obj" by simp
  define obj' where "obj' = set_prop ''address'' (JStr a) (set_prop ''title'' (JStr t)
            (set_prop ''id'' (H (obj_prop obj ''id'') (obj_prop obj ''price'')) obj))"
  from n have h': "h' r = Some obj'" by (simp add: obj'_def)
  have p: "obj_prop obj' ''title'' = JStr t" "obj_prop obj' ''address'' = JStr a"
    "obj_prop obj' ''id'' = H (obj_prop obj ''id'') (obj_prop obj ''price'')"
    "obj_prop obj' ''price'' = obj_prop obj ''price''"
    by (simp_all add: obj'_def obj_prop_set_prop)
  from p have "text_or_absent (obj_prop obj' ''title'')"
    "text_or_absent (obj_prop obj' ''address'')"
    by (simp_all add: text_or_absent_def)
  from normalize_returns[where H=H and h=h' and r=r and obj=obj', OF h' this] obtain h'' where h'': "normalize_item H r h' = Inr (r, h'')"
    by blast
  then obtain obj1 t2 a2 where m: "h' r = Some obj1"
    "h'' = h'(r \<mapsto> set_prop ''address'' (JStr a2) (set_prop ''title'' (JStr t2)
            (set_prop ''id'' (H (obj_prop obj1 ''id'') (obj_prop obj1 ''price'')) obj1)))"
    by (rule normalize_Inr) blast
  with h' have "obj1 = obj'" by simp
  with m p have "h'' r = Some (set_prop ''address'' (JStr a2) (set_prop ''title'' (JStr t2)
      (set_prop ''id'' (H (H (obj_prop obj ''id'') (obj_prop obj ''price''))
          (obj_prop obj ''price'')) obj')))"
    by simp
  with h'' show ?thesis by (auto simp: obj_prop_set_prop)
qed

lemma normalize_strings:
  assumes "normalize_item H r h = Inr (r', h')"
  shows "\<exists>obj' t a. h' r' = Some obj' \<and> obj_prop obj' ''title'' = JStr t \<and>
         obj_prop obj' ''address'' = JStr a"
proof -
  from assms obtain obj t a where "r' = r"
    "h' = h(r \<mapsto> set_prop ''address'' (JStr a) (set_prop ''title'' (JStr t)
            (set_prop ''id'' (H (obj_prop obj ''id'') (obj_prop obj ''price'')) obj)))"
    by (rule normalize_Inr) blast
  then show ?thesis by (simp add: obj_prop_set_prop)
qed

lemma normalize_placeholders:
  assumes "h r = Some obj" "normalize_item H r h = Inr (r', h')" "h' r' = Some obj'"
  shows "nullOrEmpty (obj_prop obj ''title'') \<longrightarrow>
           obj_prop obj' ''title'' = JStr ''NO TITLE FOUND''"
    and "nullOrEmpty (obj_prop obj ''address'') \<longrightarrow>
           obj_prop obj' ''address'' = JStr ''NO ADDRESS FOUND''"
proof -
  from assms(2) obtain obj0 t ad where n: "h r = Some obj0" "r' = r"
    "h' = h(r \<mapsto> set_prop ''address'' (JStr ad) (set_prop ''title'' (JStr t)
            (set_prop ''id'' (H (obj_prop obj0 ''id'') (obj_prop obj0 ''price'')) obj0)))"
    "nullOrEmpty (obj_prop obj0 ''title'') \<Longrightarrow> t = ''NO TITLE FOUND''"
    "nullOrEmpty (obj_prop obj0 ''address'') \<Longrightarrow> ad = ''NO ADDRESS FOUND''"
    by (rule normalize_Inr) blast
  from assms(1) n(1) have o: "obj0 = obj" by simp
  from assms(3) n(2,3) have p: "obj_prop obj' ''title'' = JStr t"
      "obj_prop obj' ''address'' = JStr ad"
    by (auto simp: obj_prop_set_prop)
  from n(4) o p show "nullOrEmpty (obj_prop obj ''title'') \<longrightarrow>
           obj_prop obj' ''title'' = JStr ''NO TITLE FOUND''" by simp
  from n(5) o p show "nullOrEmpty (obj_prop obj ''address'') \<longrightarrow>
           obj_prop obj' ''address'' = JStr ''NO ADDRESS FOUND''" by simp
qed

text \<open>
  C4. Whenever \<^verbatim>\<open>normalize\<close> returns, the title and the address of the listing are
  strings, never \<^verbatim>\<open>null\<close> or \<^verbatim>\<open>undefined\<close>. It returns for every raw item whose title
  and address are each a string or missing, and a title or address that is missing or
  empty is replaced by \<^verbatim>\<open>NO TITLE FOUND\<close> or \<^verbatim>\<open>NO ADDRESS FOUND\<close>. This holds for every
  hash function.
\<close>

theorem normalize_title_address_never_null:
  "(\<forall>H r h r' h'. normalize_item H r h = Inr (r', h') \<longrightarrow>
      (\<exists>obj' t a. h' r' = Some obj' \<and> obj_prop obj' ''title'' = JStr t \<and>
         obj_prop obj' ''address'' = JStr a)) \<and>
   (\<forall>H r h obj. h r = Some obj \<and> text_or_absent (obj_prop obj ''title'') \<and>
      text_or_absent (obj_prop obj ''address'') \<longrightarrow> (\<exists>h'. normalize_item H r h = Inr (r, h'))) \<and>
   (\<forall>H r h obj r' h' obj'. h r = Some obj \<and> normalize_item H r h = Inr (r', h') \<and>
      h' r' = Some obj' \<longrightarrow>
      (nullOrEmpty (obj_prop obj ''title'') \<longrightarrow>
         obj_prop obj' ''title'' = JStr ''NO TITLE FOUND'') \<and>
      (nullOrEmpty (obj_prop obj ''address'') \<longrightarrow>
         obj_prop obj' ''address'' = JStr ''NO ADDRESS FOUND'')) \<and>
   nullOrEmpty JUndefined \<and> nullOrEmpty JNull \<and> nullOrEmpty (JStr [])"
proof -
  have 1: "\<forall>H r h r' h'. normalize_item H r h = Inr (r', h') \<longrightarrow>
      (\<exists>obj' t a. h' r' = Some obj' \<and> obj_prop obj' ''title'' = JStr t \<and>
         obj_prop obj' ''address'' = JStr a)"
    by (intro allI impI, rule normalize_strings)
  have 2: "\<forall>H r h obj. h r = Some obj \<and> text_or_absent (obj_prop obj ''title'') \<and>
      text_or_absent (obj_prop obj ''address'') \<longrightarrow> (\<exists>h'. normalize_item H r h = Inr (r, h'))"
    by (intro allI impI, elim conjE, rule normalize_returns)
  have 3: "\<forall>H r h obj r' h' obj'. h r = Some obj \<and> normalize_item H r h = Inr (r', h') \<and>
      h' r' = Some obj' \<longrightarrow>
      (nullOrEmpty (obj_prop obj ''title'') \<longrightarrow>
         obj_prop obj' ''title'' = JStr ''NO TITLE FOUND'') \<and>
      (nullOrEmpty (obj_prop obj ''address'') \<longrightarrow>
         obj_prop obj' ''address'' = JStr ''NO ADDRESS FOUND'')"
  proof (intro allI impI, elim conjE)
    fix H r h obj r' h' obj'
    assume a: "h r = Some obj" "normalize_item H r h = Inr (r', h')" "h' r' = Some obj'"
    show "(nullOrEmpty (obj_prop obj ''title'') \<longrightarrow>
         obj_prop obj' ''title'' = JStr ''NO TITLE FOUND'') \<and>
      (nullOrEmpty (obj_prop obj ''address'') \<longrightarrow>
         obj_prop obj' ''address'' = JStr ''NO ADDRESS FOUND'')"
      by (rule conjI[OF normalize_placeholders(1)[OF a] normalize_placeholders(2)[OF a]])
  qed
  have 4: "nullOrEmpty JUndefined \<and> nullOrEmpty JNull \<and> nullOrEmpty (JStr [])"
    by (simp add: nullOrEmpty_def)
  show ?thesis by (rule conjI[OF 1 conjI[OF 2 conjI[OF 3 4]]])
qed


lemmas normalize_eval =
  normalize_item_def obj_prop_def nullOrEmpty_def js_or_def text_or_absent_def item0_def

theorem normalize_title_address_never_null_witness:
  "[0 \<mapsto> item0] (0::nat) = Some item0 \<and> text_or_absent (obj_prop item0 ''title'') \<and>
   text_or_absent (obj_prop item0 ''address'') \<and>
   nullOrEmpty (obj_prop item0 ''title'') \<and> nullOrEmpty (obj_prop item0 ''address'') \<and>
   (\<exists>h' obj'. normalize_item buildHash 0 [0 \<mapsto> item0] = Inr (0, h') \<and> h' 0 = Some obj' \<and>
      obj_prop obj' ''title'' = JStr ''NO TITLE FOUND'' \<and>
      obj_prop obj' ''address'' = JStr ''NO ADDRESS FOUND'')"
proof -
  note C = normalize_title_address_never_null
  have h: "[0 \<mapsto> item0] (0::nat) = Some item0" by simp
  have t: "text_or_absent (obj_prop item0 ''title'')" "text_or_absent (obj_prop item0 ''address'')"
    "nullOrEmpty (obj_prop item0 ''title'')" "nullOrEmpty (obj_prop item0 ''address'')"
    by (simp_all add: normalize_eval)
  from C[THEN conjunct2, THEN conjunct1, rule_format,
      where H=buildHash and r=0 and h="[0 \<mapsto> item0]" and obj=item0,
      OF conjI[OF h conjI[OF t(1) t(2)]]]
  obtain h' where n: "normalize_item buildHash 0 [0 \<mapsto> item0] = Inr (0, h')" by blast
  from C[THEN conjunct1, rule_format, OF n] obtain obj' where o: "h' 0 = Some obj'" by blast
  from C[THEN conjunct2, THEN conjunct2, THEN conjunct1, rule_format,
      where H=buildHash and r=0 and h="[0 \<mapsto> item0]" and obj=item0 and r'=0 and h'=h'
        and obj'=obj', OF conjI[OF h conjI[OF n o]]] t(3,4)
  have "obj_prop obj' ''title'' = JStr ''NO TITLE FOUND''"
    "obj_prop obj' ''address'' = JStr ''NO ADDRESS FOUND''"
    by simp_all
  with n o have "\<exists>h' obj'. normalize_item buildHash 0 [0 \<mapsto> item0] = Inr (0, h') \<and>
      h' 0 = Some obj' \<and> obj_prop obj' ''title'' = JStr ''NO TITLE FOUND'' \<and>
      obj_prop obj' ''address'' = JStr ''NO ADDRESS FOUND''" by blast
  with h t show ?thesis by simp
qed

lemma normalize_frame:
  assumes "h r = Some obj" "normalize_item H r h = Inr (r', h')"
  shows "r' = r" and "\<forall>q. q \<noteq> r \<longrightarrow> h' q = h q"
    and "\<exists>obj'. h' r = Some obj' \<and>
           obj_prop obj' ''id'' = H (obj_prop obj ''id'') (obj_prop obj ''price'') \<and>
           (\<forall>k. k \<noteq> ''id'' \<and> k \<noteq> ''title'' \<and> k \<noteq> ''address'' \<longrightarrow>
              map_of obj' k = map_of obj k)"
proof -
  from assms(2) obtain obj0 t a where n: "h r = Some obj0" "r' = r"
    "h' = h(r \<mapsto> set_prop ''address'' (JStr a) (set_prop ''title'' (JStr t)
            (set_prop ''id'' (H (obj_prop obj0 ''id'') (obj_prop obj0 ''price'')) obj0)))"
    by (rule normalize_Inr) blast
  with assms(1) have o: "obj0 = obj" by simp
  from n show "r' = r" by simp
  from n show "\<forall>q. q \<noteq> r \<longrightarrow> h' q = h q" by simp
  from n o show "\<exists>obj'. h' r = Some obj' \<and>
           obj_prop obj' ''id'' = H (obj_prop obj ''id'') (obj_prop obj ''price'') \<and>
           (\<forall>k. k \<noteq> ''id'' \<and> k \<noteq> ''title'' \<and> k \<noteq> ''address'' \<longrightarrow>
              map_of obj' k = map_of obj k)"
    by (simp add: obj_prop_set_prop map_of_set_prop)
qed

text \<open>
  C10. \<^verbatim>\<open>normalize\<close> returns the reference it was given and changes the object
  behind it, leaving every other object of the store as it was. In that object
  \<^verbatim>\<open>id\<close> now holds the hash of the former id and the price; every property other than
  \<^verbatim>\<open>id\<close>, \<^verbatim>\<open>title\<close> and \<^verbatim>\<open>address\<close> is unchanged. A second call on the result returns
  too and hashes the hashed id with the price again, so the id changes once more
  wherever the hash of a digest differs from the digest. This holds for every hash
  function.
\<close>

theorem normalize_in_place:
  "\<forall>H r h obj r' h'. h r = Some obj \<and> normalize_item H r h = Inr (r', h') \<longrightarrow>
     r' = r \<and> (\<forall>q. q \<noteq> r \<longrightarrow> h' q = h q) \<and>
     (\<exists>obj'. h' r = Some obj' \<and>
        obj_prop obj' ''id'' = H (obj_prop obj ''id'') (obj_prop obj ''price'') \<and>
        (\<forall>k. k \<noteq> ''id'' \<and> k \<noteq> ''title'' \<and> k \<noteq> ''address'' \<longrightarrow>
           map_of obj' k = map_of obj k)) \<and>
     (\<exists>h'' obj''. normalize_item H r h' = Inr (r, h'') \<and> h'' r = Some obj'' \<and>
        obj_prop obj'' ''id'' =
          H (H (obj_prop obj ''id'') (obj_prop obj ''price'')) (obj_prop obj ''price''))"
proof (intro allI impI, elim conjE)
  fix H r h obj r' h'
  assume a: "h r = Some obj" "normalize_item H r h = Inr (r', h')"
  show "r' = r \<and> (\<forall>q. q \<noteq> r \<longrightarrow> h' q = h q) \<and>
     (\<exists>obj'. h' r = Some obj' \<and>
        obj_prop obj' ''id'' = H (obj_prop obj ''id'') (obj_prop obj ''price'') \<and>
        (\<forall>k. k \<noteq> ''id'' \<and> k \<noteq> ''title'' \<and> k \<noteq> ''address'' \<longrightarrow>
           map_of obj' k = map_of obj k)) \<and>
     (\<exists>h'' obj''. normalize_item H r h' = Inr (r, h'') \<and> h'' r = Some obj'' \<and>
        obj_prop obj'' ''id'' =
          H (H (obj_prop obj ''id'') (obj_prop obj ''price'')) (obj_prop obj ''price''))"
    by (rule conjI[OF normalize_frame(1)[OF a] conjI[OF normalize_frame(2)[OF a]
          conjI[OF normalize_frame(3)[OF a] normalize_twice[OF a]]]])
qed





lemma normalize_item1:
  "normalize_item buildHash 0 store1 =
     Inr (0, store1_normalized)"
  by (simp add: normalize_item_def obj_prop_def nullOrEmpty_def js_or_def item1_def
      item1_normalized_def replace_rx_def address_rx_def trim_def is_space_def is_dot_def
      lit_eq_def store1_def store1_normalized_def)

theorem normalize_in_place_witness:
  "store1 0 = Some item1 \<and>
   normalize_item buildHash 0 store1 =
     Inr (0, store1_normalized) \<and>
   store1_normalized 1 = store1 1 \<and>
   map_of item1_normalized ''price'' = map_of item1 ''price'' \<and>
   (\<exists>h'' obj''. normalize_item buildHash 0 store1_normalized =
        Inr (0, h'') \<and> h'' 0 = Some obj'' \<and>
      obj_prop obj'' ''id'' =
        buildHash (buildHash (JStr ''158382494'') (JStr ''1200 EUR'')) (JStr ''1200 EUR''))"
proof -
  have h: "store1 0 = Some item1" by (simp add: store1_def)
  note C = normalize_in_place[rule_format, where H=buildHash and r=0
      and h="store1" and obj=item1 and r'=0
      and h'="store1_normalized", OF conjI[OF h normalize_item1]]
  have p: "obj_prop item1 ''id'' = JStr ''158382494''" "obj_prop item1 ''price'' = JStr ''1200 EUR''"
    by (simp_all add: obj_prop_def item1_def)
  from C have 1: "store1_normalized 1 =
      store1 1" by simp
  have n0: "store1_normalized 0 = Some item1_normalized" by (simp add: store1_normalized_def)
  from C n0 have 2: "map_of item1_normalized ''price'' = map_of item1 ''price''" by simp
  from C p have 3: "\<exists>h'' obj''. normalize_item buildHash 0
        store1_normalized = Inr (0, h'') \<and> h'' 0 = Some obj'' \<and>
      obj_prop obj'' ''id'' =
        buildHash (buildHash (JStr ''158382494'') (JStr ''1200 EUR'')) (JStr ''1200 EUR'')"
    by simp
  show ?thesis by (rule conjI[OF h conjI[OF normalize_item1 conjI[OF 1 conjI[OF 2 3]]]])
qed

lemma assigned_id_Some:
  assumes "h r = Some obj" "assigned_id H r h = Some i"
  shows "i = H (obj_prop obj ''id'') (obj_prop obj ''price'')"
proof -
  from assms(2) obtain r' h' where n: "normalize_item H r h = Inr (r', h')"
    by (auto simp: assigned_id_def split: sum.splits)
  from normalize_frame(1)[OF assms(1) n] have r: "r' = r" .
  from normalize_frame(3)[OF assms(1) n] obtain obj' where o: "h' r = Some obj'"
    "obj_prop obj' ''id'' = H (obj_prop obj ''id'') (obj_prop obj ''price'')"
    by blast
  from n r o(1) have "assigned_id H r h = Some (obj_prop obj' ''id'')"
    by (simp add: assigned_id_def)
  with assms(2) o(2) show ?thesis by simp
qed

text \<open>
  C2. The id \<^verbatim>\<open>normalize\<close> assigns is the hash of the source-native id and the
  price, whatever else the raw item holds (for every hash function). With the hash
  modelled from the spec, two raw items with the same native id get the same id exactly
  when their prices are the same: the same price gives the same id, another price
  another id.
\<close>

theorem listing_id_of_id_and_price:
  "(\<forall>H r h obj i. h r = Some obj \<and> assigned_id H r h = Some i \<longrightarrow>
      i = H (obj_prop obj ''id'') (obj_prop obj ''price'')) \<and>
   (\<forall>r h obj r2 h2 obj2 i j. h r = Some obj \<and> h2 r2 = Some obj2 \<and>
      assigned_id buildHash r h = Some i \<and> assigned_id buildHash r2 h2 = Some j \<and>
      obj_prop obj ''id'' = obj_prop obj2 ''id'' \<longrightarrow>
      (i = j) = (obj_prop obj ''price'' = obj_prop obj2 ''price''))"
proof -
  have 1: "\<forall>H r h obj i. h r = Some obj \<and> assigned_id H r h = Some i \<longrightarrow>
      i = H (obj_prop obj ''id'') (obj_prop obj ''price'')"
    by (intro allI impI, elim conjE, rule assigned_id_Some)
  have 2: "\<forall>r h obj r2 h2 obj2 i j. h r = Some obj \<and> h2 r2 = Some obj2 \<and>
      assigned_id buildHash r h = Some i \<and> assigned_id buildHash r2 h2 = Some j \<and>
      obj_prop obj ''id'' = obj_prop obj2 ''id'' \<longrightarrow>
      (i = j) = (obj_prop obj ''price'' = obj_prop obj2 ''price'')"
  proof (intro allI impI, elim conjE)
    fix r h obj r2 h2 obj2 i j
    assume a: "h r = Some obj" "h2 r2 = Some obj2" "assigned_id buildHash r h = Some i"
      "assigned_id buildHash r2 h2 = Some j" "obj_prop obj ''id'' = obj_prop obj2 ''id''"
    from assigned_id_Some[OF a(1,3)] assigned_id_Some[OF a(2,4)] a(5)
    show "(i = j) = (obj_prop obj ''price'' = obj_prop obj2 ''price'')"
      by (simp add: buildHash_def)
  qed
  show ?thesis by (rule conjI[OF 1 2])
qed


theorem listing_id_of_id_and_price_witness:
  "[0 \<mapsto> item1] (0::ref) = Some item1 \<and> [5 \<mapsto> item2] (5::ref) = Some item2 \<and>
   assigned_id buildHash 0 [0 \<mapsto> item1] =
     Some (buildHash (JStr ''158382494'') (JStr ''1200 EUR'')) \<and>
   assigned_id buildHash 5 [5 \<mapsto> item2] =
     Some (buildHash (JStr ''158382494'') (JStr ''1300 EUR'')) \<and>
   obj_prop item1 ''id'' = obj_prop item2 ''id'' \<and>
   obj_prop item1 ''price'' \<noteq> obj_prop item2 ''price'' \<and>
   buildHash (JStr ''158382494'') (JStr ''1200 EUR'') \<noteq>
     buildHash (JStr ''158382494'') (JStr ''1300 EUR'')"
proof -
  have h: "[0 \<mapsto> item1] (0::ref) = Some item1" "[5 \<mapsto> item2] (5::ref) = Some item2"
    by simp_all
  have a: "assigned_id buildHash 0 [0 \<mapsto> item1] =
      Some (buildHash (JStr ''158382494'') (JStr ''1200 EUR''))"
    "assigned_id buildHash 5 [5 \<mapsto> item2] =
      Some (buildHash (JStr ''158382494'') (JStr ''1300 EUR''))"
    by (simp_all add: assigned_id_def normalize_item_def obj_prop_def nullOrEmpty_def js_or_def
        item1_def item2_def)
  have p: "obj_prop item1 ''id'' = obj_prop item2 ''id''"
    "obj_prop item1 ''price'' \<noteq> obj_prop item2 ''price''"
    by (simp_all add: obj_prop_def item1_def item2_def)
  note C = listing_id_of_id_and_price[THEN conjunct2, rule_format, where r=0
      and h="[0 \<mapsto> item1]" and obj=item1 and ?r2.0=5 and ?h2.0="[5 \<mapsto> item2]"
      and ?obj2.0=item2, OF conjI[OF h(1) conjI[OF h(2) conjI[OF a(1) conjI[OF a(2) p(1)]]]]]
  from C p(2) have "buildHash (JStr ''158382494'') (JStr ''1200 EUR'') \<noteq>
     buildHash (JStr ''158382494'') (JStr ''1300 EUR'')" by simp
  then show ?thesis
    by (intro conjI[OF h(1) conjI[OF h(2) conjI[OF a(1) conjI[OF a(2) conjI[OF p(1) conjI[OF p(2)]]]]]])
qed

section \<open>Properties of send\<close>

lemma map_throwing_total:
  assumes "\<forall>x\<in>set xs. f x = Inr (g x)"
  shows "map_throwing f xs = Inr (map g xs)"
  using assms by (induction xs) simp_all

lemma findAdapter_None: "(findAdapter ads c = None) = (channel_id c \<notin> config_id ` set ads)"
  by (force simp: findAdapter_def find_None_iff image_iff)

lemma findAdapter_Some:
  assumes "findAdapter ads c = Some a"
  shows "a \<in> set ads" and "config_id a = channel_id c"
  using assms by (auto simp: findAdapter_def find_Some_iff)

lemma selected_ids:
  "map (\<lambda>c. config_id (the (findAdapter ads c))) (filter (\<lambda>c. findAdapter ads c \<noteq> None) nc) =
     filter (\<lambda>i. i \<in> config_id ` set ads) (map channel_id nc)"
proof (induction nc)
  case Nil
  then show ?case by simp
next
  case (Cons c nc)
  show ?case
  proof (cases "findAdapter ads c")
    case None
    with Cons show ?thesis using findAdapter_None[of ads c] by simp
  next
    case (Some a)
    then have "channel_id c \<in> config_id ` set ads" using findAdapter_None[of ads c] by simp
    with Some Cons findAdapter_Some(2)[OF Some] show ?thesis by simp
  qed
qed

lemma send_selected:
  "send ads sn nl nc jk =
     Inr (map (\<lambda>a. adapter_send a
                 \<lparr>serviceName = sn, newListings = nl, notificationConfig = nc, jobKey = jk\<rparr>)
           (map (\<lambda>c. the (findAdapter ads c)) (filter (\<lambda>c. findAdapter ads c \<noteq> None) nc)))"
proof -
  let ?p = "\<lparr>serviceName = sn, newListings = nl, notificationConfig = nc, jobKey = jk\<rparr>"
  let ?f = "\<lambda>a. case a of None \<Rightarrow> Inl TypeError | Some ad \<Rightarrow> Inr (adapter_send ad ?p)"
  let ?ys = "map (\<lambda>c. findAdapter ads c) (filter (\<lambda>c. findAdapter ads c \<noteq> None) nc)"
  have "\<forall>x\<in>set ?ys. ?f x = Inr (adapter_send (the x) ?p)" by auto
  then have "map_throwing ?f ?ys = Inr (map (\<lambda>x. adapter_send (the x) ?p) ?ys)"
    by (rule map_throwing_total)
  then show ?thesis by (simp add: send_def comp_def)
qed

text \<open>
  C7. \<^verbatim>\<open>send\<close> never fails on a configuration entry without adapter: it returns the
  results of the \<^verbatim>\<open>send\<close> calls of a list of discovered adapters whose ids are, in
  order, exactly the configured channel ids that some adapter has. Entries with another
  id are skipped, and every entry whose id matches is dispatched, whatever comes before
  or after it.
\<close>

theorem send_skips_unavailable:
  "\<exists>sel. send ads sn nl nc jk =
           Inr (map (\<lambda>a. adapter_send a
                       \<lparr>serviceName = sn, newListings = nl, notificationConfig = nc,
                        jobKey = jk\<rparr>) sel) \<and>
         map config_id sel = filter (\<lambda>i. i \<in> config_id ` set ads) (map channel_id nc) \<and>
         set sel \<subseteq> set ads"
proof -
  let ?sel = "map (\<lambda>c. the (findAdapter ads c)) (filter (\<lambda>c. findAdapter ads c \<noteq> None) nc)"
  have 1: "map config_id ?sel = filter (\<lambda>i. i \<in> config_id ` set ads) (map channel_id nc)"
    using selected_ids[of ads nc] by (simp add: comp_def)
  have 2: "set ?sel \<subseteq> set ads"
    using findAdapter_Some(1) by fastforce
  from send_selected[of ads sn nl nc jk] 1 2 show ?thesis by blast
qed

theorem send_skips_unavailable_witness:
  "send sample_adapters ''immoscout'' 2 sample_config ''job1'' =
     Inr [''slack:job1'', ''telegram:job1''] \<and>
   filter (\<lambda>i. i \<in> config_id ` set sample_adapters) (map channel_id sample_config) =
     [''slack'', ''telegram'']"
proof -
  from send_skips_unavailable[of sample_adapters "''immoscout''" 2 sample_config "''job1''"]
  obtain sel where s: "send sample_adapters ''immoscout'' 2 sample_config ''job1'' =
      Inr (map (\<lambda>a. adapter_send a
               \<lparr>serviceName = ''immoscout'', newListings = 2, notificationConfig = sample_config,
                jobKey = ''job1''\<rparr>) sel)"
    "map config_id sel =
       filter (\<lambda>i. i \<in> config_id ` set sample_adapters) (map channel_id sample_config)"
    "set sel \<subseteq> set sample_adapters"
    by blast
  have f: "filter (\<lambda>i. i \<in> config_id ` set sample_adapters) (map channel_id sample_config) =
     [''slack'', ''telegram'']"
    by (simp add: sample_adapters_def sample_config_def)
  have e: "send sample_adapters ''immoscout'' 2 sample_config ''job1'' =
     Inr [''slack:job1'', ''telegram:job1'']"
    by (simp add: send_def findAdapter_def sample_adapters_def sample_config_def)
  from s e f show ?thesis by simp
qed

section \<open>Properties of the geocoding client\<close>

lemma number_not_nullish: "typeof v = ''number'' \<Longrightarrow> \<not> nullish v"
  by (cases v) simp_all

lemma extractAddressComponents_requests:
  "requests (snd (extractAddressComponents d w)) = requests w"
  by (simp add: extractAddressComponents_def log_line_def Let_def)

lemma reverseGeocode_rejected:
  assumes "nullish lat \<or> nullish lon \<or> typeof lat \<noteq> ''number'' \<or> typeof lon \<noteq> ''number''"
  shows "fst (reverseGeocode nts net lat lon w) = Inr JNull"
    and "requests (snd (reverseGeocode nts net lat lon w)) = requests w"
  using assms by (auto simp: reverseGeocode_def log_line_def)

lemma reverseGeocode_calls:
  assumes "ToString nts lat = Inr lat_text" "ToString nts lon = Inr lon_text"
    and "typeof lat = ''number''" "typeof lon = ''number''"
  shows "requests (snd (reverseGeocode nts net lat lon w)) =
           requests w @
           [\<lparr>req_url = NOMINATIM_BASE_URL @ ''/reverse?lat='' @ lat_text @ ''&lon='' @
                        lon_text @ ''&format=json'',
             req_method = ''GET'',
             req_headers = [(''User-Agent'', ''Fredy-Real-Estate-Bot/1.0'')],
             req_body = None\<rparr>]"
    and "\<exists>v. fst (reverseGeocode nts net lat lon w) = Inr v"
proof -
  let ?req = "\<lparr>req_url = NOMINATIM_BASE_URL @ ''/reverse?lat='' @ lat_text @ ''&lon='' @
                        lon_text @ ''&format=json'',
             req_method = ''GET'',
             req_headers = [(''User-Agent'', ''Fredy-Real-Estate-Bot/1.0'')],
             req_body = None\<rparr>"
  let ?goal = "requests (snd (reverseGeocode nts net lat lon w)) = requests w @ [?req] \<and>
     (\<exists>v. fst (reverseGeocode nts net lat lon w) = Inr v)"
  from assms have g: "\<not> nullish lat" "\<not> nullish lon" by (simp_all add: number_not_nullish)
  have ?goal
  proof (cases "net ?req")
    case Rejected
    with assms g show ?thesis
      by (simp add: reverseGeocode_def throttledFetch_def fetch_def log_line_def Let_def)
  next
    case (Resolved response)
    show ?thesis
    proof (cases "resp_ok response")
      case False
      with Resolved assms g show ?thesis
        by (simp add: reverseGeocode_def throttledFetch_def fetch_def log_line_def Let_def)
    next
      case True
      show ?thesis
      proof (cases "resp_json response")
        case None
        with True Resolved assms g show ?thesis
          by (simp add: reverseGeocode_def throttledFetch_def fetch_def log_line_def Let_def)
      next
        case (Some d)
        with True Resolved assms g show ?thesis
          by (cases "get_prop d ''error''")
            (simp_all add: reverseGeocode_def throttledFetch_def fetch_def log_line_def Let_def
              split_beta extractAddressComponents_requests)
      qed
    qed
  qed
  then show "requests (snd (reverseGeocode nts net lat lon w)) = requests w @ [?req]"
    and "\<exists>v. fst (reverseGeocode nts net lat lon w) = Inr v"
    by simp_all
qed

lemma reverseGeocode_returns: "\<exists>v. fst (reverseGeocode nts net lat lon w) = Inr v"
proof (cases "nullish lat \<or> nullish lon \<or> typeof lat \<noteq> ''number'' \<or> typeof lon \<noteq> ''number''")
  case True
  from reverseGeocode_rejected(1)[OF this] show ?thesis by blast
next
  case False
  then have t: "typeof lat = ''number''" "typeof lon = ''number''" by simp_all
  from ToString_number[OF t(1), of nts] obtain a where a: "ToString nts lat = Inr a" by blast
  from ToString_number[OF t(2), of nts] obtain b where b: "ToString nts lon = Inr b" by blast
  from reverseGeocode_calls(2)[OF a b t] show ?thesis .
qed

text \<open>
  C5 (as amended). When a coordinate is \<^verbatim>\<open>null\<close> or \<^verbatim>\<open>undefined\<close> or is not of type
  number, \<^verbatim>\<open>reverseGeocode\<close> returns \<^verbatim>\<open>null\<close> and makes no request. When both are of
  type number it makes exactly one request, with the two numbers printed into the URL;
  \<^verbatim>\<open>NaN\<close>, \<^verbatim>\<open>Infinity\<close> and \<^verbatim>\<open>-Infinity\<close> are of type number.
\<close>

theorem reverseGeocode_guards:
  "(\<forall>nts net lat lon w.
      nullish lat \<or> nullish lon \<or> typeof lat \<noteq> ''number'' \<or> typeof lon \<noteq> ''number'' \<longrightarrow>
      fst (reverseGeocode nts net lat lon w) = Inr JNull \<and>
      requests (snd (reverseGeocode nts net lat lon w)) = requests w) \<and>
   (\<forall>nts net lat lon w. typeof lat = ''number'' \<and> typeof lon = ''number'' \<longrightarrow>
      (\<exists>req lat_text lon_text.
         ToString nts lat = Inr lat_text \<and> ToString nts lon = Inr lon_text \<and>
         requests (snd (reverseGeocode nts net lat lon w)) = requests w @ [req] \<and>
         req_url req = NOMINATIM_BASE_URL @ ''/reverse?lat='' @ lat_text @ ''&lon='' @
                       lon_text @ ''&format=json'')) \<and>
   typeof (JNum NaN) = ''number'' \<and> typeof (JNum PosInf) = ''number'' \<and>
   typeof (JNum NegInf) = ''number''"
proof -
  have 1: "\<forall>nts net lat lon w.
      nullish lat \<or> nullish lon \<or> typeof lat \<noteq> ''number'' \<or> typeof lon \<noteq> ''number'' \<longrightarrow>
      fst (reverseGeocode nts net lat lon w) = Inr JNull \<and>
      requests (snd (reverseGeocode nts net lat lon w)) = requests w"
    using reverseGeocode_rejected by blast
  have 2: "\<forall>nts net lat lon w. typeof lat = ''number'' \<and> typeof lon = ''number'' \<longrightarrow>
      (\<exists>req lat_text lon_text.
         ToString nts lat = Inr lat_text \<and> ToString nts lon = Inr lon_text \<and>
         requests (snd (reverseGeocode nts net lat lon w)) = requests w @ [req] \<and>
         req_url req = NOMINATIM_BASE_URL @ ''/reverse?lat='' @ lat_text @ ''&lon='' @
                       lon_text @ ''&format=json'')"
  proof (intro allI impI, elim conjE)
    fix nts net lat lon w
    assume t: "typeof lat = ''number''" "typeof lon = ''number''"
    from ToString_number[OF t(1), of nts] obtain a where a: "ToString nts lat = Inr a" by blast
    from ToString_number[OF t(2), of nts] obtain b where b: "ToString nts lon = Inr b" by blast
    from reverseGeocode_calls(1)[OF a b t, of net w] a b
    show "\<exists>req lat_text lon_text.
         ToString nts lat = Inr lat_text \<and> ToString nts lon = Inr lon_text \<and>
         requests (snd (reverseGeocode nts net lat lon w)) = requests w @ [req] \<and>
         req_url req = NOMINATIM_BASE_URL @ ''/reverse?lat='' @ lat_text @ ''&lon='' @
                       lon_text @ ''&format=json''"
      by simp
  qed
  have 3: "typeof (JNum NaN) = ''number'' \<and> typeof (JNum PosInf) = ''number'' \<and>
   typeof (JNum NegInf) = ''number''" by simp
  show ?thesis by (rule conjI[OF 1 conjI[OF 2 3]])
qed

theorem reverseGeocode_guards_witness:
  "nullish JNull \<and>
   fst (reverseGeocode number_to_string (respond True 200 ''OK'' None) JNull (JNum (Fin 13.4))
          empty_world) = Inr JNull \<and>
   requests (snd (reverseGeocode number_to_string (respond True 200 ''OK'' None) JNull
          (JNum (Fin 13.4)) empty_world)) = [] \<and>
   typeof (JStr ''x'') \<noteq> ''number'' \<and>
   fst (reverseGeocode number_to_string (respond True 200 ''OK'' None) (JStr ''x'')
          (JNum (Fin 13.4)) empty_world) = Inr JNull \<and>
   typeof (JNum (Fin 52.5)) = ''number'' \<and> typeof (JNum (Fin 13.4)) = ''number'' \<and>
   map req_url (requests (snd (reverseGeocode number_to_string (respond True 200 ''OK'' None)
          (JNum (Fin 52.5)) (JNum (Fin 13.4)) empty_world))) =
     [''https://nominatim.openstreetmap.org/reverse?lat=52.5&lon=13.4&format=json'']"
proof -
  note C1 = reverseGeocode_guards[THEN conjunct1, rule_format]
  note C2 = reverseGeocode_guards[THEN conjunct2, THEN conjunct1, rule_format]
  have a: "nullish JNull" by simp
  have b: "typeof (JStr ''x'') \<noteq> ''number''" by simp
  have c: "typeof (JNum (Fin 52.5)) = ''number''" "typeof (JNum (Fin 13.4)) = ''number''"
    by simp_all
  have e: "requests empty_world = []" by (simp add: empty_world_def)
  have s: "ToString number_to_string (JNum (Fin 52.5)) = Inr ''52.5''"
    "ToString number_to_string (JNum (Fin 13.4)) = Inr ''13.4''"
    by code_simp+
  from C1[of JNull "JNum (Fin 13.4)" number_to_string "respond True 200 ''OK'' None" empty_world]
    a e
  have 1: "fst (reverseGeocode number_to_string (respond True 200 ''OK'' None) JNull
      (JNum (Fin 13.4)) empty_world) = Inr JNull"
    "requests (snd (reverseGeocode number_to_string (respond True 200 ''OK'' None) JNull
          (JNum (Fin 13.4)) empty_world)) = []"
    by simp_all
  from C1[of "JStr ''x''" "JNum (Fin 13.4)" number_to_string "respond True 200 ''OK'' None"
      empty_world] b
  have 2: "fst (reverseGeocode number_to_string (respond True 200 ''OK'' None) (JStr ''x'')
          (JNum (Fin 13.4)) empty_world) = Inr JNull"
    by simp
  from C2[of "JNum (Fin 52.5)" "JNum (Fin 13.4)" number_to_string
      "respond True 200 ''OK'' None" empty_world] c e s
  have 3: "map req_url (requests (snd (reverseGeocode number_to_string
          (respond True 200 ''OK'' None) (JNum (Fin 52.5)) (JNum (Fin 13.4)) empty_world))) =
     [''https://nominatim.openstreetmap.org/reverse?lat=52.5&lon=13.4&format=json'']"
    by (auto simp: NOMINATIM_BASE_URL_def)
  show ?thesis
    by (rule conjI[OF a conjI[OF 1(1) conjI[OF 1(2) conjI[OF b conjI[OF 2 conjI[OF c(1)
          conjI[OF c(2) 3]]]]]]])
qed

text \<open>
  The claim fails for coordinates that are numbers but not finite: for \<^verbatim>\<open>NaN\<close> and
  13.4 the request is made, and for \<^verbatim>\<open>Infinity\<close> and 13.4 the answer of the service is
  returned.
\<close>

theorem reverseGeocode_nonfinite_counterexample:
  "map req_url (requests (snd (reverseGeocode number_to_string
      (respond False 400 ''Bad Request'' None) (JNum NaN) (JNum (Fin 13.4)) empty_world))) =
     [''https://nominatim.openstreetmap.org/reverse?lat=NaN&lon=13.4&format=json''] \<and>
   fst (reverseGeocode number_to_string
      (respond True 200 ''OK''
         (Some (JObj [(''address'', JObj [(''suburb'', JStr ''Mitte'')])])))
      (JNum PosInf) (JNum (Fin 13.4)) empty_world) \<noteq> Inr JNull"
  by code_simp

section \<open>Properties of getListings\<close>

lemma filter_throwing_total:
  assumes "\<forall>x\<in>set xs. f x = Inr (p x)"
  shows "filter_throwing f xs = Inr (filter p xs)"
  using assms by (induction xs) simp_all

lemma filter_throwing_fails:
  assumes "x \<in> set xs" "f x = Inl e"
  shows "\<exists>e'. filter_throwing f xs = Inl e'"
  using assms by (induction xs) (auto split: sum.splits)

lemma map_throwing_fails:
  assumes "x \<in> set xs" "f x = Inl e"
  shows "\<exists>e'. map_throwing f xs = Inl e'"
  using assms by (induction xs) (auto split: sum.splits)

lemma filter_throwing_error:
  "filter_throwing f xs = Inl e \<Longrightarrow> \<exists>x \<in> set xs. f x = Inl e"
  by (induction xs) (auto split: sum.splits)

lemma map_throwing_error:
  "map_throwing f xs = Inl e \<Longrightarrow> \<exists>x \<in> set xs. f x = Inl e"
  by (induction xs) (auto split: sum.splits)

lemma get_prop_error: "get_prop v k = Inl e \<Longrightarrow> e = TypeError"
  by (cases v) simp_all

lemma get_type_error:
  assumes "(case get_prop x ''type'' of Inl e \<Rightarrow> Inl e
            | Inr t \<Rightarrow> Inr (t = JStr ''EXPOSE_RESULT'')) = Inl e"
  shows "e = TypeError"
  using assms by (cases "get_prop x ''type''") (simp_all add: get_prop_error)

lemma get_type_total:
  assumes "\<not> nullish e"
  shows "(case get_prop e ''type'' of Inl e \<Rightarrow> Inl e | Inr t \<Rightarrow> Inr (t = JStr ''EXPOSE_RESULT'')) =
           Inr (is_expose e)"
  using assms by (cases e) (simp_all add: is_expose_def opt_prop_def)

lemma get_type_fails:
  assumes "nullish e"
  shows "(case get_prop e ''type'' of Inl e \<Rightarrow> Inl e | Inr t \<Rightarrow> Inr (t = JStr ''EXPOSE_RESULT'')) =
           Inl TypeError"
  using assms by (cases e) simp_all

lemma raw_item_ok:
  assumes "expose_ok e"
  shows "\<exists>ps. raw_item nts e = Inr (JObj ps) \<and>
           map fst ps = [''id'', ''price'', ''size'', ''title'', ''link'', ''address'']"
proof -
  from assms obtain ps where i: "opt_prop e ''item'' = JObj ps"
    by (auto simp: expose_ok_def split: jsval.splits)
  then have g: "get_prop e ''item'' = Inr (JObj ps)"
    by (cases e) (auto simp: opt_prop_def split: if_splits)
  from assms i have a: "(\<exists>xs. obj_prop ps ''attributes'' = JArr xs) \<or>
      (\<exists>s. obj_prop ps ''attributes'' = JStr s)"
    by (auto simp: expose_ok_def split: jsval.splits)
  from assms i have "printable (obj_prop ps ''id'')"
    by (auto simp: expose_ok_def split: jsval.splits)
  then have "printable (opt_prop (JObj ps) ''id'')"
    by (simp add: opt_prop_def obj_prop_def)
  from printable_text[OF this, of nts] obtain s where
    s: "ToString nts (opt_prop (JObj ps) ''id'') = Inr s" by blast
  from a g s show ?thesis
    by (auto simp: raw_item_def obj_prop_def destructure2_def)
qed

lemma raw_item_not_ok:
  assumes "\<not> expose_ok e"
  shows "raw_item nts e = Inl TypeError"
proof (cases "get_prop e ''item''")
  case (Inl err)
  then have "err = TypeError" by (rule get_prop_error)
  with Inl show ?thesis by (simp add: raw_item_def)
next
  case (Inr item)
  then have i: "opt_prop e ''item'' = item" by (simp add: opt_prop_def)
  show ?thesis
  proof (cases item)
    case (JObj ps)
    have g: "get_prop (JObj ps) ''attributes'' = Inr (obj_prop ps ''attributes'')"
      by (simp add: obj_prop_def)
    have o: "opt_prop (JObj ps) ''id'' = obj_prop ps ''id''"
      by (simp add: opt_prop_def obj_prop_def)
    show ?thesis
    proof (cases "(\<exists>xs. obj_prop ps ''attributes'' = JArr xs) \<or>
        (\<exists>s. obj_prop ps ''attributes'' = JStr s)")
      case True
      with assms i JObj have "\<not> printable (obj_prop ps ''id'')"
        by (auto simp: expose_ok_def)
      from not_printable_throws[OF this, of nts] o
      have t: "ToString nts (opt_prop (JObj ps) ''id'') = Inl TypeError" by simp
      from True t Inr JObj show ?thesis
        by (auto simp: raw_item_def obj_prop_def destructure2_def)
    next
      case False
      then have "destructure2 (obj_prop ps ''attributes'') = Inl TypeError"
        by (cases "obj_prop ps ''attributes''") (simp_all add: destructure2_def)
      with Inr JObj show ?thesis
        by (simp add: raw_item_def obj_prop_def)
    qed
  qed (use Inr in \<open>auto simp: raw_item_def destructure2_def\<close>)
qed

lemma raw_item_error: "raw_item nts x = Inl e \<Longrightarrow> e = TypeError"
proof (cases "expose_ok x")
  case True
  assume "raw_item nts x = Inl e"
  with raw_item_ok[OF True, of nts] show ?thesis by auto
next
  case False
  assume "raw_item nts x = Inl e"
  with raw_item_not_ok[OF False, of nts] show ?thesis by simp
qed

lemma getListings_not_ok:
  assumes "net (search_request u) = Resolved response" "\<not> resp_ok response"
  shows "getListings nts net u w =
           (Inr [],
            \<lparr>requests = requests w @ [search_request u],
             console = console w @
               [ConsoleError [Val (JStr ''Error fetching listings from ImmoScout Mobile API:''),
                              Val (JStr (resp_statusText response))]]\<rparr>)"
  using assms by (simp add: getListings_def fetch_def log_line_def search_request_def)

lemma getListings_ok:
  assumes "net (search_request u) = Resolved response" "resp_ok response"
    "resp_json response = Some b"
  shows "getListings nts net u w =
     (case get_prop b ''resultListItems'' of
        Inl e \<Rightarrow> Inl e
      | Inr (JArr xs) \<Rightarrow>
         (case filter_throwing
                 (\<lambda>item. case get_prop item ''type'' of
                            Inl e \<Rightarrow> Inl e
                          | Inr t \<Rightarrow> Inr (t = JStr ''EXPOSE_RESULT'')) xs of
            Inl e \<Rightarrow> Inl e
          | Inr exposes \<Rightarrow> map_throwing (raw_item nts) exposes)
      | Inr _ \<Rightarrow> Inl TypeError,
      w\<lparr>requests := requests w @ [search_request u]\<rparr>)"
  using assms
  by (auto simp: getListings_def fetch_def search_request_def split: sum.splits jsval.splits)

lemma listings_well_formed:
  assumes "list_all entry_ok xs"
  shows "\<exists>items.
    (case filter_throwing
            (\<lambda>item. case get_prop item ''type'' of
                       Inl e \<Rightarrow> Inl e
                     | Inr t \<Rightarrow> Inr (t = JStr ''EXPOSE_RESULT'')) xs of
       Inl e \<Rightarrow> Inl e
     | Inr exposes \<Rightarrow> map_throwing (raw_item nts) exposes) = Inr items \<and>
    length items = length (filter is_expose xs) \<and>
    (\<forall>it\<in>set items.
       raw_item_keys it = [''id'', ''price'', ''size'', ''title'', ''link'', ''address''])"
proof -
  let ?f = "\<lambda>item. case get_prop item ''type'' of
                       Inl e \<Rightarrow> Inl e
                     | Inr t \<Rightarrow> Inr (t = JStr ''EXPOSE_RESULT'')"
  let ?g = "\<lambda>e. case raw_item nts e of Inr v \<Rightarrow> v | Inl err \<Rightarrow> JUndefined"
  from assms have "\<forall>x\<in>set xs. ?f x = Inr (is_expose x)"
    by (auto simp: list_all_iff entry_ok_def get_type_total)
  then have f: "filter_throwing ?f xs = Inr (filter is_expose xs)"
    by (rule filter_throwing_total)
  from assms have ok: "\<forall>e\<in>set (filter is_expose xs). expose_ok e"
    by (auto simp: list_all_iff entry_ok_def)
  have "\<forall>e\<in>set (filter is_expose xs). raw_item nts e = Inr (?g e)"
  proof
    fix e assume "e \<in> set (filter is_expose xs)"
    with ok have "expose_ok e" by blast
    from raw_item_ok[OF this, of nts] show "raw_item nts e = Inr (?g e)" by auto
  qed
  then have m: "map_throwing (raw_item nts) (filter is_expose xs) =
      Inr (map ?g (filter is_expose xs))"
    by (rule map_throwing_total)
  have k: "\<forall>it\<in>set (map ?g (filter is_expose xs)).
       raw_item_keys it = [''id'', ''price'', ''size'', ''title'', ''link'', ''address'']"
  proof
    fix it assume "it \<in> set (map ?g (filter is_expose xs))"
    then obtain e where e: "e \<in> set (filter is_expose xs)" "it = ?g e" by auto
    with ok have "expose_ok e" by blast
    from raw_item_ok[OF this, of nts] e(2)
    show "raw_item_keys it = [''id'', ''price'', ''size'', ''title'', ''link'', ''address'']"
      by (auto simp: raw_item_keys_def)
  qed
  from f m k show ?thesis by simp
qed

lemma listings_malformed:
  assumes "\<not> list_all entry_ok xs"
  shows
    "(case filter_throwing
            (\<lambda>item. case get_prop item ''type'' of
                       Inl e \<Rightarrow> Inl e
                     | Inr t \<Rightarrow> Inr (t = JStr ''EXPOSE_RESULT'')) xs of
       Inl e \<Rightarrow> Inl e
     | Inr exposes \<Rightarrow> map_throwing (raw_item nts) exposes) = Inl TypeError"
proof -
  let ?f = "\<lambda>item. case get_prop item ''type'' of
                       Inl e \<Rightarrow> Inl e
                     | Inr t \<Rightarrow> Inr (t = JStr ''EXPOSE_RESULT'')"
  show ?thesis
  proof (cases "\<exists>x\<in>set xs. nullish x")
    case True
    then obtain x where x: "x \<in> set xs" "nullish x" by blast
    from get_type_fails[OF x(2)] have fx: "?f x = Inl TypeError" .
    from filter_throwing_fails[of x xs ?f, OF x(1) fx] obtain e' where
      e': "filter_throwing ?f xs = Inl e'" by blast
    from filter_throwing_error[OF e'] obtain y where "?f y = Inl e'" by blast
    then have "e' = TypeError" by (rule get_type_error)
    with e' show ?thesis by simp
  next
    case False
    then have "\<forall>x\<in>set xs. ?f x = Inr (is_expose x)"
      by (auto simp: get_type_total)
    then have f: "filter_throwing ?f xs = Inr (filter is_expose xs)"
      by (rule filter_throwing_total)
    from assms False obtain x where x: "x \<in> set xs" "is_expose x" "\<not> expose_ok x"
      by (auto simp: list_all_iff entry_ok_def split: if_splits)
    then have m: "x \<in> set (filter is_expose xs)" by simp
    from map_throwing_fails[of x "filter is_expose xs" "raw_item nts", OF m
        raw_item_not_ok[OF x(3)]]
    obtain e' where e': "map_throwing (raw_item nts) (filter is_expose xs) = Inl e'" by blast
    from map_throwing_error[OF e'] obtain y where "raw_item nts y = Inl e'" by blast
    then have "e' = TypeError" by (rule raw_item_error)
    with f e' show ?thesis by simp
  qed
qed

lemma getListings_well_formed:
  assumes "net (search_request u) = Resolved response" "resp_ok response"
    "resp_json response = Some b" "well_formed_body b"
  shows "\<exists>items. fst (getListings nts net u w) = Inr items \<and>
           length items = length (filter is_expose (elements (opt_prop b ''resultListItems''))) \<and>
           (\<forall>it\<in>set items.
              raw_item_keys it = [''id'', ''price'', ''size'', ''title'', ''link'', ''address''])"
proof -
  from assms(4) obtain xs where xs: "opt_prop b ''resultListItems'' = JArr xs"
      "list_all entry_ok xs"
    by (auto simp: well_formed_body_def split: jsval.splits)
  from xs(1) have g: "get_prop b ''resultListItems'' = Inr (JArr xs)"
    by (cases b) (auto simp: opt_prop_def split: if_splits)
  from listings_well_formed[OF xs(2), of nts] xs(1) g show ?thesis
    by (simp add: getListings_ok[where net=net and u=u, OF assms(1-3)] elements_def)
qed

lemma getListings_malformed:
  assumes "net (search_request u) = Resolved response" "resp_ok response"
    "resp_json response = Some b" "\<not> well_formed_body b"
  shows "fst (getListings nts net u w) = Inl TypeError"
proof (cases "get_prop b ''resultListItems''")
  case (Inl e)
  then have "e = TypeError" by (rule get_prop_error)
  with Inl show ?thesis by (simp add: getListings_ok[where net=net and u=u, OF assms(1-3)])
next
  case (Inr v)
  then have o: "opt_prop b ''resultListItems'' = v" by (simp add: opt_prop_def)
  show ?thesis
  proof (cases v)
    case (JArr xs)
    with assms(4) o have "\<not> list_all entry_ok xs" by (simp add: well_formed_body_def)
    from listings_malformed[OF this, of nts] Inr JArr show ?thesis
      by (simp add: getListings_ok[where net=net and u=u, OF assms(1-3)])
  qed (use Inr in \<open>simp_all add: getListings_ok[where net=net and u=u, OF assms(1-3)]\<close>)
qed

lemma getListings_not_json:
  assumes "net (search_request u) = Resolved response" "resp_ok response"
    "resp_json response = None"
  shows "fst (getListings nts net u w) = Inl SyntaxError"
  using assms by (simp add: getListings_def fetch_def search_request_def)

lemma getListings_rejected:
  assumes "net (search_request u) = Rejected"
  shows "fst (getListings nts net u w) = Inl NetworkError"
  using assms by (simp add: getListings_def fetch_def search_request_def)

lemma raw_item_missing_fields:
  assumes "ToString nts i = Inr id_text"
  shows "raw_item nts (JObj [(''type'', JStr ''EXPOSE_RESULT''),
                       (''item'', JObj [(''id'', i), (''attributes'', JArr [])])]) =
     Inr (JObj [(''id'', i), (''price'', JUndefined), (''size'', JUndefined),
                (''title'', JUndefined),
                (''link'', JStr (baseUrl @ ''expose/'' @ id_text)),
                (''address'', JUndefined)])"
  using assms by (simp add: raw_item_def destructure2_def element_def opt_prop_def)

text \<open>
  C3 (as amended). On a response whose status is not a success \<^verbatim>\<open>getListings\<close>
  returns the empty sequence, after one request and one line on the error console. On
  a success status it reads the body without a guard. For a body that is JSON, whose
  \<^verbatim>\<open>resultListItems\<close> is an array without \<^verbatim>\<open>null\<close> entries, and whose every
  \<^verbatim>\<open>EXPOSE_RESULT\<close> entry has an \<^verbatim>\<open>item\<close> object with \<^verbatim>\<open>attributes\<close> that are an array or
  a string and an \<^verbatim>\<open>id\<close> that can be converted to a string, it returns one raw item
  per \<^verbatim>\<open>EXPOSE_RESULT\<close> entry, with all six fields (a missing price, size, title or
  address is \<^verbatim>\<open>undefined\<close>). For every other JSON body it throws a TypeError, for a
  body that is not JSON a SyntaxError, and it throws when the request itself fails.
  The values that can be converted to a string are those without an object that has a
  \<^verbatim>\<open>toString\<close> property of its own.
\<close>

theorem getListings_empty_on_bad_status:
  "(\<forall>nts net u w response.
      net (search_request u) = Resolved response \<and> \<not> resp_ok response \<longrightarrow>
      getListings nts net u w =
        (Inr [],
         \<lparr>requests = requests w @ [search_request u],
          console = console w @
            [ConsoleError [Val (JStr ''Error fetching listings from ImmoScout Mobile API:''),
                           Val (JStr (resp_statusText response))]]\<rparr>)) \<and>
   (\<forall>nts net u w response b.
      net (search_request u) = Resolved response \<and> resp_ok response \<and>
      resp_json response = Some b \<and> well_formed_body b \<longrightarrow>
      (\<exists>items. fst (getListings nts net u w) = Inr items \<and>
         length items = length (filter is_expose (elements (opt_prop b ''resultListItems''))) \<and>
         (\<forall>it\<in>set items.
            raw_item_keys it = [''id'', ''price'', ''size'', ''title'', ''link'', ''address'']))) \<and>
   (\<forall>nts i id_text. ToString nts i = Inr id_text \<longrightarrow>
      raw_item nts (JObj [(''type'', JStr ''EXPOSE_RESULT''),
                       (''item'', JObj [(''id'', i), (''attributes'', JArr [])])]) =
      Inr (JObj [(''id'', i), (''price'', JUndefined), (''size'', JUndefined),
                (''title'', JUndefined),
                (''link'', JStr (baseUrl @ ''expose/'' @ id_text)),
                (''address'', JUndefined)])) \<and>
   (\<forall>nts net u w response b.
      net (search_request u) = Resolved response \<and> resp_ok response \<and>
      resp_json response = Some b \<and> \<not> well_formed_body b \<longrightarrow>
      fst (getListings nts net u w) = Inl TypeError) \<and>
   (\<forall>nts net u w response.
      net (search_request u) = Resolved response \<and> resp_ok response \<and>
      resp_json response = None \<longrightarrow>
      fst (getListings nts net u w) = Inl SyntaxError) \<and>
   (\<forall>nts net u w. net (search_request u) = Rejected \<longrightarrow>
      fst (getListings nts net u w) = Inl NetworkError) \<and>
   (\<forall>nts v. (\<exists>s. ToString nts v = Inr s) = printable v)"
proof -
  have 1: "\<forall>nts net u w response.
      net (search_request u) = Resolved response \<and> \<not> resp_ok response \<longrightarrow>
      getListings nts net u w =
        (Inr [],
         \<lparr>requests = requests w @ [search_request u],
          console = console w @
            [ConsoleError [Val (JStr ''Error fetching listings from ImmoScout Mobile API:''),
                           Val (JStr (resp_statusText response))]]\<rparr>)"
    by (intro allI impI, elim conjE, rule getListings_not_ok)
  have 2: "\<forall>nts net u w response b.
      net (search_request u) = Resolved response \<and> resp_ok response \<and>
      resp_json response = Some b \<and> well_formed_body b \<longrightarrow>
      (\<exists>items. fst (getListings nts net u w) = Inr items \<and>
         length items = length (filter is_expose (elements (opt_prop b ''resultListItems''))) \<and>
         (\<forall>it\<in>set items.
            raw_item_keys it = [''id'', ''price'', ''size'', ''title'', ''link'', ''address'']))"
    by (intro allI impI, elim conjE, rule getListings_well_formed)
  have 3: "\<forall>nts i id_text. ToString nts i = Inr id_text \<longrightarrow>
      raw_item nts (JObj [(''type'', JStr ''EXPOSE_RESULT''),
                       (''item'', JObj [(''id'', i), (''attributes'', JArr [])])]) =
      Inr (JObj [(''id'', i), (''price'', JUndefined), (''size'', JUndefined),
                (''title'', JUndefined),
                (''link'', JStr (baseUrl @ ''expose/'' @ id_text)),
                (''address'', JUndefined)])"
    by (intro allI impI, rule raw_item_missing_fields)
  have 4: "\<forall>nts net u w response b.
      net (search_request u) = Resolved response \<and> resp_ok response \<and>
      resp_json response = Some b \<and> \<not> well_formed_body b \<longrightarrow>
      fst (getListings nts net u w) = Inl TypeError"
    by (intro allI impI, elim conjE, rule getListings_malformed)
  have 5: "\<forall>nts net u w response.
      net (search_request u) = Resolved response \<and> resp_ok response \<and>
      resp_json response = None \<longrightarrow>
      fst (getListings nts net u w) = Inl SyntaxError"
    by (intro allI impI, elim conjE, rule getListings_not_json)
  have 6: "\<forall>nts net u w. net (search_request u) = Rejected \<longrightarrow>
      fst (getListings nts net u w) = Inl NetworkError"
    by (intro allI impI, rule getListings_rejected)
  have 7: "\<forall>nts v. (\<exists>s. ToString nts v = Inr s) = printable v"
    by (intro allI, rule ToString_printable)
  show ?thesis
    by (rule conjI[OF 1 conjI[OF 2 conjI[OF 3 conjI[OF 4 conjI[OF 5 conjI[OF 6 7]]]]]])
qed

theorem getListings_empty_on_bad_status_witness:
  "fst (getListings number_to_string (respond False 503 ''Service Unavailable'' None)
          sample_url empty_world) = Inr [] \<and>
   well_formed_body sample_body \<and>
   (\<exists>items. fst (getListings number_to_string (respond True 200 ''OK'' (Some sample_body))
                    sample_url empty_world) = Inr items \<and> length items = 1) \<and>
   \<not> well_formed_body unprintable_body \<and>
   fst (getListings number_to_string (respond True 200 ''OK'' (Some unprintable_body))
          sample_url empty_world) = Inl TypeError"
proof -
  note C1 = getListings_empty_on_bad_status[THEN conjunct1, rule_format]
  note C2 = getListings_empty_on_bad_status[THEN conjunct2, THEN conjunct1, rule_format]
  note C4 = getListings_empty_on_bad_status[THEN conjunct2, THEN conjunct2, THEN conjunct2,
      THEN conjunct1, rule_format]
  have r1: "respond False 503 ''Service Unavailable'' None (search_request sample_url) =
      Resolved \<lparr>resp_ok = False, resp_status = 503, resp_statusText = ''Service Unavailable'',
                resp_json = None\<rparr>"
    by (simp add: respond_def)
  have r2: "respond True 200 ''OK'' (Some b) (search_request sample_url) =
      Resolved \<lparr>resp_ok = True, resp_status = 200, resp_statusText = ''OK'',
                resp_json = Some b\<rparr>" for b
    by (simp add: respond_def)
  have wf: "well_formed_body sample_body"
    by code_simp
  have nwf: "\<not> well_formed_body unprintable_body"
    by code_simp
  have n: "length (filter is_expose (elements (opt_prop sample_body ''resultListItems''))) = 1"
    by code_simp
  have 1: "fst (getListings number_to_string (respond False 503 ''Service Unavailable'' None)
          sample_url empty_world) = Inr []"
    using C1[where net="respond False 503 ''Service Unavailable'' None" and u=sample_url
        and nts=number_to_string and w=empty_world, OF conjI[OF r1]]
    by simp
  have 2: "\<exists>items. fst (getListings number_to_string (respond True 200 ''OK'' (Some sample_body))
                    sample_url empty_world) = Inr items \<and> length items = 1"
    using C2[where net="respond True 200 ''OK'' (Some sample_body)" and u=sample_url
        and nts=number_to_string and w=empty_world and b=sample_body,
        OF conjI[OF r2 conjI[OF _ conjI[OF _ wf]]]] n
    by auto
  have 3: "fst (getListings number_to_string (respond True 200 ''OK'' (Some unprintable_body))
                 sample_url empty_world) = Inl TypeError"
    using C4[where net="respond True 200 ''OK'' (Some unprintable_body)"
        and u=sample_url and nts=number_to_string and w=empty_world
        and b=unprintable_body,
        OF conjI[OF r2 conjI[OF _ conjI[OF _ nwf]]]]
    by auto
  show ?thesis by (rule conjI[OF 1 conjI[OF wf conjI[OF 2 conjI[OF nwf 3]]]])
qed

text \<open>
  The claim fails on a success response with an unexpected body: for the body \<^verbatim>\<open>{}\<close>
  \<^verbatim>\<open>getListings\<close> throws a TypeError, and for a body that is not JSON a SyntaxError.
\<close>

theorem getListings_malformed_counterexample:
  "fst (getListings number_to_string (respond True 200 ''OK'' (Some (JObj [])))
          sample_url empty_world) = Inl TypeError \<and>
   fst (getListings number_to_string (respond True 200 ''OK'' None)
          sample_url empty_world) = Inl SyntaxError"
  by code_simp

section \<open>Properties of getListingInfo\<close>

lemmas listing_info_defs =
  getListingInfo_def fetch_def expose_request_def rooms_of_def location_of_def suburb_of_def
  salutation_of_def Let_def case_prod_beta

lemma getSuburb_returns: "\<exists>v. fst (getSuburb nts net lat lon w) = Inr v"
proof -
  from reverseGeocode_returns[of nts net lat lon w] obtain v where
    "fst (reverseGeocode nts net lat lon w) = Inr v" by blast
  then show ?thesis by (simp add: getSuburb_def split_beta split: prod.split)
qed

lemma getSuburb_case:
  "(case fst (getSuburb nts net lat lon w) of Inl e \<Rightarrow> f e | Inr s \<Rightarrow> g s) =
     g (projr (fst (getSuburb nts net lat lon w)))"
proof -
  from getSuburb_returns[of nts net lat lon w] obtain v where
    "fst (getSuburb nts net lat lon w) = Inr v" by blast
  then show ?thesis by simp
qed

lemma suburb_of_returns: "\<exists>v. fst (suburb_of nts net ms w) = Inr v"
  using getSuburb_returns by (simp add: suburb_of_def)

lemma getListingInfo_unprintable:
  assumes "ToString nts listingId = Inl e"
  shows "getListingInfo nts net listingId w = (Inl e, w)"
  using assms by (simp add: getListingInfo_def)

lemma getListingInfo_ok:
  assumes "ToString nts listingId = Inr id_text"
    "net (expose_request id_text) = Resolved response" "resp_ok response"
    "resp_json response = Some b"
  shows "getListingInfo nts net listingId w =
     (let w1 = w\<lparr>requests := requests w @ [expose_request id_text]\<rparr>
      in case get_prop b ''sections'' of
           Inl e \<Rightarrow> (Inl e, w1)
         | Inr sections \<Rightarrow>
            (case rooms_of nts sections of
               Inl e \<Rightarrow> (Inl e, w1)
             | Inr rc \<Rightarrow>
                (case location_of sections of
                   Inl e \<Rightarrow> (Inl e, w1)
                 | Inr ms \<Rightarrow>
                    (Inr (Some \<lparr>info_id = listingId, roomCount = rc,
                                 suburb = projr (fst (suburb_of nts net ms w1)),
                                 salutation = salutation_of (opt_prop b ''contact'')\<rparr>),
                     snd (suburb_of nts net ms w1)))))"
proof -
  from assms(2) have n: "net \<lparr>req_url = ''https://api.mobile.immobilienscout24.de/expose/'' @
      id_text, req_method = ''GET'', req_headers = defaultHeaders,
      req_body = None\<rparr> = Resolved response"
    by (simp add: expose_request_def)
  note i = assms(1)
  show ?thesis
  proof (cases "get_prop b ''sections''")
    case (Inl e)
    with i n assms(3,4) show ?thesis by (simp add: listing_info_defs)
  next
    case (Inr sections)
    note s = this
    show ?thesis
    proof (cases "opt_find_by ''type'' ''TOP_ATTRIBUTES'' sections")
      case (Inl e)
      with i s n assms(3,4) show ?thesis by (simp add: listing_info_defs)
    next
      case (Inr tas)
      note t = this
      show ?thesis
      proof (cases "truthy tas")
        case False
        with i t s n assms(3,4) show ?thesis
          by (cases "opt_find_by ''type'' ''MAP'' sections")
            (simp_all add: listing_info_defs getSuburb_case)
      next
        case True
        note tt = this
        show ?thesis
        proof (cases "opt_find_by ''label'' ''Zimmer'' (opt_prop tas ''attributes'')")
          case (Inl e)
          with i tt t s n assms(3,4) show ?thesis by (simp add: listing_info_defs)
        next
          case (Inr ra)
          note r = this
          show ?thesis
          proof (cases "truthy ra")
            case False
            with i r tt t s n assms(3,4) show ?thesis
              by (cases "opt_find_by ''type'' ''MAP'' sections")
                (simp_all add: listing_info_defs getSuburb_case)
          next
            case True
            note rt = this
            show ?thesis
            proof (cases "parseInt nts (opt_prop ra ''text'')")
              case (Inl e)
              with i rt r tt t s n assms(3,4) show ?thesis by (simp add: listing_info_defs)
            next
              case (Inr k)
              with i rt r tt t s n assms(3,4) show ?thesis
                by (cases "opt_find_by ''type'' ''MAP'' sections")
                  (simp_all add: listing_info_defs getSuburb_case)
            qed
          qed
        qed
      qed
    qed
  qed
qed

lemma getListingInfo_other:
  assumes "ToString nts listingId = Inr id_text"
    "net (expose_request id_text) = net' (expose_request id_text)"
    "\<not> (\<exists>response b. net (expose_request id_text) = Resolved response \<and>
          resp_ok response \<and> resp_json response = Some b)"
  shows "getListingInfo nts net listingId w = getListingInfo nts net' listingId w"
proof -
  let ?r = "\<lparr>req_url = ''https://api.mobile.immobilienscout24.de/expose/'' @
      id_text, req_method = ''GET'', req_headers = defaultHeaders,
      req_body = None\<rparr>"
  note i = assms(1)
  from assms(2) have e: "net' ?r = net ?r" by (simp add: expose_request_def)
  show ?thesis
  proof (cases "net ?r")
    case Rejected
    with i e show ?thesis by (simp add: getListingInfo_def fetch_def)
  next
    case (Resolved response)
    show ?thesis
    proof (cases "resp_ok response")
      case False
      with i Resolved e show ?thesis by (simp add: getListingInfo_def fetch_def)
    next
      case True
      with Resolved assms(3) have "resp_json response = None"
        by (cases "resp_json response") (auto simp: expose_request_def)
      with i True Resolved e show ?thesis by (simp add: getListingInfo_def fetch_def)
    qed
  qed
qed

lemma geocoder_independent:
  assumes "ToString nts listingId = Inr id_text"
    "net (expose_request id_text) = net' (expose_request id_text)"
  shows "drop_suburb (fst (getListingInfo nts net listingId w)) =
         drop_suburb (fst (getListingInfo nts net' listingId w))"
proof (cases "\<exists>response b. net (expose_request id_text) = Resolved response \<and>
          resp_ok response \<and> resp_json response = Some b")
  case False
  from getListingInfo_other[where net=net and net'=net' and nts=nts and listingId=listingId,
      OF assms False]
  show ?thesis by simp
next
  case True
  then obtain response b where r: "net (expose_request id_text) = Resolved response"
      "resp_ok response" "resp_json response = Some b"
    by blast
  from r(1) assms(2) have r': "net' (expose_request id_text) = Resolved response" by simp
  show ?thesis
    unfolding getListingInfo_ok[where net=net and nts=nts and listingId=listingId,
        OF assms(1) r]
      getListingInfo_ok[where net=net' and nts=nts and listingId=listingId,
        OF assms(1) r' r(2,3)]
    by (simp add: Let_def drop_suburb_def split: sum.splits)
qed

lemma getListingInfo_parts:
  assumes "ToString nts listingId = Inr id_text"
    "net (expose_request id_text) = Resolved response" "resp_ok response"
    "resp_json response = Some b" "getListingInfo nts net listingId w = (Inr (Some info), w')"
  obtains sections ms where "get_prop b ''sections'' = Inr sections"
    "rooms_of nts sections = Inr (roomCount info)" "location_of sections = Inr ms"
    "suburb info =
       projr (fst (suburb_of nts net ms
                     (w\<lparr>requests := requests w @ [expose_request id_text]\<rparr>)))"
    "salutation info = salutation_of (opt_prop b ''contact'')" "info_id info = listingId"
proof -
  note u = getListingInfo_ok[where net=net and nts=nts and listingId=listingId and w=w,
      OF assms(1-4)]
  from assms(5) u obtain sections where s: "get_prop b ''sections'' = Inr sections"
    by (cases "get_prop b ''sections''") (simp_all add: Let_def)
  from assms(5) u s obtain rc where rc: "rooms_of nts sections = Inr rc"
    by (cases "rooms_of nts sections") (simp_all add: Let_def)
  from assms(5) u s rc obtain ms where ms: "location_of sections = Inr ms"
    by (cases "location_of sections") (simp_all add: Let_def)
  from assms(5) u s rc ms have
    "info = \<lparr>info_id = listingId, roomCount = rc,
       suburb = projr (fst (suburb_of nts net ms
                  (w\<lparr>requests := requests w @ [expose_request id_text]\<rparr>))),
       salutation = salutation_of (opt_prop b ''contact'')\<rparr>"
    by (simp add: Let_def)
  with s rc ms show thesis using that by simp
qed

lemma rooms_of_found:
  assumes "opt_find_by ''type'' ''TOP_ATTRIBUTES'' sections = Inr tas" "truthy tas"
    "opt_find_by ''label'' ''Zimmer'' (opt_prop tas ''attributes'') = Inr ra" "truthy ra"
  shows "rooms_of nts sections =
     (case parseInt nts (opt_prop ra ''text'') of Inl e \<Rightarrow> Inl e | Inr n \<Rightarrow> Inr (JNum n))"
  using assms by (simp add: rooms_of_def)

lemma parseInt10_NaN: "(parseInt10 s = NaN) = (\<not> integer_prefix s)"
proof -
  define t where "t = dropWhile is_space s"
  have p: "parseInt10 s =
      (if takeWhile is_digit
            (case t of [] \<Rightarrow> t | c # cs \<Rightarrow> if c = CHR ''-'' \<or> c = CHR ''+'' then cs else t) = []
       then NaN
       else Fin (of_int ((case t of [] \<Rightarrow> 1 | c # cs \<Rightarrow> if c = CHR ''-'' then - 1 else 1) *
              int (digits_value (takeWhile is_digit
                (case t of [] \<Rightarrow> t
                 | c # cs \<Rightarrow> if c = CHR ''-'' \<or> c = CHR ''+'' then cs else t))))))"
    unfolding parseInt10_def Let_def t_def ..
  have i: "integer_prefix s =
      (case t of [] \<Rightarrow> False
       | c # cs \<Rightarrow> if c = CHR ''-'' \<or> c = CHR ''+''
                  then (case cs of [] \<Rightarrow> False | d # ds \<Rightarrow> is_digit d) else is_digit c)"
    unfolding integer_prefix_def t_def ..
  show ?thesis
  proof (cases t)
    case Nil
    then show ?thesis unfolding p i by simp
  next
    case (Cons c cs)
    then show ?thesis unfolding p i by (cases cs) (auto simp: takeWhile_eq_Nil_iff)
  qed
qed

lemma find_by_total:
  assumes "list_all (\<lambda>x. \<not> nullish x) xs"
  shows "\<exists>v. find_by k val xs = Inr v \<and> (v = JUndefined \<or> v \<in> set xs)"
  using assms
proof (induction xs)
  case Nil
  then show ?case by simp
next
  case (Cons x xs)
  then obtain t where "get_prop x k = Inr t" by (cases x) auto
  with Cons show ?case by auto
qed

lemma opt_find_by_total:
  assumes "clean_array v"
  shows "\<exists>r. opt_find_by k val v = Inr r \<and> (r = JUndefined \<or> r \<in> set (elements v))"
proof (cases "nullish v")
  case True
  then show ?thesis by (simp add: opt_find_by_def)
next
  case False
  with assms obtain xs where xs: "v = JArr xs" "list_all (\<lambda>x. \<not> nullish x) xs"
    by (cases v) (auto simp: clean_array_def)
  from find_by_total[OF xs(2), of k val] xs(1) show ?thesis
    by (simp add: opt_find_by_def elements_def)
qed

lemma rooms_of_total:
  assumes "clean_array sections" "list_all section_ok (elements sections)"
  shows "\<exists>rc. rooms_of nts sections = Inr rc"
proof -
  from opt_find_by_total[OF assms(1), of "''type''" "''TOP_ATTRIBUTES''"] obtain tas where
    t: "opt_find_by ''type'' ''TOP_ATTRIBUTES'' sections = Inr tas"
       "tas = JUndefined \<or> tas \<in> set (elements sections)"
    by blast
  show ?thesis
  proof (cases "truthy tas")
    case False
    with t(1) show ?thesis by (simp add: rooms_of_def)
  next
    case True
    with t(2) have "tas \<in> set (elements sections)" by auto
    with assms(2) have ok: "section_ok tas" by (simp add: list_all_iff)
    then have "clean_array (opt_prop tas ''attributes'')" by (simp add: section_ok_def)
    from opt_find_by_total[OF this, of "''label''" "''Zimmer''"] obtain ra where
      ra: "opt_find_by ''label'' ''Zimmer'' (opt_prop tas ''attributes'') = Inr ra"
        "ra = JUndefined \<or> ra \<in> set (elements (opt_prop tas ''attributes''))"
      by blast
    show ?thesis
    proof (cases "truthy ra")
      case False
      with ra(1) True t(1) show ?thesis by (simp add: rooms_of_def)
    next
      case rt: True
      with ra(2) have "ra \<in> set (elements (opt_prop tas ''attributes''))" by auto
      with ok have "printable (opt_prop ra ''text'')"
        by (simp add: section_ok_def list_all_iff)
      from printable_text[OF this, of nts] obtain s where
        "ToString nts (opt_prop ra ''text'') = Inr s" by blast
      with rt ra(1) True t(1) show ?thesis by (simp add: rooms_of_def parseInt_def)
    qed
  qed
qed

lemma getListingInfo_returns:
  assumes "ToString nts listingId = Inr id_text"
    "net (expose_request id_text) = Resolved response" "resp_ok response"
    "resp_json response = Some b" "well_formed_detail b"
  shows "\<exists>info w'. getListingInfo nts net listingId w = (Inr (Some info), w')"
proof -
  from assms(5) have nb: "\<not> nullish b" and c: "clean_array (opt_prop b ''sections'')"
    and a: "list_all section_ok (elements (opt_prop b ''sections''))"
    by (simp_all add: well_formed_detail_def)
  from nb have s: "get_prop b ''sections'' = Inr (opt_prop b ''sections'')"
    by (cases b) (simp_all add: opt_prop_def)
  from rooms_of_total[OF c a, of nts] obtain rc where
    rc: "rooms_of nts (opt_prop b ''sections'') = Inr rc" by blast
  from opt_find_by_total[OF c, of "''type''" "''MAP''"] obtain ms where
    ms: "location_of (opt_prop b ''sections'') = Inr ms"
    by (auto simp: location_of_def)
  from s rc ms show ?thesis
    by (simp add: getListingInfo_ok[where net=net and nts=nts and listingId=listingId,
          OF assms(1-4)] Let_def)
qed

lemma reverseGeocode_net:
  assumes "\<And>u. net' (geocode_request u) = net (geocode_request u)"
  shows "reverseGeocode nts net' lat lon w = reverseGeocode nts net lat lon w"
proof -
  have t: "\<And>u w. throttledFetch net' u w = throttledFetch net u w"
    using assms by (simp add: throttledFetch_def fetch_def geocode_request_def)
  show ?thesis unfolding reverseGeocode_def t ..
qed

lemma suburb_of_net:
  assumes "\<And>u. net' (geocode_request u) = net (geocode_request u)"
  shows "suburb_of nts net' ms w = suburb_of nts net ms w"
  using reverseGeocode_net[where net=net and net'=net', OF assms]
  by (simp add: suburb_of_def getSuburb_def)

lemma geocode_not_expose: "geocode_request u \<noteq> expose_request id_text"
  by (simp add: geocode_request_def expose_request_def defaultHeaders_def)

lemma contact_independent:
  assumes "ToString nts listingId = Inr id_text"
    "net (expose_request id_text) = Resolved response" "resp_ok response"
    "resp_json response = Some b" "resp_ok response'" "resp_json response' = Some b'"
    "get_prop b ''sections'' = get_prop b' ''sections''"
  shows "drop_salutation (fst (getListingInfo nts net listingId w)) =
         drop_salutation
           (fst (getListingInfo nts (net(expose_request id_text := Resolved response'))
                   listingId w))"
proof -
  let ?net' = "net(expose_request id_text := Resolved response')"
  have r': "?net' (expose_request id_text) = Resolved response'" by simp
  have g: "\<And>u. ?net' (geocode_request u) = net (geocode_request u)"
    using geocode_not_expose by simp
  note s = suburb_of_net[where net=net and net'="?net'", OF g]
  show ?thesis
    unfolding getListingInfo_ok[where net=net and nts=nts and listingId=listingId,
        OF assms(1-4)]
      getListingInfo_ok[where net="?net'" and nts=nts and listingId=listingId,
        OF assms(1) r' assms(5,6)]
    using assms(7) by (simp add: Let_def drop_salutation_def s split: sum.splits)
qed

lemma rooms_number:
  assumes "ToString nts listingId = Inr id_text"
    "net (expose_request id_text) = Resolved response" "resp_ok response"
    "resp_json response = Some b" "get_prop b ''sections'' = Inr sections"
    "opt_find_by ''type'' ''TOP_ATTRIBUTES'' sections = Inr tas" "truthy tas"
    "opt_find_by ''label'' ''Zimmer'' (opt_prop tas ''attributes'') = Inr ra" "truthy ra"
    "getListingInfo nts net listingId w = (Inr (Some info), w')"
  shows "\<exists>s. ToString nts (opt_prop ra ''text'') = Inr s \<and>
           parseInt nts (opt_prop ra ''text'') = Inr (parseInt10 s) \<and>
           roomCount info = JNum (parseInt10 s) \<and>
           (parseInt10 s = NaN) = (\<not> integer_prefix s)"
proof -
  from assms(1-4,10) obtain s where s: "get_prop b ''sections'' = Inr s"
      "rooms_of nts s = Inr (roomCount info)"
    by (rule getListingInfo_parts)
  with assms(5) have "s = sections" by simp
  with s(2) rooms_of_found[OF assms(6-9), of nts]
  have r: "(case parseInt nts (opt_prop ra ''text'') of Inl e \<Rightarrow> Inl e
            | Inr n \<Rightarrow> Inr (JNum n)) = Inr (roomCount info)"
    by simp
  show ?thesis
  proof (cases "ToString nts (opt_prop ra ''text'')")
    case (Inl e)
    with r show ?thesis by (simp add: parseInt_def)
  next
    case (Inr t)
    with r have "roomCount info = JNum (parseInt10 t)" by (simp add: parseInt_def)
    with Inr show ?thesis by (simp add: parseInt10_NaN parseInt_def)
  qed
qed

lemma rooms_throw:
  assumes "ToString nts listingId = Inr id_text"
    "net (expose_request id_text) = Resolved response" "resp_ok response"
    "resp_json response = Some b" "get_prop b ''sections'' = Inr sections"
    "rooms_of nts sections = Inl e"
  shows "fst (getListingInfo nts net listingId w) = Inl e"
  using assms(5,6)
  by (simp add: getListingInfo_ok[where net=net and nts=nts and listingId=listingId,
        OF assms(1-4)] Let_def)

lemma salutation_of_contact:
  assumes "ToString nts listingId = Inr id_text"
    "net (expose_request id_text) = Resolved response" "resp_ok response"
    "resp_json response = Some b"
    "net' (expose_request id_text) = Resolved response'" "resp_ok response'"
    "resp_json response' = Some b'" "opt_prop b ''contact'' = opt_prop b' ''contact''"
    "getListingInfo nts net listingId w = (Inr (Some info), v)"
    "getListingInfo nts net' listingId w2 = (Inr (Some info'), v')"
  shows "salutation info = salutation info'"
proof -
  from assms(1-4,9) have "salutation info = salutation_of (opt_prop b ''contact'')"
    by (rule getListingInfo_parts)
  moreover from assms(1,5-7,10)
  have "salutation info' = salutation_of (opt_prop b' ''contact'')"
    by (rule getListingInfo_parts)
  ultimately show ?thesis using assms(8) by simp
qed

text \<open>
  C6 (as amended). When the rooms attribute is present and \<^verbatim>\<open>getListingInfo\<close>
  returns, \<^verbatim>\<open>roomCount\<close> is the number \<^verbatim>\<open>parseInt\<close> gives for the text of the attribute,
  which is \<^verbatim>\<open>NaN\<close> exactly when the text does not start with an integer; it is not
  \<^verbatim>\<open>null\<close>. The call returns for every listing id that can be converted to a string
  and every detail response whose sections and attributes are arrays without \<^verbatim>\<open>null\<close>
  entries (or are missing) and whose attribute texts can be converted to a string; an
  exception of the room count extraction leaves the call, and no field is returned.
  The three extractions read different parts of the input: whatever the geocoder
  answers, the result is the same but for \<^verbatim>\<open>suburb\<close>; two responses with the same
  sections give the same result but for \<^verbatim>\<open>salutation\<close>; two responses with the same
  contact give the same \<^verbatim>\<open>salutation\<close>. The values that can be converted to a
  string are those without an object that has a \<^verbatim>\<open>toString\<close> property of its own.
\<close>

theorem getListingInfo_roomCount_number:
  "(\<forall>nts net listingId id_text w response b sections tas ra info w'.
      ToString nts listingId = Inr id_text \<and>
      net (expose_request id_text) = Resolved response \<and> resp_ok response \<and>
      resp_json response = Some b \<and> get_prop b ''sections'' = Inr sections \<and>
      opt_find_by ''type'' ''TOP_ATTRIBUTES'' sections = Inr tas \<and> truthy tas \<and>
      opt_find_by ''label'' ''Zimmer'' (opt_prop tas ''attributes'') = Inr ra \<and> truthy ra \<and>
      getListingInfo nts net listingId w = (Inr (Some info), w') \<longrightarrow>
      (\<exists>s. ToString nts (opt_prop ra ''text'') = Inr s \<and>
         parseInt nts (opt_prop ra ''text'') = Inr (parseInt10 s) \<and>
         roomCount info = JNum (parseInt10 s) \<and>
         (parseInt10 s = NaN) = (\<not> integer_prefix s))) \<and>
   (\<forall>nts net listingId id_text w response b.
      ToString nts listingId = Inr id_text \<and>
      net (expose_request id_text) = Resolved response \<and> resp_ok response \<and>
      resp_json response = Some b \<and> well_formed_detail b \<longrightarrow>
      (\<exists>info w'. getListingInfo nts net listingId w = (Inr (Some info), w'))) \<and>
   (\<forall>nts net listingId id_text w response b sections e.
      ToString nts listingId = Inr id_text \<and>
      net (expose_request id_text) = Resolved response \<and> resp_ok response \<and>
      resp_json response = Some b \<and> get_prop b ''sections'' = Inr sections \<and>
      rooms_of nts sections = Inl e \<longrightarrow>
      fst (getListingInfo nts net listingId w) = Inl e) \<and>
   (\<forall>nts net net' listingId id_text w.
      ToString nts listingId = Inr id_text \<and>
      net (expose_request id_text) = net' (expose_request id_text) \<longrightarrow>
      drop_suburb (fst (getListingInfo nts net listingId w)) =
      drop_suburb (fst (getListingInfo nts net' listingId w))) \<and>
   (\<forall>nts net listingId id_text w response b response' b'.
      ToString nts listingId = Inr id_text \<and>
      net (expose_request id_text) = Resolved response \<and> resp_ok response \<and>
      resp_json response = Some b \<and> resp_ok response' \<and> resp_json response' = Some b' \<and>
      get_prop b ''sections'' = get_prop b' ''sections'' \<longrightarrow>
      drop_salutation (fst (getListingInfo nts net listingId w)) =
      drop_salutation
        (fst (getListingInfo nts (net(expose_request id_text := Resolved response'))
                listingId w))) \<and>
   (\<forall>nts net net' listingId id_text w w2 response b response' b' info info' v v'.
      ToString nts listingId = Inr id_text \<and>
      net (expose_request id_text) = Resolved response \<and> resp_ok response \<and>
      resp_json response = Some b \<and>
      net' (expose_request id_text) = Resolved response' \<and> resp_ok response' \<and>
      resp_json response' = Some b' \<and> opt_prop b ''contact'' = opt_prop b' ''contact'' \<and>
      getListingInfo nts net listingId w = (Inr (Some info), v) \<and>
      getListingInfo nts net' listingId w2 = (Inr (Some info'), v') \<longrightarrow>
      salutation info = salutation info') \<and>
   (\<forall>nts v. (\<exists>s. ToString nts v = Inr s) = printable v)"
proof -
  have 1: "\<forall>nts net listingId id_text w response b sections tas ra info w'.
      ToString nts listingId = Inr id_text \<and>
      net (expose_request id_text) = Resolved response \<and> resp_ok response \<and>
      resp_json response = Some b \<and> get_prop b ''sections'' = Inr sections \<and>
      opt_find_by ''type'' ''TOP_ATTRIBUTES'' sections = Inr tas \<and> truthy tas \<and>
      opt_find_by ''label'' ''Zimmer'' (opt_prop tas ''attributes'') = Inr ra \<and> truthy ra \<and>
      getListingInfo nts net listingId w = (Inr (Some info), w') \<longrightarrow>
      (\<exists>s. ToString nts (opt_prop ra ''text'') = Inr s \<and>
         parseInt nts (opt_prop ra ''text'') = Inr (parseInt10 s) \<and>
         roomCount info = JNum (parseInt10 s) \<and>
         (parseInt10 s = NaN) = (\<not> integer_prefix s))"
  proof (intro allI impI, elim conjE)
    fix nts net listingId id_text w response b sections tas ra info w'
    assume a: "ToString nts listingId = Inr id_text"
      "net (expose_request id_text) = Resolved response" "resp_ok response"
      "resp_json response = Some b" "get_prop b ''sections'' = Inr sections"
      "opt_find_by ''type'' ''TOP_ATTRIBUTES'' sections = Inr tas" "truthy tas"
      "opt_find_by ''label'' ''Zimmer'' (opt_prop tas ''attributes'') = Inr ra" "truthy ra"
      "getListingInfo nts net listingId w = (Inr (Some info), w')"
    show "\<exists>s. ToString nts (opt_prop ra ''text'') = Inr s \<and>
         parseInt nts (opt_prop ra ''text'') = Inr (parseInt10 s) \<and>
         roomCount info = JNum (parseInt10 s) \<and>
         (parseInt10 s = NaN) = (\<not> integer_prefix s)"
      by (rule rooms_number[OF a])
  qed
  have 2: "\<forall>nts net listingId id_text w response b.
      ToString nts listingId = Inr id_text \<and>
      net (expose_request id_text) = Resolved response \<and> resp_ok response \<and>
      resp_json response = Some b \<and> well_formed_detail b \<longrightarrow>
      (\<exists>info w'. getListingInfo nts net listingId w = (Inr (Some info), w'))"
    by (intro allI impI, elim conjE, rule getListingInfo_returns)
  have 3: "\<forall>nts net listingId id_text w response b sections e.
      ToString nts listingId = Inr id_text \<and>
      net (expose_request id_text) = Resolved response \<and> resp_ok response \<and>
      resp_json response = Some b \<and> get_prop b ''sections'' = Inr sections \<and>
      rooms_of nts sections = Inl e \<longrightarrow>
      fst (getListingInfo nts net listingId w) = Inl e"
    by (intro allI impI, elim conjE, rule rooms_throw)
  have 4: "\<forall>nts net net' listingId id_text w.
      ToString nts listingId = Inr id_text \<and>
      net (expose_request id_text) = net' (expose_request id_text) \<longrightarrow>
      drop_suburb (fst (getListingInfo nts net listingId w)) =
      drop_suburb (fst (getListingInfo nts net' listingId w))"
    by (intro allI impI, elim conjE, rule geocoder_independent)
  have 5: "\<forall>nts net listingId id_text w response b response' b'.
      ToString nts listingId = Inr id_text \<and>
      net (expose_request id_text) = Resolved response \<and> resp_ok response \<and>
      resp_json response = Some b \<and> resp_ok response' \<and> resp_json response' = Some b' \<and>
      get_prop b ''sections'' = get_prop b' ''sections'' \<longrightarrow>
      drop_salutation (fst (getListingInfo nts net listingId w)) =
      drop_salutation
        (fst (getListingInfo nts (net(expose_request id_text := Resolved response'))
                listingId w))"
    by (intro allI impI, elim conjE, rule contact_independent)
  have 6: "\<forall>nts net net' listingId id_text w w2 response b response' b' info info' v v'.
      ToString nts listingId = Inr id_text \<and>
      net (expose_request id_text) = Resolved response \<and> resp_ok response \<and>
      resp_json response = Some b \<and>
      net' (expose_request id_text) = Resolved response' \<and> resp_ok response' \<and>
      resp_json response' = Some b' \<and> opt_prop b ''contact'' = opt_prop b' ''contact'' \<and>
      getListingInfo nts net listingId w = (Inr (Some info), v) \<and>
      getListingInfo nts net' listingId w2 = (Inr (Some info'), v') \<longrightarrow>
      salutation info = salutation info'"
    by (intro allI impI, elim conjE, rule salutation_of_contact)
  have 7: "\<forall>nts v. (\<exists>s. ToString nts v = Inr s) = printable v"
    by (intro allI, rule ToString_printable)
  show ?thesis
    by (rule conjI[OF 1 conjI[OF 2 conjI[OF 3 conjI[OF 4 conjI[OF 5 conjI[OF 6 7]]]]]])
qed

theorem getListingInfo_roomCount_number_witness:
  "well_formed_detail (sample_detail ''abc'') \<and> \<not> integer_prefix ''abc'' \<and>
   (\<exists>info w'.
      getListingInfo number_to_string (respond True 200 ''OK'' (Some (sample_detail ''abc'')))
        (JStr ''160521994'') empty_world = (Inr (Some info), w') \<and>
      roomCount info = JNum NaN)"
proof -
  note A = getListingInfo_roomCount_number[THEN conjunct1, rule_format]
  note B = getListingInfo_roomCount_number[THEN conjunct2, THEN conjunct1, rule_format]
  let ?net = "respond True 200 ''OK'' (Some (sample_detail ''abc''))"
  let ?ra = "JObj [(''label'', JStr ''Zimmer''), (''text'', JStr ''abc'')]"
  have i: "ToString number_to_string (JStr ''160521994'') = Inr ''160521994''" by simp
  have r: "?net (expose_request ''160521994'') =
      Resolved \<lparr>resp_ok = True, resp_status = 200, resp_statusText = ''OK'',
                resp_json = Some (sample_detail ''abc'')\<rparr>"
    by (simp add: respond_def)
  have wf: "well_formed_detail (sample_detail ''abc'')" by code_simp
  have np: "\<not> integer_prefix ''abc''" by code_simp
  have s: "get_prop (sample_detail ''abc'') ''sections'' = Inr (JArr [sample_rooms ''abc''])"
    by (simp add: sample_detail_def)
  have t: "opt_find_by ''type'' ''TOP_ATTRIBUTES'' (JArr [sample_rooms ''abc'']) =
      Inr (sample_rooms ''abc'')"
    by code_simp
  have tt: "truthy (sample_rooms ''abc'')" by (simp add: sample_rooms_def)
  have a: "opt_find_by ''label'' ''Zimmer'' (opt_prop (sample_rooms ''abc'') ''attributes'') =
      Inr ?ra"
    by code_simp
  have at: "truthy ?ra" by simp
  have x: "ToString number_to_string (opt_prop ?ra ''text'') = Inr ''abc''"
    by (simp add: opt_prop_def)
  from B[where nts=number_to_string and net="?net" and listingId="JStr ''160521994''"
      and id_text="''160521994''" and w=empty_world and b="sample_detail ''abc''",
      OF conjI[OF i conjI[OF r conjI[OF _ conjI[OF _ wf]]]]]
  obtain info w' where g: "getListingInfo number_to_string ?net (JStr ''160521994'')
      empty_world = (Inr (Some info), w')"
    by auto
  from A[where nts=number_to_string and net="?net" and listingId="JStr ''160521994''"
      and id_text="''160521994''" and w=empty_world and b="sample_detail ''abc''"
      and sections="JArr [sample_rooms ''abc'']" and tas="sample_rooms ''abc''"
      and ra="?ra" and info=info and w'=w',
      OF conjI[OF i conjI[OF r conjI[OF _ conjI[OF _ conjI[OF s conjI[OF t conjI[OF tt
         conjI[OF a conjI[OF at g]]]]]]]]]] x
  obtain s where s: "s = ''abc''" "roomCount info = JNum (parseInt10 s)"
      "(parseInt10 s = NaN) = (\<not> integer_prefix s)"
    by auto
  with np have "roomCount info = JNum NaN" by simp
  with g have "\<exists>info w'.
      getListingInfo number_to_string ?net (JStr ''160521994'') empty_world =
        (Inr (Some info), w') \<and> roomCount info = JNum NaN"
    by blast
  then show ?thesis by (rule conjI[OF wf conjI[OF np]])
qed

text \<open>
  The claim fails where the text of the rooms attribute is no integer: for \<^verbatim>\<open>abc\<close>
  \<^verbatim>\<open>roomCount\<close> is \<^verbatim>\<open>NaN\<close>, not \<^verbatim>\<open>null\<close>. It fails too where the search for a section
  meets \<^verbatim>\<open>null\<close>: the call throws, and the salutation of the same response is lost.
\<close>

theorem getListingInfo_roomCount_counterexample:
  "fst (getListingInfo number_to_string (respond True 200 ''OK'' (Some (sample_detail ''abc'')))
          (JStr ''160521994'') empty_world) =
     Inr (Some \<lparr>info_id = JStr ''160521994'', roomCount = JNum NaN, suburb = JNull,
                 salutation = Some \<lparr>gender = ''male'', lastName = JStr ''Mustermann''\<rparr>\<rparr>) \<and>
   fst (getListingInfo number_to_string (respond True 200 ''OK'' (Some broken_detail))
          (JStr ''160521994'') empty_world) = Inl TypeError"
  by code_simp

end
